theory Spec2Isabelle
  imports Main "HOL-Library.Word"
begin

unbundle bit_operations_syntax

section \<open>Kernel bring-up: \<open>src/kernel/core/init.cc\<close>\<close>

text \<open>
  The file embeds the three functions of \<open>init.cc\<close> that the specification talks about:
  \<open>IterateMemoryDescriptors\<close> (lines 20-28), \<open>ImageNtHeaders\<close> (lines 49-60) and
  \<open>OsInitialize\<close> (lines 62-175).

  Conventions.
  \<^item> Unsigned machine integers of the source (\<open>u16\<close>, \<open>u32\<close>, \<open>u64\<close>) are words; \<open>+\<close>
    wraps as the registers do.
  \<^item> A pointer is the 64-bit address it holds: advancing a pointer wraps at \<open>2^64\<close> as the
    address registers do, and pointers are compared as unsigned addresses.
  \<^item> A loop that the source does not bound is a \<^theory_text>\<open>partial_function\<close> in the option
    monad: \<open>None\<close> is a run that never leaves the loop.
  \<^item> Calls into other translation units (graphics, serial, ACPI, the page-table builder,
    the CPU) are recorded, in program order and with their arguments, in the \<open>trace\<close> of
    the machine state. Their bodies are not part of the sources: each such call returns,
    except \<open>mm::GetPresentPte\<close>, whose failure is a branch of the model.
\<close>

type_synonym u8 = "8 word"
type_synonym u16 = "16 word"
type_synonym u32 = "32 word"
type_synonym u64 = "64 word"

subsection \<open>The firmware memory map\<close>

text \<open>
  \<open>uefi::memory_descriptor\<close>: the fields are the ones \<open>SerialPrintDescriptors\<close> and
  \<open>OsInitialize\<close> read (lines 39-43, 101-102). The declaration itself (\<open>boot.h\<close>) is not
  part of the sources; the widths are those of the UEFI descriptor the names refer to.
\<close>

record memory_descriptor =
  type_d :: u32
  physical_start :: u64
  virtual_start :: u64
  number_of_pages :: u64
  attribute :: u64

text \<open>
  Modelled from the spec: the minimum valid descriptor size, i.e. the size of the
  descriptor structure (section 4.1). The structure is declared outside the sources; its
  five fields above occupy 40 bytes (a 32-bit type padded to 8, then four 64-bit fields).
\<close>

definition sizeof_memory_descriptor :: u64 where
  "sizeof_memory_descriptor = 40"

text \<open>
  Modelled from the spec: \<open>uefi::memory_runtime\<close>, the attribute bit "needed by the
  firmware after hand-off" (section 3). The constant is declared outside the sources; in
  the UEFI attribute set it is bit 63.
\<close>

definition memory_runtime :: u64 where
  "memory_runtime = 0x8000000000000000"

text \<open>
  \<open>MemoryMap\<close> (\<open>boot.h\<close>): the pointer to the buffer, the total size in bytes and the
  per-descriptor stride, the two sizes being 64-bit unsigned integers as the firmware
  hands them over.
\<close>

record MemoryMap =
  map_m :: u64
  size_m :: u64
  descriptor_size :: u64

text \<open>
  Modelled from the spec: \<open>uefi_next_memory_descriptor(p, n)\<close> is the descriptor pointer
  \<open>n\<close> bytes after \<open>p\<close> (section 4.1: iteration advances by the declared stride), the
  address being computed in 64 bits. The macro is declared outside the sources.
\<close>

definition uefi_next_memory_descriptor :: "u64 \<Rightarrow> u64 \<Rightarrow> u64" where
  "uefi_next_memory_descriptor p n = p + n"

text \<open>
  Lines 22-27: the \<open>for\<close> loop with cursor \<open>desc\<close>. The callback of the source has side
  effects only; here it transforms a state of any type \<open>'s\<close>.
\<close>

partial_function (option) IterateMemoryDescriptors_from ::
  "MemoryMap \<Rightarrow> (u64 \<Rightarrow> 's \<Rightarrow> 's) \<Rightarrow> u64 \<Rightarrow> 's \<Rightarrow> 's option" where
  "IterateMemoryDescriptors_from m callback desc s =
     (if desc < uefi_next_memory_descriptor (map_m m) (size_m m)
      then IterateMemoryDescriptors_from m callback
             (uefi_next_memory_descriptor desc (descriptor_size m)) (callback desc s)
      else Some s)"

declare IterateMemoryDescriptors_from.simps [code]

definition IterateMemoryDescriptors ::
  "MemoryMap \<Rightarrow> (u64 \<Rightarrow> 's \<Rightarrow> 's) \<Rightarrow> 's \<Rightarrow> 's option" where
  "IterateMemoryDescriptors m callback s = IterateMemoryDescriptors_from m callback (map_m m) s"

text \<open>
  The descriptors of a buffer read with a positive stride: the pointers
  \<open>map + k * stride\<close> for the offsets \<open>0, stride, 2 * stride, ...\<close> below \<open>size_m m\<close>; there
  are \<open>\<lceil>size / stride\<rceil>\<close> of them (sizes taken as numbers, without wrap-around).
\<close>

definition descriptor_count :: "MemoryMap \<Rightarrow> nat" where
  "descriptor_count m =
     (unat (size_m m) + unat (descriptor_size m) - 1) div unat (descriptor_size m)"

definition descriptors_of :: "MemoryMap \<Rightarrow> u64 list" where
  "descriptors_of m =
     map (\<lambda>k. map_m m + of_nat k * descriptor_size m) [0..<descriptor_count m]"

text \<open>
  \<open>map_in_address_space m\<close>: the buffer lies inside the 64-bit address space, and so does
  the buffer rounded up to a whole number of strides. Then neither the end bound
  \<open>map + size\<close> of the loop nor its cursor wraps around.
\<close>

definition map_in_address_space :: "MemoryMap \<Rightarrow> bool" where
  "map_in_address_space m \<longleftrightarrow>
     unat (map_m m) + unat (size_m m) < 2 ^ 64
     \<and> unat (map_m m) + descriptor_count m * unat (descriptor_size m) < 2 ^ 64"

text \<open>A callback that only records the descriptor pointers it is given, in order.\<close>

definition record_visit :: "u64 \<Rightarrow> u64 list \<Rightarrow> u64 list" where
  "record_visit desc visited = visited @ [desc]"

text \<open>
  \<open>descriptors_visited m desc ds\<close>: the loop of lines 22-27, started with cursor \<open>desc\<close>,
  leaves after having passed exactly the pointers \<open>ds\<close> to the callback, in this order.
\<close>

fun descriptors_visited :: "MemoryMap \<Rightarrow> u64 \<Rightarrow> u64 list \<Rightarrow> bool" where
  "descriptors_visited m desc [] =
     (\<not> desc < uefi_next_memory_descriptor (map_m m) (size_m m))"
| "descriptors_visited m desc (d # ds) =
     (desc < uefi_next_memory_descriptor (map_m m) (size_m m) \<and> d = desc
      \<and> descriptors_visited m (uefi_next_memory_descriptor desc (descriptor_size m)) ds)"

subsection \<open>The boot hand-off record and the platform constants\<close>

text \<open>
  \<open>LoaderBlock\<close> (\<open>boot.h\<close>) with the fields \<open>OsInitialize\<close> copies out (lines 64-79).
\<close>

record DisplayInfo =
  frame_buffer :: u64
  frame_buffer_size :: u64

record KernelData =
  physical_base :: u64
  size_k :: u64

record LoaderBlock =
  display :: DisplayInfo
  madt_header :: u64
  memory_map :: MemoryMap
  kernel :: KernelData
  hpet :: u64
  i8042 :: bool
  page_tables_pool :: u64
  page_tables_pool_count :: u64

text \<open>
  A virtual region of the \<open>kva\<close> namespace (\<open>mm.h\<close>): its base and what \<open>PageCount()\<close>
  returns.
\<close>

record Region =
  base :: u64
  PageCount :: u64

text \<open>
  Constants and helpers that \<open>OsInitialize\<close> uses and that are declared outside the
  sources. Their values are not known here, so the model takes them as a parameter:
  the four \<open>kva\<close> regions and the helper \<open>SizeToPages\<close>.
\<close>

record Platform =
  kva_kernel :: Region
  kva_kernel_pt :: Region
  kva_frame_buffer :: Region
  kva_devices :: Region
  SizeToPages :: "u64 \<Rightarrow> u64"

text \<open>
  Modelled from the spec: the page size of the target's 4-level paging scheme, 4096 bytes
  (section 8 lists consecutive pages at \<open>base, base + 4096, ...\<close>). The constant
  \<open>page_size\<close> is declared outside the sources.
\<close>

definition page_size :: u64 where
  "page_size = 0x1000"

subsection \<open>The kernel image\<close>

text \<open>
  The header structures, with the fields the source reads (lines 52-56, 135-156). The
  declarations are outside the sources; names and widths are those of the PE/COFF
  format (\<open>e_lfanew\<close> is a signed 32-bit offset).
\<close>

record IMAGE_DOS_HEADER =
  e_magic :: u16
  e_lfanew :: u32

record IMAGE_FILE_HEADER =
  NumberOfSections :: u16
  SizeOfOptionalHeader :: u16

record IMAGE_NT_HEADERS =
  Signature :: u32
  FileHeader :: IMAGE_FILE_HEADER

record IMAGE_SECTION_HEADER =
  Name :: "u8 list"
  VirtualSize :: u32
  VirtualAddress :: u32
  Characteristics :: u32

text \<open>
  Modelled from the spec: the magic values and the two characteristics flags of the
  PE-style layout (section 6: "a two-field magic/offset pair", "a second magic value",
  "distinguishable discardable and writable flags"). The constants are declared outside
  the sources; the values are those of the PE/COFF format.
\<close>

definition IMAGE_DOS_SIGNATURE :: u16 where
  "IMAGE_DOS_SIGNATURE = 0x5A4D"

definition IMAGE_NT_SIGNATURE :: u32 where
  "IMAGE_NT_SIGNATURE = 0x00004550"

definition IMAGE_SCN_MEM_DISCARDABLE :: u32 where
  "IMAGE_SCN_MEM_DISCARDABLE = 0x02000000"

definition IMAGE_SCN_MEM_WRITE :: u32 where
  "IMAGE_SCN_MEM_WRITE = 0x80000000"

text \<open>
  Memory is a function from virtual addresses to bytes. The source reads the image
  through typed pointers into that memory; how a structure is laid out in bytes is
  declared outside the sources, so the typed loads are a parameter: each takes the
  current memory and an address. A load therefore sees every earlier store of the run
  (\<open>memzero\<close> writes the same memory the headers are read from).
  The firmware's descriptors are read-only for the kernel and are read before any store
  of the model; their load does not take the memory.
\<close>

record typed_loads =
  load_dos_header :: "(u64 \<Rightarrow> u8) \<Rightarrow> u64 \<Rightarrow> IMAGE_DOS_HEADER"
  load_nt_headers :: "(u64 \<Rightarrow> u8) \<Rightarrow> u64 \<Rightarrow> IMAGE_NT_HEADERS"
  load_section_header :: "(u64 \<Rightarrow> u8) \<Rightarrow> u64 \<Rightarrow> IMAGE_SECTION_HEADER"
  load_memory_descriptor :: "u64 \<Rightarrow> memory_descriptor"

text \<open>Lines 49-60. The null pointer is the address 0.\<close>

definition ImageNtHeaders :: "typed_loads \<Rightarrow> (u64 \<Rightarrow> u8) \<Rightarrow> u64 \<Rightarrow> u64" where
  "ImageNtHeaders L mem image_base =
     (let dos_header = image_base in
      if dos_header = 0 \<or> e_magic (load_dos_header L mem dos_header) \<noteq> IMAGE_DOS_SIGNATURE
      then 0
      else
        let nt_headers = image_base + scast (e_lfanew (load_dos_header L mem dos_header)) in
        if nt_headers = 0 \<or> Signature (load_nt_headers L mem nt_headers) \<noteq> IMAGE_NT_SIGNATURE
        then 0
        else nt_headers)"

text \<open>
  Modelled from the spec: \<open>IMAGE_FIRST_SECTION\<close>, the start of the section table that
  follows the extended header (section 6). The macro is declared outside the sources; in
  the PE/COFF format the table starts after the optional header, which begins 24 bytes
  into \<open>IMAGE_NT_HEADERS\<close> and whose size is a field of the file header; a section header
  is 40 bytes long (\<open>section++\<close>, line 170).
\<close>

definition IMAGE_FIRST_SECTION :: "typed_loads \<Rightarrow> (u64 \<Rightarrow> u8) \<Rightarrow> u64 \<Rightarrow> u64" where
  "IMAGE_FIRST_SECTION L mem nt =
     nt + 24 + ucast (SizeOfOptionalHeader (FileHeader (load_nt_headers L mem nt)))"

definition sizeof_IMAGE_SECTION_HEADER :: u64 where
  "sizeof_IMAGE_SECTION_HEADER = 40"

subsection \<open>The machine state\<close>

text \<open>
  A leaf page-table entry. The source names one field, \<open>writable\<close> (line 166); the spec
  names the present bit and the physical target; \<open>other_bits\<close> stands for the rest of the
  entry. The declaration is outside the sources.
\<close>

record pte =
  present :: bool
  writable :: bool
  physical_target :: u64
  other_bits :: u64

text \<open>Which variable a call of \<open>MapPagesInRegion\<close> is given the address of (lines 92-95).\<close>

datatype slot = Slot_frame_buffer | Slot_hpet | Slot_apic_io | Slot_apic_local

datatype message =
    Msg_no_ps2
  | Msg_zeroing u64 u32
  | Msg_write_protecting u64 u64

text \<open>
  The observable steps, in the order of the source: calls into other translation units
  with the arguments that the source determines, the store to \<open>pte->writable\<close>, and the
  instructions \<open>__writecr3\<close>, \<open>unmask_interrupts\<close> and \<open>Idle\<close>. (The section name that lines
  139-140 copy only feeds the console text and is left out of the message.)
\<close>

datatype event =
    Ev_gfx_Initialize DisplayInfo
  | Ev_serial_Initialize
  | Ev_ParseMadt u64
  | Ev_PagePool u64 u64 u64
  | Ev_AllocatePhysical_root
  | Ev_MapPages u64 u64 u64
  | Ev_MapPagesInRegion Region slot u64
  | Ev_writecr3_root
  | Ev_SetFrameBufferAddress
  | Ev_using_apic bool
  | Ev_x64_Initialize
  | Ev_timer_Initialize
  | Ev_ps2_Initialize
  | Ev_Print message
  | Ev_memzero u64 u32
  | Ev_GetPresentPte u64
  | Ev_store_writable u64 bool
  | Ev_TlbFlushAddress u64
  | Ev_unmask_interrupts
  | Ev_Idle

text \<open>
  The state: the bytes of virtual memory, the leaf entry that the page-table walk finds
  for each virtual page number (\<open>None\<close>: an upper level is absent), and the trace.
  The page tables are a component of their own, not bytes of \<open>memory\<close>. What the CPU does
  with an access that the page tables do not allow (a page fault) is not part of the
  state: a load or a store of the model always takes place.
\<close>

record machine =
  memory :: "u64 \<Rightarrow> u8"
  leaf :: "u64 \<Rightarrow> pte option"
  trace :: "event list"

datatype fatal = Fatal_not_present u64

text \<open>
  A step either goes on with a new state or halts the machine with a fatal condition
  (\<open>Inl\<close>, with the state at the halt).
\<close>

type_synonym outcome = "(fatal \<times> machine) + machine"

definition emit :: "event \<Rightarrow> machine \<Rightarrow> machine" where
  "emit ev s = s\<lparr>trace := trace s @ [ev]\<rparr>"

subsection \<open>Address-space construction, lines 64-105\<close>

text \<open>The callback of lines 99-103.\<close>

definition map_runtime_descriptor :: "typed_loads \<Rightarrow> u64 \<Rightarrow> machine \<Rightarrow> machine" where
  "map_runtime_descriptor L desc s =
     (let d = load_memory_descriptor L desc in
      if attribute d AND memory_runtime \<noteq> 0
      then emit (Ev_MapPages (virtual_start d) (physical_start d) (number_of_pages d)) s
      else s)"

definition build_address_space ::
  "Platform \<Rightarrow> typed_loads \<Rightarrow> LoaderBlock \<Rightarrow> machine \<Rightarrow> machine option" where
  "build_address_space P L loader_block s0 =
     (let s = emit (Ev_gfx_Initialize (display loader_block)) s0;
          s = emit Ev_serial_Initialize s;
          s = emit (Ev_ParseMadt (madt_header loader_block)) s;
          memory_map = memory_map loader_block;
          kernel = kernel loader_block;
          pt_physical = page_tables_pool loader_block;
          pt_pages = page_tables_pool_count loader_block;
          s = emit (Ev_PagePool (base (kva_kernel_pt P)) pt_physical pt_pages) s;
          s = emit Ev_AllocatePhysical_root s;
          kernel_pages = SizeToPages P (size_k kernel);
          s = emit (Ev_MapPages (base (kva_kernel P)) (physical_base kernel) kernel_pages) s;
          s = emit (Ev_MapPages (base (kva_kernel_pt P)) pt_physical pt_pages) s;
          s = emit (Ev_MapPagesInRegion (kva_frame_buffer P) Slot_frame_buffer
                      (PageCount (kva_frame_buffer P))) s;
          s = emit (Ev_MapPagesInRegion (kva_devices P) Slot_hpet 1) s;
          s = emit (Ev_MapPagesInRegion (kva_devices P) Slot_apic_io 1) s;
          s = emit (Ev_MapPagesInRegion (kva_devices P) Slot_apic_local 1) s
      in case IterateMemoryDescriptors memory_map (map_runtime_descriptor L) s of
           None \<Rightarrow> None
         | Some s \<Rightarrow> Some (emit Ev_writecr3_root s))"

subsection \<open>Device initialisation, lines 107-117\<close>

definition initialize_devices :: "LoaderBlock \<Rightarrow> machine \<Rightarrow> machine" where
  "initialize_devices loader_block s0 =
     (let s = emit Ev_SetFrameBufferAddress s0;
          s = emit (Ev_using_apic False) s;
          s = emit Ev_x64_Initialize s;
          s = emit Ev_timer_Initialize s
      in if i8042 loader_block then emit Ev_ps2_Initialize s
         else emit (Ev_Print Msg_no_ps2) s)"

subsection \<open>Image hardening, lines 134-171\<close>

text \<open>
  Modelled from the spec: \<open>mm::GetPresentPte\<close> walks the hierarchy and returns the leaf
  entry for an already-mapped address; it fails with a fatal condition if a level along
  the walk is absent (section 4.3). The function is defined outside the sources. The
  pointer it returns is represented by the virtual page number that indexes \<open>leaf\<close>.
\<close>

definition GetPresentPte :: "machine \<Rightarrow> u64 \<Rightarrow> fatal + u64" where
  "GetPresentPte s va =
     (case leaf s (va div page_size) of
        None \<Rightarrow> Inl (Fatal_not_present va)
      | Some e \<Rightarrow> if present e then Inr (va div page_size) else Inl (Fatal_not_present va))"

text \<open>Line 166, \<open>pte->writable = false\<close>: a store to one bit-field of the entry.\<close>

definition store_writable :: "u64 \<Rightarrow> bool \<Rightarrow> machine \<Rightarrow> machine" where
  "store_writable p b s =
     (case leaf s p of
        None \<Rightarrow> s
      | Some e \<Rightarrow> emit (Ev_store_writable p b) (s\<lparr>leaf := (leaf s)(p \<mapsto> e\<lparr>writable := b\<rparr>)\<rparr>))"

text \<open>
  Modelled from the spec: \<open>memzero(p, n)\<close> zero-fills the \<open>n\<close> bytes starting at \<open>p\<close>
  (section 4.4). The function is defined outside the sources.
\<close>

definition memzero :: "u64 \<Rightarrow> u32 \<Rightarrow> machine \<Rightarrow> machine" where
  "memzero start n s =
     emit (Ev_memzero start n)
       (s\<lparr>memory := (\<lambda>a. if a - start < ucast n then 0 else memory s a)\<rparr>)"

text \<open>Lines 163-168: the loop over the pages of a section that is not writable.\<close>

partial_function (option) write_protect_pages :: "u64 \<Rightarrow> u64 \<Rightarrow> machine \<Rightarrow> outcome option" where
  "write_protect_pages page end_v s =
     (if page < end_v
      then (case GetPresentPte (emit (Ev_GetPresentPte page) s) page of
              Inl f \<Rightarrow> Some (Inl (f, emit (Ev_GetPresentPte page) s))
            | Inr pte \<Rightarrow>
                write_protect_pages (page + page_size) end_v
                  (emit (Ev_TlbFlushAddress page)
                     (store_writable pte False (emit (Ev_GetPresentPte page) s))))
      else Some (Inr s))"

declare write_protect_pages.simps [code]

text \<open>Lines 139-169: the body of the section loop, for the section header just loaded.\<close>

definition harden_section :: "Platform \<Rightarrow> IMAGE_SECTION_HEADER \<Rightarrow> machine \<Rightarrow> outcome option" where
  "harden_section P section s =
     (if Characteristics section AND IMAGE_SCN_MEM_DISCARDABLE \<noteq> 0
      then
        let start = base (kva_kernel P) + ucast (VirtualAddress section);
            size_v = VirtualSize section
        in Some (Inr (memzero start size_v (emit (Ev_Print (Msg_zeroing start size_v)) s)))
      else if Characteristics section AND IMAGE_SCN_MEM_WRITE = 0
      then
        let start = base (kva_kernel P) + ucast (VirtualAddress section);
            end_v = start + ucast (VirtualSize section)
        in write_protect_pages start end_v
             (emit (Ev_Print (Msg_write_protecting start end_v)) s)
      else Some (Inr s))"

text \<open>
  Lines 137-171: the loop over the section table. The bound and the section header are
  loaded from memory in every round, as the source does.
\<close>

function harden_sections ::
  "Platform \<Rightarrow> typed_loads \<Rightarrow> u64 \<Rightarrow> u16 \<Rightarrow> u64 \<Rightarrow> machine \<Rightarrow> outcome option" where
  "harden_sections P L kernel_nt i section s =
     (if i < NumberOfSections (FileHeader (load_nt_headers L (memory s) kernel_nt))
      then (case harden_section P (load_section_header L (memory s) section) s of
              None \<Rightarrow> None
            | Some (Inl h) \<Rightarrow> Some (Inl h)
            | Some (Inr s') \<Rightarrow>
                harden_sections P L kernel_nt (i + 1) (section + sizeof_IMAGE_SECTION_HEADER) s')
      else Some (Inr s))"
  by pat_completeness auto
termination
proof (relation "measure (\<lambda>(P, L, kernel_nt, i, section, s). 2 ^ 16 - unat i)")
  show "wf (measure (\<lambda>(P, L, kernel_nt, i, section, s). 2 ^ 16 - unat (i :: u16)))"
    by simp
next
  fix P :: Platform and L :: typed_loads and kernel_nt :: u64 and i :: u16
    and sec :: u64 and s :: machine and b :: machine
  assume lt: "i < NumberOfSections (FileHeader (load_nt_headers L (memory s) kernel_nt))"
  then have "unat (i + 1) = unat i + 1"
    by unat_arith
  moreover have "unat i < 2 ^ 16"
    using unsigned_less [of i] by simp
  ultimately show "((P, L, kernel_nt, i + 1, sec + sizeof_IMAGE_SECTION_HEADER, b),
                    (P, L, kernel_nt, i, sec, s))
        \<in> measure (\<lambda>(P, L, kernel_nt, i, section, s). 2 ^ 16 - unat i)"
    by simp
qed

definition harden_image :: "Platform \<Rightarrow> typed_loads \<Rightarrow> machine \<Rightarrow> outcome option" where
  "harden_image P L s =
     (let kernel_nt = ImageNtHeaders L (memory s) (base (kva_kernel P));
          section = IMAGE_FIRST_SECTION L (memory s) kernel_nt
      in harden_sections P L kernel_nt 0 section s)"

subsection \<open>\<open>OsInitialize\<close>, lines 62-175\<close>

definition OsInitialize ::
  "Platform \<Rightarrow> typed_loads \<Rightarrow> LoaderBlock \<Rightarrow> machine \<Rightarrow> outcome option" where
  "OsInitialize P L loader_block s0 =
     (case build_address_space P L loader_block s0 of
        None \<Rightarrow> None
      | Some s \<Rightarrow>
          (case harden_image P L (initialize_devices loader_block s) of
             None \<Rightarrow> None
           | Some (Inl h) \<Rightarrow> Some (Inl h)
           | Some (Inr s') \<Rightarrow> Some (Inr (emit Ev_Idle (emit Ev_unmask_interrupts s')))))"

subsection \<open>Notions used to state the claims\<close>

text \<open>The call of \<open>MapPages\<close> that line 102 makes for a descriptor.\<close>

definition map_event :: "memory_descriptor \<Rightarrow> event" where
  "map_event d = Ev_MapPages (virtual_start d) (physical_start d) (number_of_pages d)"

text \<open>
  Of the descriptors at the pointers \<open>visited\<close>, those that carry the firmware-runtime
  attribute, in the same order.
\<close>

definition runtime_descriptors :: "typed_loads \<Rightarrow> u64 list \<Rightarrow> memory_descriptor list" where
  "runtime_descriptors L visited =
     filter (\<lambda>d. attribute d AND memory_runtime \<noteq> 0)
       (map (load_memory_descriptor L) visited)"

text \<open>The steps of lines 64-95, before the memory map is read.\<close>

definition construction_events :: "Platform \<Rightarrow> LoaderBlock \<Rightarrow> event list" where
  "construction_events P loader_block =
     [Ev_gfx_Initialize (display loader_block),
      Ev_serial_Initialize,
      Ev_ParseMadt (madt_header loader_block),
      Ev_PagePool (base (kva_kernel_pt P)) (page_tables_pool loader_block)
        (page_tables_pool_count loader_block),
      Ev_AllocatePhysical_root,
      Ev_MapPages (base (kva_kernel P)) (physical_base (kernel loader_block))
        (SizeToPages P (size_k (kernel loader_block))),
      Ev_MapPages (base (kva_kernel_pt P)) (page_tables_pool loader_block)
        (page_tables_pool_count loader_block),
      Ev_MapPagesInRegion (kva_frame_buffer P) Slot_frame_buffer (PageCount (kva_frame_buffer P)),
      Ev_MapPagesInRegion (kva_devices P) Slot_hpet 1,
      Ev_MapPagesInRegion (kva_devices P) Slot_apic_io 1,
      Ev_MapPagesInRegion (kva_devices P) Slot_apic_local 1]"

text \<open>The state in which an outcome leaves the machine.\<close>

definition state_of :: "outcome \<Rightarrow> machine" where
  "state_of r = (case r of Inl (f, s) \<Rightarrow> s | Inr s \<Rightarrow> s)"

text \<open>
  \<open>flushed_each tr\<close>: in the trace \<open>tr\<close>, every store to the writable bit of an entry is
  followed at once by the invalidation of an address of that entry's page.
\<close>

fun flush_next :: "u64 \<Rightarrow> event list \<Rightarrow> bool" where
  "flush_next p (Ev_TlbFlushAddress page # tr) = (page div page_size = p)"
| "flush_next p tr = False"

fun flushed_each :: "event list \<Rightarrow> bool" where
  "flushed_each [] = True"
| "flushed_each (Ev_store_writable p b # tr) = (flush_next p tr \<and> flushed_each tr)"
| "flushed_each (ev # tr) = flushed_each tr"

text \<open>The three steps of one round of the loop of lines 163-168.\<close>

definition page_events :: "u64 \<Rightarrow> event list" where
  "page_events page =
     [Ev_GetPresentPte page, Ev_store_writable (page div page_size) False,
      Ev_TlbFlushAddress page]"

text \<open>
  \<open>pages_visited page end_v ps\<close>: the loop of lines 163-168, started with cursor \<open>page\<close>,
  leaves after having visited exactly the addresses \<open>ps\<close>, in this order.
\<close>

fun pages_visited :: "u64 \<Rightarrow> u64 \<Rightarrow> u64 list \<Rightarrow> bool" where
  "pages_visited page end_v [] = (\<not> page < end_v)"
| "pages_visited page end_v (p # ps) =
     (page < end_v \<and> p = page \<and> pages_visited (page + page_size) end_v ps)"

text \<open>
  The pages of a virtual extent of \<open>n\<close> bytes that starts at \<open>start\<close>: the addresses
  \<open>start + k * page_size\<close> below \<open>start + n\<close>, that is, for \<open>k < \<lceil>n / page_size\<rceil>\<close>.
\<close>

definition section_pages :: "u64 \<Rightarrow> u32 \<Rightarrow> u64 list" where
  "section_pages start n =
     map (\<lambda>k. start + of_nat k * page_size) [0..<(unat n + 4095) div 4096]"

text \<open>The rounds of lines 164-167 for a given list of addresses.\<close>

fun protect_list :: "u64 list \<Rightarrow> machine \<Rightarrow> outcome" where
  "protect_list [] s = Inr s"
| "protect_list (page # ps) s =
     (case GetPresentPte (emit (Ev_GetPresentPte page) s) page of
        Inl f \<Rightarrow> Inl (f, emit (Ev_GetPresentPte page) s)
      | Inr pte \<Rightarrow>
          protect_list ps
            (emit (Ev_TlbFlushAddress page)
               (store_writable pte False (emit (Ev_GetPresentPte page) s))))"

text \<open>
  The section table of the kernel image as a memory holds it: the headers that lines
  134-137 and 170 address.
\<close>

definition kernel_section_table ::
  "Platform \<Rightarrow> typed_loads \<Rightarrow> (u64 \<Rightarrow> u8) \<Rightarrow> IMAGE_SECTION_HEADER list" where
  "kernel_section_table P L mem =
     (let kernel_nt = ImageNtHeaders L mem (base (kva_kernel P));
          first = IMAGE_FIRST_SECTION L mem kernel_nt
      in map (\<lambda>j. load_section_header L mem (first + of_nat j * sizeof_IMAGE_SECTION_HEADER))
           [0..<unat (NumberOfSections (FileHeader (load_nt_headers L mem kernel_nt)))])"

text \<open>"For each section, in table order": the loop body applied to a list of headers.\<close>

fun harden_list :: "Platform \<Rightarrow> IMAGE_SECTION_HEADER list \<Rightarrow> machine \<Rightarrow> outcome option" where
  "harden_list P [] s = Some (Inr s)"
| "harden_list P (section # sections) s =
     (case harden_section P section s of
        None \<Rightarrow> None
      | Some (Inl h) \<Rightarrow> Some (Inl h)
      | Some (Inr s') \<Rightarrow> harden_list P sections s')"

text \<open>The bytes inside the virtual extent of a discardable section of a table.\<close>

definition discardable_bytes :: "Platform \<Rightarrow> IMAGE_SECTION_HEADER list \<Rightarrow> u64 set" where
  "discardable_bytes P sections =
     {a. \<exists>section \<in> set sections.
           Characteristics section AND IMAGE_SCN_MEM_DISCARDABLE \<noteq> 0
           \<and> a - (base (kva_kernel P) + ucast (VirtualAddress section))
               < ucast (VirtualSize section)}"

text \<open>
  \<open>headers_kept P L mem\<close>: the header structures of the image in \<open>mem\<close> do not lie inside a
  discardable section. Stated on the loads: whatever is stored into the bytes of the
  discardable sections, the loads of the DOS header, of the NT headers (at the address
  the DOS header gives and at the address \<open>ImageNtHeaders\<close> returns) and of every section
  header of the table return what they return in \<open>mem\<close>.
\<close>

definition headers_kept :: "Platform \<Rightarrow> typed_loads \<Rightarrow> (u64 \<Rightarrow> u8) \<Rightarrow> bool" where
  "headers_kept P L mem =
     (\<forall>mem'. (\<forall>a. a \<notin> discardable_bytes P (kernel_section_table P L mem) \<longrightarrow> mem' a = mem a) \<longrightarrow>
        load_dos_header L mem' (base (kva_kernel P)) = load_dos_header L mem (base (kva_kernel P))
        \<and> load_nt_headers L mem'
              (base (kva_kernel P) + scast (e_lfanew (load_dos_header L mem (base (kva_kernel P)))))
            = load_nt_headers L mem
              (base (kva_kernel P) + scast (e_lfanew (load_dos_header L mem (base (kva_kernel P)))))
        \<and> load_nt_headers L mem' (ImageNtHeaders L mem (base (kva_kernel P)))
            = load_nt_headers L mem (ImageNtHeaders L mem (base (kva_kernel P)))
        \<and> (\<forall>j < unat (NumberOfSections (FileHeader (load_nt_headers L mem
                        (ImageNtHeaders L mem (base (kva_kernel P)))))).
              load_section_header L mem'
                (IMAGE_FIRST_SECTION L mem (ImageNtHeaders L mem (base (kva_kernel P)))
                   + of_nat j * sizeof_IMAGE_SECTION_HEADER)
              = load_section_header L mem
                (IMAGE_FIRST_SECTION L mem (ImageNtHeaders L mem (base (kva_kernel P)))
                   + of_nat j * sizeof_IMAGE_SECTION_HEADER)))"

text \<open>
  \<open>writable_cleared f g\<close>: the leaf entries \<open>g\<close> are the entries \<open>f\<close>, except that in some
  entries that are present the writable bit has been cleared.
\<close>

definition writable_cleared :: "(u64 \<Rightarrow> pte option) \<Rightarrow> (u64 \<Rightarrow> pte option) \<Rightarrow> bool" where
  "writable_cleared f g =
     (\<forall>p. g p = f p \<or> (\<exists>e. f p = Some e \<and> present e \<and> g p = Some (e\<lparr>writable := False\<rparr>)))"

text \<open>The steps that the hardening pass of lines 134-171 can take.\<close>

fun hardening_event :: "event \<Rightarrow> bool" where
  "hardening_event (Ev_Print m) = True"
| "hardening_event (Ev_memzero a n) = True"
| "hardening_event (Ev_GetPresentPte page) = True"
| "hardening_event (Ev_store_writable p b) = True"
| "hardening_event (Ev_TlbFlushAddress page) = True"
| "hardening_event ev = False"

text \<open>
  \<open>hardened_from s t\<close>: what steps of the hardening pass can make of a state \<open>s\<close>. Leaf
  entries only lose the writable bit, and only present ones; bytes only become zero;
  the trace only grows, by steps of the pass in which every store to an entry is
  followed at once by the invalidation of its page.
\<close>

definition hardened_from :: "machine \<Rightarrow> machine \<Rightarrow> bool" where
  "hardened_from s t =
     (writable_cleared (leaf s) (leaf t)
      \<and> (\<forall>a. memory t a = memory s a \<or> memory t a = 0)
      \<and> (\<exists>tr. trace t = trace s @ tr \<and> flushed_each tr \<and> list_all hardening_event tr))"

text \<open>The steps of lines 107-117.\<close>

definition device_events :: "LoaderBlock \<Rightarrow> event list" where
  "device_events loader_block =
     [Ev_SetFrameBufferAddress, Ev_using_apic False, Ev_x64_Initialize, Ev_timer_Initialize,
      if i8042 loader_block then Ev_ps2_Initialize else Ev_Print Msg_no_ps2]"


subsection \<open>The typed loads of the PE/COFF layout\<close>

text \<open>
  Modelled from the spec: the typed loads for the portable-executable-style layout of
  section 6. The structure declarations are outside the sources; the offsets are those of
  the PE/COFF format, multi-byte fields are little-endian: \<open>e_magic\<close> at 0 and \<open>e_lfanew\<close>
  at 60 of the DOS header; \<open>Signature\<close> at 0, \<open>NumberOfSections\<close> at 6 and
  \<open>SizeOfOptionalHeader\<close> at 20 of the NT headers; \<open>Name\<close> at 0, \<open>VirtualSize\<close> at 8,
  \<open>VirtualAddress\<close> at 12 and \<open>Characteristics\<close> at 36 of a section header. The firmware
  descriptors are given as a function of the descriptor pointer.
\<close>

definition load_u16 :: "(u64 \<Rightarrow> u8) \<Rightarrow> u64 \<Rightarrow> u16" where
  "load_u16 mem a = word_cat (mem (a + 1)) (mem a)"

definition load_u32 :: "(u64 \<Rightarrow> u8) \<Rightarrow> u64 \<Rightarrow> u32" where
  "load_u32 mem a = word_cat (load_u16 mem (a + 2)) (load_u16 mem a)"

definition pe_loads :: "(u64 \<Rightarrow> memory_descriptor) \<Rightarrow> typed_loads" where
  "pe_loads descriptors =
     \<lparr>load_dos_header = (\<lambda>mem a.
        \<lparr>e_magic = load_u16 mem a, e_lfanew = load_u32 mem (a + 60)\<rparr>),
      load_nt_headers = (\<lambda>mem a.
        \<lparr>Signature = load_u32 mem a,
          FileHeader = \<lparr>NumberOfSections = load_u16 mem (a + 6),
                        SizeOfOptionalHeader = load_u16 mem (a + 20)\<rparr>\<rparr>),
      load_section_header = (\<lambda>mem a.
        \<lparr>Name = map (\<lambda>i. mem (a + of_nat i)) [0..<8],
          VirtualSize = load_u32 mem (a + 8),
          VirtualAddress = load_u32 mem (a + 12),
          Characteristics = load_u32 mem (a + 36)\<rparr>),
      load_memory_descriptor = descriptors\<rparr>"

subsection \<open>A small hand-off record and image, for evaluation\<close>

definition example_platform :: Platform where
  "example_platform =
     \<lparr>kva_kernel = \<lparr>base = 0xFFFFFFFF80000000, PageCount = 0x800\<rparr>,
      kva_kernel_pt = \<lparr>base = 0xFFFFFFFF90000000, PageCount = 0x800\<rparr>,
      kva_frame_buffer = \<lparr>base = 0xFFFFFFFFA0000000, PageCount = 0x3000\<rparr>,
      kva_devices = \<lparr>base = 0xFFFFFFFFB0000000, PageCount = 0x10\<rparr>,
      SizeToPages = (\<lambda>n. (n + 0xFFF) div 0x1000)\<rparr>"

text \<open>
  Two firmware descriptors: runtime services data (type 6, runtime attribute set) and
  conventional memory (type 7, no runtime attribute); \<open>example_stray\<close> is what a load at
  an address inside the first descriptor yields.
\<close>

definition example_runtime :: memory_descriptor where
  "example_runtime =
     \<lparr>type_d = 6, physical_start = 0x7F000000, virtual_start = 0x7F000000,
      number_of_pages = 4, attribute = 0x800000000000000F\<rparr>"

definition example_conventional :: memory_descriptor where
  "example_conventional =
     \<lparr>type_d = 7, physical_start = 0x100000, virtual_start = 0,
      number_of_pages = 0x100, attribute = 0xF\<rparr>"

definition example_stray :: memory_descriptor where
  "example_stray =
     \<lparr>type_d = 0x7F000000, physical_start = 0x7F000000, virtual_start = 4,
      number_of_pages = 0x800000000000000F, attribute = 0x8000000000000000\<rparr>"

definition example_map :: MemoryMap where
  "example_map = \<lparr>map_m = 0x1000, size_m = 96, descriptor_size = 48\<rparr>"

text \<open>
  An image of three sections at \<open>kva_kernel\<close>: \<open>INIT\<close> (discardable, two pages), \<open>.text\<close>
  (neither discardable nor writable, one page) and \<open>.data\<close> (writable, one page).
\<close>

definition example_INIT :: IMAGE_SECTION_HEADER where
  "example_INIT =
     \<lparr>Name = [0x49, 0x4E, 0x49, 0x54, 0, 0, 0, 0], VirtualSize = 0x2000,
      VirtualAddress = 0x2000, Characteristics = 0x62000020\<rparr>"

definition example_text :: IMAGE_SECTION_HEADER where
  "example_text =
     \<lparr>Name = [0x2E, 0x74, 0x65, 0x78, 0x74, 0, 0, 0], VirtualSize = 0x1000,
      VirtualAddress = 0x1000, Characteristics = 0x60000020\<rparr>"

definition example_data :: IMAGE_SECTION_HEADER where
  "example_data =
     \<lparr>Name = [0x2E, 0x64, 0x61, 0x74, 0x61, 0, 0, 0], VirtualSize = 0x1000,
      VirtualAddress = 0x4000, Characteristics = 0xC0000040\<rparr>"

text \<open>
  What stands at the addresses \<open>0x6\<close>, \<open>0x14\<close> and \<open>0x18\<close> in the example: a section count
  of one, an optional header of size zero and, as the "section" at \<open>0x18\<close>, a header
  with the discardable flag, offset \<open>0x4000\<close> and size \<open>0x10\<close>.
\<close>

definition example_low_section :: IMAGE_SECTION_HEADER where
  "example_low_section =
     \<lparr>Name = [], VirtualSize = 0x10, VirtualAddress = 0x4000, Characteristics = 0x02000000\<rparr>"

text \<open>
  The typed loads of the example. They return the structures above at the addresses
  where the image holds them (DOS header at the image base, NT headers at offset \<open>0x80\<close>,
  section table at offset \<open>0x188\<close>), whatever the rest of memory contains.
\<close>

definition example_loads :: typed_loads where
  "example_loads =
     \<lparr>load_dos_header = (\<lambda>mem a.
        if a = 0xFFFFFFFF80000000 then \<lparr>e_magic = 0x5A4D, e_lfanew = 0x80\<rparr>
        else \<lparr>e_magic = 0, e_lfanew = 0\<rparr>),
      load_nt_headers = (\<lambda>mem a.
        if a = 0xFFFFFFFF80000080
        then \<lparr>Signature = 0x4550,
              FileHeader = \<lparr>NumberOfSections = 3, SizeOfOptionalHeader = 0xF0\<rparr>\<rparr>
        else if a = 0
        then \<lparr>Signature = 0,
              FileHeader = \<lparr>NumberOfSections = 1, SizeOfOptionalHeader = 0\<rparr>\<rparr>
        else \<lparr>Signature = 0,
              FileHeader = \<lparr>NumberOfSections = 0, SizeOfOptionalHeader = 0\<rparr>\<rparr>),
      load_section_header = (\<lambda>mem a.
        if a = 0xFFFFFFFF80000188 then example_INIT
        else if a = 0xFFFFFFFF800001B0 then example_text
        else if a = 0xFFFFFFFF800001D8 then example_data
        else if a = 0x18 then example_low_section
        else \<lparr>Name = [], VirtualSize = 0, VirtualAddress = 0, Characteristics = 0\<rparr>),
      load_memory_descriptor = (\<lambda>p.
        if p = 0x1000 then example_runtime
        else if p = 0x1030 then example_conventional
        else example_stray)\<rparr>"

text \<open>The same image with a corrupted first byte of the DOS header.\<close>

definition example_loads_bad_magic :: typed_loads where
  "example_loads_bad_magic =
     example_loads\<lparr>load_dos_header := (\<lambda>mem a.
        if a = 0xFFFFFFFF80000000 then \<lparr>e_magic = 0x5A00, e_lfanew = 0x80\<rparr>
        else \<lparr>e_magic = 0, e_lfanew = 0\<rparr>)\<rparr>"

definition example_loader_block :: LoaderBlock where
  "example_loader_block =
     \<lparr>display = \<lparr>frame_buffer = 0xC0000000, frame_buffer_size = 0x300000\<rparr>,
      madt_header = 0x7FE00000,
      memory_map = example_map,
      kernel = \<lparr>physical_base = 0x200000, size_k = 0x5000\<rparr>,
      hpet = 0xFED00000,
      i8042 = True,
      page_tables_pool = 0x400000,
      page_tables_pool_count = 0x40\<rparr>"

text \<open>
  A machine whose memory is filled with \<open>0xFF\<close> and whose page tables map the five pages
  of the image, present and writable.
\<close>

definition example_machine :: machine where
  "example_machine =
     \<lparr>memory = (\<lambda>a. 0xFF),
      leaf = (\<lambda>p. if 0xFFFFFFFF80000 \<le> p \<and> p < 0xFFFFFFFF80005
                  then Some \<lparr>present = True, writable = True,
                             physical_target = 0x200000 + (p - 0xFFFFFFFF80000) * 0x1000,
                             other_bits = 0\<rparr>
                  else None),
      trace = []\<rparr>"

text \<open>
  The same image as bytes: the header fields of the image at \<open>kva::kernel.base\<close>, every
  other byte of memory being \<open>0xFF\<close>; the typed loads of the PE/COFF layout over it; and
  the example machine with this memory.
\<close>

definition example_header_bytes :: "(u64 \<times> u8) list" where
  "example_header_bytes =
     [(0x000, 0x4D), (0x001, 0x5A),
      (0x03C, 0x80), (0x03D, 0x00), (0x03E, 0x00), (0x03F, 0x00),
      (0x080, 0x50), (0x081, 0x45), (0x082, 0x00), (0x083, 0x00),
      (0x086, 0x03), (0x087, 0x00),
      (0x094, 0xF0), (0x095, 0x00),
      (0x188, 0x49), (0x189, 0x4E), (0x18A, 0x49), (0x18B, 0x54),
      (0x18C, 0x00), (0x18D, 0x00), (0x18E, 0x00), (0x18F, 0x00),
      (0x190, 0x00), (0x191, 0x20), (0x192, 0x00), (0x193, 0x00),
      (0x194, 0x00), (0x195, 0x20), (0x196, 0x00), (0x197, 0x00),
      (0x1AC, 0x20), (0x1AD, 0x00), (0x1AE, 0x00), (0x1AF, 0x62),
      (0x1B0, 0x2E), (0x1B1, 0x74), (0x1B2, 0x65), (0x1B3, 0x78),
      (0x1B4, 0x74), (0x1B5, 0x00), (0x1B6, 0x00), (0x1B7, 0x00),
      (0x1B8, 0x00), (0x1B9, 0x10), (0x1BA, 0x00), (0x1BB, 0x00),
      (0x1BC, 0x00), (0x1BD, 0x10), (0x1BE, 0x00), (0x1BF, 0x00),
      (0x1D4, 0x20), (0x1D5, 0x00), (0x1D6, 0x00), (0x1D7, 0x60),
      (0x1D8, 0x2E), (0x1D9, 0x64), (0x1DA, 0x61), (0x1DB, 0x74),
      (0x1DC, 0x61), (0x1DD, 0x00), (0x1DE, 0x00), (0x1DF, 0x00),
      (0x1E0, 0x00), (0x1E1, 0x10), (0x1E2, 0x00), (0x1E3, 0x00),
      (0x1E4, 0x00), (0x1E5, 0x40), (0x1E6, 0x00), (0x1E7, 0x00),
      (0x1FC, 0x40), (0x1FD, 0x00), (0x1FE, 0x00), (0x1FF, 0xC0)]"

definition example_bytes :: "u64 \<Rightarrow> u8" where
  "example_bytes a =
     (case map_of example_header_bytes (a - 0xFFFFFFFF80000000) of
        Some b \<Rightarrow> b
      | None \<Rightarrow> 0xFF)"

definition example_pe_loads :: typed_loads where
  "example_pe_loads = pe_loads (load_memory_descriptor example_loads)"

definition example_pe_machine :: machine where
  "example_pe_machine = example_machine\<lparr>memory := example_bytes\<rparr>"

text \<open>
  Two variants of the image, which differ from it in header bytes only. In the first,
  \<open>.text\<close> starts at offset \<open>0x800\<close>, off the page boundary (the second byte of its
  \<open>VirtualAddress\<close> is \<open>0x08\<close>): its extent of \<open>0x1000\<close> bytes reaches into the page at offset
  \<open>0x1000\<close>. In the second, \<open>INIT\<close> is the first page of the image, which holds the headers
  (\<open>VirtualAddress\<close> 0, \<open>VirtualSize\<close> \<open>0x1000\<close>).
\<close>

definition example_bytes_unaligned :: "u64 \<Rightarrow> u8" where
  "example_bytes_unaligned a = (if a = 0xFFFFFFFF800001BD then 0x08 else example_bytes a)"

definition example_bytes_self_wipe :: "u64 \<Rightarrow> u8" where
  "example_bytes_self_wipe a =
     (if a = 0xFFFFFFFF80000191 then 0x10
      else if a = 0xFFFFFFFF80000195 then 0x00
      else example_bytes a)"

text \<open>
  A section header for the last page of the address space, \<open>0x7FFFF000\<close> bytes above
  \<open>kva::kernel.base\<close>, neither discardable nor writable.
\<close>

definition example_top_section :: IMAGE_SECTION_HEADER where
  "example_top_section =
     \<lparr>Name = [0x2E, 0x74, 0x6F, 0x70, 0, 0, 0, 0], VirtualSize = 0x1000,
      VirtualAddress = 0x7FFFF000, Characteristics = 0x60000020\<rparr>"

section \<open>The memory map reader\<close>

subsection \<open>Every run of the loop\<close>

text \<open>
  The loop returns exactly when there is a list of pointers that it visits, whatever the
  callback; the callback is then folded over that list. A loop whose cursor stays below
  the end bound at every step never returns.
\<close>

lemma IterateMemoryDescriptors_from_visited:
  "descriptors_visited m desc ds \<Longrightarrow>
     IterateMemoryDescriptors_from m callback desc s = Some (fold callback ds s)"
proof (induction ds arbitrary: desc s)
  case Nil
  then show ?case by (subst IterateMemoryDescriptors_from.simps) simp
next
  case (Cons d ds)
  then show ?case by (subst IterateMemoryDescriptors_from.simps) simp
qed

lemma IterateMemoryDescriptors_from_returns:
  assumes "IterateMemoryDescriptors_from m callback desc s = Some y"
  shows "\<exists>ds. descriptors_visited m desc ds"
  using assms
proof (induction rule: IterateMemoryDescriptors_from.raw_induct[rotated 1, consumes 1])
  case (1 f m callback desc s y)
  show ?case
  proof (cases "desc < uefi_next_memory_descriptor (map_m m) (size_m m)")
    case False
    then have "descriptors_visited m desc []" by simp
    then show ?thesis ..
  next
    case True
    with 1(2) have "f m callback (uefi_next_memory_descriptor desc (descriptor_size m))
        (callback desc s) = Some y"
      by simp
    from 1(1) [OF this] obtain ds where
      "descriptors_visited m (uefi_next_memory_descriptor desc (descriptor_size m)) ds" ..
    with True have "descriptors_visited m desc (desc # ds)" by simp
    then show ?thesis ..
  qed
qed

lemma fold_record_visit: "fold record_visit ds acc = acc @ ds"
  by (induction ds arbitrary: acc) (simp_all add: record_visit_def)

lemma IterateMemoryDescriptors_fold:
  "IterateMemoryDescriptors m callback s =
     map_option (\<lambda>visited. fold callback visited s) (IterateMemoryDescriptors m record_visit [])"
proof (cases "\<exists>ds. descriptors_visited m (map_m m) ds")
  case True
  then obtain ds where ds: "descriptors_visited m (map_m m) ds" ..
  show ?thesis
    by (simp add: IterateMemoryDescriptors_def IterateMemoryDescriptors_from_visited [OF ds]
        fold_record_visit)
next
  case False
  have a: "IterateMemoryDescriptors_from m callback (map_m m) s = None"
  proof (cases "IterateMemoryDescriptors_from m callback (map_m m) s")
    case None
    then show ?thesis .
  next
    case (Some y)
    from IterateMemoryDescriptors_from_returns [OF this] False show ?thesis by blast
  qed
  have b: "IterateMemoryDescriptors_from m record_visit (map_m m) [] = None"
  proof (cases "IterateMemoryDescriptors_from m record_visit (map_m m) []")
    case None
    then show ?thesis .
  next
    case (Some y)
    from IterateMemoryDescriptors_from_returns [OF this] False show ?thesis by blast
  qed
  from a b show ?thesis by (simp add: IterateMemoryDescriptors_def)
qed

lemma IterateMemoryDescriptors_from_orbit:
  assumes "IterateMemoryDescriptors_from m callback desc s = Some y"
  shows "\<exists>k. \<not> desc + of_nat k * descriptor_size m
                 < uefi_next_memory_descriptor (map_m m) (size_m m)"
  using assms
proof (induction rule: IterateMemoryDescriptors_from.raw_induct[rotated 1, consumes 1])
  case (1 f m callback desc s y)
  show ?case
  proof (cases "desc < uefi_next_memory_descriptor (map_m m) (size_m m)")
    case False
    then have "\<not> desc + of_nat 0 * descriptor_size m
                 < uefi_next_memory_descriptor (map_m m) (size_m m)"
      by simp
    then show ?thesis ..
  next
    case True
    with 1(2) have "f m callback (uefi_next_memory_descriptor desc (descriptor_size m))
        (callback desc s) = Some y"
      by simp
    from 1(1) [OF this] obtain k where
      "\<not> uefi_next_memory_descriptor desc (descriptor_size m) + of_nat k * descriptor_size m
                 < uefi_next_memory_descriptor (map_m m) (size_m m)" ..
    then have "\<not> desc + of_nat (Suc k) * descriptor_size m
                 < uefi_next_memory_descriptor (map_m m) (size_m m)"
      by (simp add: uefi_next_memory_descriptor_def algebra_simps)
    then show ?thesis ..
  qed
qed

lemma IterateMemoryDescriptors_diverges:
  assumes "\<forall>k. map_m m + of_nat k * descriptor_size m
                 < uefi_next_memory_descriptor (map_m m) (size_m m)"
  shows "IterateMemoryDescriptors m callback s = None"
proof (cases "IterateMemoryDescriptors m callback s")
  case None
  then show ?thesis .
next
  case (Some y)
  then have "IterateMemoryDescriptors_from m callback (map_m m) s = Some y"
    by (simp add: IterateMemoryDescriptors_def)
  from IterateMemoryDescriptors_from_orbit [OF this] assms show ?thesis by blast
qed


subsection \<open>Buffers inside the address space\<close>

text \<open>
  For a positive stride and a buffer inside the address space, neither the end bound nor
  the cursor wraps around, and the loop visits the pointers \<open>descriptors_of m\<close>.
\<close>

lemma cursor_unat:
  fixes p d :: u64
  assumes "unat p + k * unat d < 2 ^ 64"
  shows "unat (p + of_nat k * d) = unat p + k * unat d"
proof -
  have "unat (p + of_nat k * d) = (unat p + k * unat d) mod 2 ^ 64"
    by (simp add: unat_word_ariths unat_of_nat mod_simps)
  with assms show ?thesis by simp
qed

lemma bound_unat:
  fixes p n :: u64
  assumes "unat p + unat n < 2 ^ 64"
  shows "unat (p + n) = unat p + unat n"
  using assms by (simp add: unat_word_ariths)

lemma ceil_div_exact: "0 < d \<Longrightarrow> (d * q + d - 1) div d = q" for d q :: nat
proof -
  assume d: "0 < d"
  then have "d * q + d - 1 = (d - 1) + q * d" by (simp add: mult.commute)
  moreover have "(r + q * d) div d = q" if "r < d" for r
    using that by simp
  from this [of "d - 1"] d have "((d - 1) + q * d) div d = q"
    by (metis diff_less zero_less_one)
  ultimately show ?thesis by (simp only:)
qed

lemma descriptor_count_bound:
  assumes "0 < unat (descriptor_size m)" and "k < descriptor_count m"
  shows "k * unat (descriptor_size m) < unat (size_m m)"
proof -
  let ?d = "unat (descriptor_size m)" and ?n = "unat (size_m m)"
  from assms(2) have "Suc k \<le> (?n + ?d - 1) div ?d"
    by (simp add: descriptor_count_def)
  then have "Suc k * ?d \<le> (?n + ?d - 1) div ?d * ?d"
    by (rule mult_le_mono1)
  also have "\<dots> \<le> ?n + ?d - 1" by (rule div_times_less_eq_dividend)
  finally show ?thesis using assms(1) by simp
qed

lemma descriptor_count_reach:
  assumes "0 < unat (descriptor_size m)"
  shows "unat (size_m m) \<le> descriptor_count m * unat (descriptor_size m)"
proof -
  let ?d = "unat (descriptor_size m)" and ?n = "unat (size_m m)"
  have "?n + ?d - 1 = (?n + ?d - 1) div ?d * ?d + (?n + ?d - 1) mod ?d"
    by simp
  moreover have "(?n + ?d - 1) mod ?d < ?d" using assms by simp
  ultimately have "?n + ?d - 1 < (?n + ?d - 1) div ?d * ?d + ?d" by linarith
  then show ?thesis using assms by (simp add: descriptor_count_def)
qed

lemma descriptor_count_dvd:
  assumes "0 < unat (descriptor_size m)" and "unat (descriptor_size m) dvd unat (size_m m)"
  shows "descriptor_count m = unat (size_m m) div unat (descriptor_size m)"
proof -
  from assms(2) obtain q where q: "unat (size_m m) = unat (descriptor_size m) * q" ..
  have "(unat (descriptor_size m) * q + unat (descriptor_size m) - 1) div unat (descriptor_size m) = q"
    using assms(1) by (rule ceil_div_exact)
  with q assms(1) show ?thesis by (simp add: descriptor_count_def)
qed

lemma descriptor_inside_dvd:
  assumes "0 < unat (descriptor_size m)" and "unat (descriptor_size m) dvd unat (size_m m)"
    and "k < descriptor_count m"
  shows "k * unat (descriptor_size m) + unat (descriptor_size m) \<le> unat (size_m m)"
proof -
  let ?d = "unat (descriptor_size m)" and ?n = "unat (size_m m)"
  from assms have "Suc k \<le> ?n div ?d"
    by (simp add: descriptor_count_dvd)
  then have "Suc k * ?d \<le> ?n div ?d * ?d"
    by (rule mult_le_mono1)
  also have "\<dots> = ?n" using assms(2) by simp
  finally show ?thesis by simp
qed

lemma descriptor_unat:
  assumes "map_in_address_space m" and "k \<le> descriptor_count m"
  shows "unat (map_m m + of_nat k * descriptor_size m)
           = unat (map_m m) + k * unat (descriptor_size m)"
proof -
  from assms(2) have "k * unat (descriptor_size m)
      \<le> descriptor_count m * unat (descriptor_size m)"
    by (rule mult_le_mono1)
  moreover from assms(1)
  have "unat (map_m m) + descriptor_count m * unat (descriptor_size m) < 2 ^ 64"
    by (simp add: map_in_address_space_def)
  ultimately have "unat (map_m m) + k * unat (descriptor_size m) < 2 ^ 64"
    by linarith
  then show ?thesis by (rule cursor_unat)
qed

lemma end_unat:
  assumes "map_in_address_space m"
  shows "unat (uefi_next_memory_descriptor (map_m m) (size_m m))
           = unat (map_m m) + unat (size_m m)"
  using assms by (simp add: map_in_address_space_def uefi_next_memory_descriptor_def bound_unat)

lemma buffer_not_empty:
  assumes "size_m m \<noteq> 0" and "map_in_address_space m"
  shows "map_m m < uefi_next_memory_descriptor (map_m m) (size_m m)"
proof -
  from assms(1) have "0 < unat (size_m m)" by (simp add: unat_gt_0)
  then show ?thesis
    by (simp add: word_less_nat_alt end_unat [OF assms(2)])
qed

lemma descriptors_visited_from:
  assumes pos: "0 < unat (descriptor_size m)" and fits: "map_in_address_space m"
    and j: "j \<le> descriptor_count m"
  shows "descriptors_visited m (map_m m + of_nat j * descriptor_size m)
           (map (\<lambda>k. map_m m + of_nat k * descriptor_size m) [j..<descriptor_count m])"
  using j
proof (induction "descriptor_count m - j" arbitrary: j)
  case 0
  then have j: "j = descriptor_count m" by simp
  have "unat (map_m m) + unat (size_m m)
      \<le> unat (map_m m) + descriptor_count m * unat (descriptor_size m)"
    using descriptor_count_reach [OF pos] by simp
  then have "\<not> map_m m + of_nat (descriptor_count m) * descriptor_size m
      < uefi_next_memory_descriptor (map_m m) (size_m m)"
    by (simp only: word_less_nat_alt end_unat [OF fits] descriptor_unat [OF fits order_refl])
  then show ?case by (simp add: j)
next
  case (Suc n)
  then have lt: "j < descriptor_count m" and n: "n = descriptor_count m - Suc j"
    and le: "Suc j \<le> descriptor_count m"
    by simp_all
  from lt have jle: "j \<le> descriptor_count m" by simp
  have below: "map_m m + of_nat j * descriptor_size m
      < uefi_next_memory_descriptor (map_m m) (size_m m)"
    using descriptor_count_bound [OF pos lt]
    by (simp only: word_less_nat_alt end_unat [OF fits] descriptor_unat [OF fits jle])
  have nxt: "uefi_next_memory_descriptor (map_m m + of_nat j * descriptor_size m)
        (descriptor_size m) = map_m m + of_nat (Suc j) * descriptor_size m"
    by (simp add: uefi_next_memory_descriptor_def algebra_simps)
  have l: "[j..<descriptor_count m] = j # [Suc j..<descriptor_count m]"
    using lt by (rule upt_conv_Cons)
  have "descriptors_visited m (map_m m + of_nat (Suc j) * descriptor_size m)
           (map (\<lambda>k. map_m m + of_nat k * descriptor_size m) [Suc j..<descriptor_count m])"
    using n le by (rule Suc.hyps(1))
  with below show ?case
    by (simp only: l list.map descriptors_visited.simps nxt)
qed

lemma descriptors_visited_descriptors_of:
  assumes "0 < descriptor_size m" and "map_in_address_space m"
  shows "descriptors_visited m (map_m m) (descriptors_of m)"
proof -
  from assms(1) have "0 < unat (descriptor_size m)" by (simp add: word_less_nat_alt)
  from descriptors_visited_from [OF this assms(2), of 0] show ?thesis
    by (simp add: descriptors_of_def)
qed

lemma IterateMemoryDescriptors_visits:
  assumes "0 < descriptor_size m" and "map_in_address_space m"
  shows "IterateMemoryDescriptors m callback s = Some (fold callback (descriptors_of m) s)"
  unfolding IterateMemoryDescriptors_def
  using descriptors_visited_descriptors_of [OF assms]
  by (rule IterateMemoryDescriptors_from_visited)

lemma IterateMemoryDescriptors_empty:
  assumes "size_m m = 0"
  shows "IterateMemoryDescriptors m callback s = Some s"
  unfolding IterateMemoryDescriptors_def using assms
  by (subst IterateMemoryDescriptors_from.simps) (simp add: uefi_next_memory_descriptor_def)

lemma IterateMemoryDescriptors_zero_stride:
  assumes "descriptor_size m = 0"
  shows "IterateMemoryDescriptors m callback s =
     (if map_m m < uefi_next_memory_descriptor (map_m m) (size_m m) then None else Some s)"
proof (cases "map_m m < uefi_next_memory_descriptor (map_m m) (size_m m)")
  case True
  with assms have "\<forall>k. map_m m + of_nat k * descriptor_size m
                 < uefi_next_memory_descriptor (map_m m) (size_m m)"
    by simp
  then have "IterateMemoryDescriptors m callback s = None"
    by (rule IterateMemoryDescriptors_diverges)
  with True show ?thesis by simp
next
  case False
  then show ?thesis
    unfolding IterateMemoryDescriptors_def
    by (subst IterateMemoryDescriptors_from.simps) simp
qed

lemma descriptors_of_length: "length (descriptors_of m) = descriptor_count m"
  by (simp add: descriptors_of_def)

lemma descriptors_of_nth:
  "k < descriptor_count m \<Longrightarrow> descriptors_of m ! k = map_m m + of_nat k * descriptor_size m"
  by (simp add: descriptors_of_def)

text \<open>
  A cursor that wraps around: with a stride of \<open>2^63\<close> bytes the cursor takes two values
  in turn.
\<close>

lemma half_space_orbit:
  "(0x1000 :: u64) + of_nat k * 0x8000000000000000
     = (if even k then 0x1000 else 0x8000000000001000)"
proof (induction k)
  case 0
  show ?case by simp
next
  case (Suc k)
  have step: "(0x1000 :: u64) + of_nat (Suc k) * 0x8000000000000000
      = (0x1000 + of_nat k * 0x8000000000000000) + 0x8000000000000000"
    by (simp add: algebra_simps)
  have a: "(0x1000 :: u64) + 0x8000000000000000 = 0x8000000000001000" by simp
  have b: "(0x8000000000001000 :: u64) + 0x8000000000000000 = 0x1000" by simp
  show ?case
  proof (cases "even k")
    case True
    with Suc.IH show ?thesis by (simp only: step a) simp
  next
    case False
    with Suc.IH show ?thesis by (simp only: step b) simp
  qed
qed

lemma half_space_diverges:
  "IterateMemoryDescriptors
     \<lparr>map_m = 0x1000, size_m = 0xFFFFFFFFFFFFEFFF, descriptor_size = 0x8000000000000000\<rparr>
     callback s = None"
proof (rule IterateMemoryDescriptors_diverges, rule allI)
  fix k
  have "(0x1000 :: u64) < 0xFFFFFFFFFFFFFFFF" "(0x8000000000001000 :: u64) < 0xFFFFFFFFFFFFFFFF"
    by simp_all
  then show "map_m \<lparr>map_m = 0x1000, size_m = 0xFFFFFFFFFFFFEFFF, descriptor_size = 0x8000000000000000\<rparr>
      + of_nat k * descriptor_size \<lparr>map_m = 0x1000, size_m = 0xFFFFFFFFFFFFEFFF, descriptor_size = 0x8000000000000000\<rparr>
      < uefi_next_memory_descriptor
          (map_m \<lparr>map_m = 0x1000, size_m = 0xFFFFFFFFFFFFEFFF, descriptor_size = 0x8000000000000000\<rparr>)
          (size_m \<lparr>map_m = 0x1000, size_m = 0xFFFFFFFFFFFFEFFF, descriptor_size = 0x8000000000000000\<rparr>)"
    by (simp add: half_space_orbit uefi_next_memory_descriptor_def)
qed

subsection \<open>Claims about the memory map reader\<close>

text \<open>
  Claim C3, as amended. For every memory map whose declared stride is at least the
  minimum descriptor size and whose buffer, rounded up to a whole number of strides,
  lies inside the 64-bit address space, \<open>IterateMemoryDescriptors\<close> returns, having called
  the callback on exactly the descriptor pointers \<open>map + k * stride\<close>, in increasing order
  of \<open>k\<close>: it advances by the declared stride. It visits \<open>\<lceil>size / stride\<rceil>\<close> descriptors,
  each of which starts below \<open>map + size\<close>. When the total size is a multiple of the
  stride, that number is \<open>size / stride\<close> and every visited descriptor lies entirely inside
  the buffer.
  (The claim as stated fails in two ways. When the size is not a multiple of the stride,
  the loop visits one more descriptor than \<open>size / stride\<close>, and that one extends past the
  end of the buffer. When \<open>map + size\<close> exceeds the address space, the end bound wraps
  around and the loop visits other descriptors, or none.)
\<close>

theorem IterateMemoryDescriptors_honours_stride:
  assumes "sizeof_memory_descriptor \<le> descriptor_size m" and "map_in_address_space m"
  shows "IterateMemoryDescriptors m callback s = Some (fold callback (descriptors_of m) s)
    \<and> length (descriptors_of m)
        = (unat (size_m m) + unat (descriptor_size m) - 1) div unat (descriptor_size m)
    \<and> (\<forall>k < length (descriptors_of m).
          descriptors_of m ! k = map_m m + of_nat k * descriptor_size m
          \<and> unat (descriptors_of m ! k) = unat (map_m m) + k * unat (descriptor_size m)
          \<and> unat (descriptors_of m ! k) < unat (map_m m) + unat (size_m m))
    \<and> (unat (descriptor_size m) dvd unat (size_m m) \<longrightarrow>
          length (descriptors_of m) = unat (size_m m) div unat (descriptor_size m)
          \<and> (\<forall>k < length (descriptors_of m).
                unat (descriptors_of m ! k) + unat (descriptor_size m)
                  \<le> unat (map_m m) + unat (size_m m)))"
proof -
  from assms(1) have "40 \<le> unat (descriptor_size m)"
    by (simp add: sizeof_memory_descriptor_def word_le_nat_alt)
  then have pos: "0 < unat (descriptor_size m)" by simp
  then have wpos: "0 < descriptor_size m" by (simp add: word_less_nat_alt)
  have a: "IterateMemoryDescriptors m callback s = Some (fold callback (descriptors_of m) s)"
    using wpos assms(2) by (rule IterateMemoryDescriptors_visits)
  have b: "length (descriptors_of m)
        = (unat (size_m m) + unat (descriptor_size m) - 1) div unat (descriptor_size m)"
    by (simp add: descriptors_of_length descriptor_count_def)
  have c: "descriptors_of m ! k = map_m m + of_nat k * descriptor_size m
      \<and> unat (descriptors_of m ! k) = unat (map_m m) + k * unat (descriptor_size m)
      \<and> unat (descriptors_of m ! k) < unat (map_m m) + unat (size_m m)"
    if "k < length (descriptors_of m)" for k
  proof -
    from that have k: "k < descriptor_count m" by (simp add: descriptors_of_length)
    then have kle: "k \<le> descriptor_count m" by simp
    from descriptor_count_bound [OF pos k] descriptor_unat [OF assms(2) kle] k
    show ?thesis by (simp add: descriptors_of_nth)
  qed
  have d: "length (descriptors_of m) = unat (size_m m) div unat (descriptor_size m)
      \<and> (\<forall>k < length (descriptors_of m).
            unat (descriptors_of m ! k) + unat (descriptor_size m)
              \<le> unat (map_m m) + unat (size_m m))"
    if dv: "unat (descriptor_size m) dvd unat (size_m m)"
  proof (intro conjI allI impI)
    show "length (descriptors_of m) = unat (size_m m) div unat (descriptor_size m)"
      using pos dv by (simp add: descriptors_of_length descriptor_count_dvd)
  next
    fix k assume "k < length (descriptors_of m)"
    then have k: "k < descriptor_count m" by (simp add: descriptors_of_length)
    then have kle: "k \<le> descriptor_count m" by simp
    from descriptor_inside_dvd [OF pos dv k] descriptor_unat [OF assms(2) kle] k
    show "unat (descriptors_of m ! k) + unat (descriptor_size m)
        \<le> unat (map_m m) + unat (size_m m)"
      by (simp add: descriptors_of_nth)
  qed
  from a b c d show ?thesis by blast
qed

theorem IterateMemoryDescriptors_honours_stride_witness:
  "sizeof_memory_descriptor \<le> descriptor_size \<lparr>map_m = 0x1000, size_m = 96, descriptor_size = 48\<rparr>
   \<and> map_in_address_space \<lparr>map_m = 0x1000, size_m = 96, descriptor_size = 48\<rparr>
   \<and> unat (descriptor_size \<lparr>map_m = 0x1000, size_m = 96, descriptor_size = 48\<rparr>) dvd
       unat (size_m \<lparr>map_m = 0x1000, size_m = 96, descriptor_size = 48\<rparr>)
   \<and> IterateMemoryDescriptors \<lparr>map_m = 0x1000, size_m = 96, descriptor_size = 48\<rparr> record_visit []
       = Some [0x1000, 0x1030]
   \<and> length (descriptors_of \<lparr>map_m = 0x1000, size_m = 96, descriptor_size = 48\<rparr>) = 96 div 48"
proof -
  let ?m = "\<lparr>map_m = 0x1000, size_m = 96, descriptor_size = 48\<rparr> :: MemoryMap"
  have h: "sizeof_memory_descriptor \<le> descriptor_size ?m"
    by (simp add: sizeof_memory_descriptor_def)
  have f: "map_in_address_space ?m"
    by (simp add: map_in_address_space_def descriptor_count_def)
  have dv: "unat (descriptor_size ?m) dvd unat (size_m ?m)" by simp
  have ds: "descriptors_of ?m = [0x1000, 0x1030]"
    by (simp add: descriptors_of_def descriptor_count_def upt_rec)
  from IterateMemoryDescriptors_honours_stride [OF h f, of record_visit "[]"] dv
  have "IterateMemoryDescriptors ?m record_visit [] = Some (fold record_visit (descriptors_of ?m) [])"
    and "length (descriptors_of ?m) = unat (size_m ?m) div unat (descriptor_size ?m)"
    by blast+
  with h f dv ds show ?thesis by (simp add: record_visit_def)
qed

text \<open>
  A stride of 48 bytes and a total size of 100 bytes: three descriptors are visited, not
  \<open>100 div 48 = 2\<close>, and the third one ends past the buffer. A buffer at \<open>0x1000\<close> of
  \<open>0xFFFFFFFFFFFFF800\<close> bytes with a stride of \<open>2^63\<close> bytes: the end bound wraps around to
  \<open>0x800\<close> and no descriptor is visited, not \<open>size div stride = 1\<close>.
\<close>

theorem IterateMemoryDescriptors_count_counterexample:
  "sizeof_memory_descriptor \<le> descriptor_size \<lparr>map_m = 0x1000, size_m = 100, descriptor_size = 48\<rparr>
   \<and> IterateMemoryDescriptors \<lparr>map_m = 0x1000, size_m = 100, descriptor_size = 48\<rparr> record_visit []
       = Some [0x1000, 0x1030, 0x1060]
   \<and> length [0x1000, 0x1030, 0x1060 :: u64]
       \<noteq> unat (size_m \<lparr>map_m = 0x1000, size_m = 100, descriptor_size = 48\<rparr>)
         div unat (descriptor_size \<lparr>map_m = 0x1000, size_m = 100, descriptor_size = 48\<rparr>)
   \<and> unat (map_m \<lparr>map_m = 0x1000, size_m = 100, descriptor_size = 48\<rparr>)
       + unat (size_m \<lparr>map_m = 0x1000, size_m = 100, descriptor_size = 48\<rparr>)
       < unat (0x1060 :: u64)
         + unat (descriptor_size \<lparr>map_m = 0x1000, size_m = 100, descriptor_size = 48\<rparr>)
   \<and> sizeof_memory_descriptor
       \<le> descriptor_size
           \<lparr>map_m = 0x1000, size_m = 0xFFFFFFFFFFFFF800, descriptor_size = 0x8000000000000000\<rparr>
   \<and> IterateMemoryDescriptors
         \<lparr>map_m = 0x1000, size_m = 0xFFFFFFFFFFFFF800, descriptor_size = 0x8000000000000000\<rparr>
         record_visit []
       = Some []
   \<and> unat (size_m
         \<lparr>map_m = 0x1000, size_m = 0xFFFFFFFFFFFFF800, descriptor_size = 0x8000000000000000\<rparr>)
       div unat (descriptor_size
         \<lparr>map_m = 0x1000, size_m = 0xFFFFFFFFFFFFF800, descriptor_size = 0x8000000000000000\<rparr>)
       = 1"
proof -
  have a: "IterateMemoryDescriptors \<lparr>map_m = 0x1000, size_m = 100, descriptor_size = 48\<rparr>
        record_visit []
       = Some [0x1000, 0x1030, 0x1060]"
    by code_simp
  have b: "IterateMemoryDescriptors
         \<lparr>map_m = 0x1000, size_m = 0xFFFFFFFFFFFFF800, descriptor_size = 0x8000000000000000\<rparr>
         record_visit []
       = Some []"
    by code_simp
  from a b show ?thesis by (simp add: sizeof_memory_descriptor_def)
qed

text \<open>
  Claim C10, as amended. With a positive stride and a buffer that, rounded up to a whole
  number of strides, lies inside the 64-bit address space, the loop returns after
  \<open>\<lceil>size / stride\<rceil>\<close> calls of the callback, the cursor growing by the stride from one call
  to the next. With a stride of zero the loop never returns when its condition holds at
  entry, as it does for every buffer inside the address space that is not empty, and
  returns at once, without any call, otherwise. An empty buffer (\<open>size = 0\<close>) makes the loop
  return at once whatever the stride. So the loop returns for every buffer inside the
  address space exactly when the stride is positive.
  (The claim as stated fails in two ways. With a positive stride the loop need not
  terminate: when the cursor wraps around before it reaches the end bound, the loop goes
  on. With a stride of zero the loop does terminate for the empty map.)
\<close>

theorem IterateMemoryDescriptors_termination:
  "(0 < descriptor_size m \<and> map_in_address_space m \<longrightarrow>
      IterateMemoryDescriptors m callback s = Some (fold callback (descriptors_of m) s)
      \<and> length (descriptors_of m)
          = (unat (size_m m) + unat (descriptor_size m) - 1) div unat (descriptor_size m)
      \<and> (\<forall>k. Suc k < length (descriptors_of m) \<longrightarrow>
            unat (descriptors_of m ! Suc k)
              = unat (descriptors_of m ! k) + unat (descriptor_size m)))
   \<and> (descriptor_size m = 0 \<longrightarrow>
        IterateMemoryDescriptors m callback s =
          (if map_m m < uefi_next_memory_descriptor (map_m m) (size_m m) then None else Some s))
   \<and> (descriptor_size m = 0 \<and> size_m m \<noteq> 0 \<and> map_in_address_space m \<longrightarrow>
        IterateMemoryDescriptors m callback s = None)
   \<and> (size_m m = 0 \<longrightarrow> IterateMemoryDescriptors m callback s = Some s)
   \<and> ((\<forall>p n. map_in_address_space \<lparr>map_m = p, size_m = n, descriptor_size = d\<rparr> \<longrightarrow>
            IterateMemoryDescriptors \<lparr>map_m = p, size_m = n, descriptor_size = d\<rparr> callback s
              \<noteq> None) = (0 < d))"
proof (intro conjI impI allI)
  assume "0 < descriptor_size m \<and> map_in_address_space m"
  then show "IterateMemoryDescriptors m callback s = Some (fold callback (descriptors_of m) s)"
    by (simp add: IterateMemoryDescriptors_visits)
next
  show "length (descriptors_of m)
      = (unat (size_m m) + unat (descriptor_size m) - 1) div unat (descriptor_size m)"
    by (simp add: descriptors_of_length descriptor_count_def)
next
  fix k
  assume h: "0 < descriptor_size m \<and> map_in_address_space m"
    and "Suc k < length (descriptors_of m)"
  then have k: "Suc k < descriptor_count m" by (simp add: descriptors_of_length)
  then have "k \<le> descriptor_count m" "Suc k \<le> descriptor_count m" "k < descriptor_count m"
    by simp_all
  with h show "unat (descriptors_of m ! Suc k)
      = unat (descriptors_of m ! k) + unat (descriptor_size m)"
    using k by (simp add: descriptors_of_nth descriptor_unat del: of_nat_Suc)
next
  assume "descriptor_size m = 0"
  then show "IterateMemoryDescriptors m callback s =
      (if map_m m < uefi_next_memory_descriptor (map_m m) (size_m m) then None else Some s)"
    by (rule IterateMemoryDescriptors_zero_stride)
next
  assume "descriptor_size m = 0 \<and> size_m m \<noteq> 0 \<and> map_in_address_space m"
  then show "IterateMemoryDescriptors m callback s = None"
    by (simp add: IterateMemoryDescriptors_zero_stride buffer_not_empty)
next
  assume "size_m m = 0"
  then show "IterateMemoryDescriptors m callback s = Some s"
    by (rule IterateMemoryDescriptors_empty)
next
  show "(\<forall>p n. map_in_address_space \<lparr>map_m = p, size_m = n, descriptor_size = d\<rparr> \<longrightarrow>
            IterateMemoryDescriptors \<lparr>map_m = p, size_m = n, descriptor_size = d\<rparr> callback s
              \<noteq> None) = (0 < d)"
  proof
    assume total: "\<forall>p n. map_in_address_space \<lparr>map_m = p, size_m = n, descriptor_size = d\<rparr> \<longrightarrow>
      IterateMemoryDescriptors \<lparr>map_m = p, size_m = n, descriptor_size = d\<rparr> callback s \<noteq> None"
    show "0 < d"
    proof (rule ccontr)
      assume "\<not> 0 < d"
      then have d: "d = 0" using word_neq_0_conv [of d] by blast
      have f: "map_in_address_space \<lparr>map_m = 0, size_m = 1, descriptor_size = d\<rparr>"
        by (simp add: map_in_address_space_def descriptor_count_def d)
      have "IterateMemoryDescriptors \<lparr>map_m = 0, size_m = 1, descriptor_size = d\<rparr> callback s
          = None"
        by (simp add: IterateMemoryDescriptors_zero_stride d uefi_next_memory_descriptor_def)
      with total f show False by blast
    qed
  next
    assume "0 < d"
    then show "\<forall>p n. map_in_address_space \<lparr>map_m = p, size_m = n, descriptor_size = d\<rparr> \<longrightarrow>
      IterateMemoryDescriptors \<lparr>map_m = p, size_m = n, descriptor_size = d\<rparr> callback s \<noteq> None"
      by (simp add: IterateMemoryDescriptors_visits)
  qed
qed

theorem IterateMemoryDescriptors_termination_witness:
  "0 < descriptor_size \<lparr>map_m = 0x1000, size_m = 100, descriptor_size = 48\<rparr>
   \<and> map_in_address_space \<lparr>map_m = 0x1000, size_m = 100, descriptor_size = 48\<rparr>
   \<and> IterateMemoryDescriptors \<lparr>map_m = 0x1000, size_m = 100, descriptor_size = 48\<rparr> record_visit []
     = Some [0x1000, 0x1030, 0x1060]
   \<and> map_in_address_space \<lparr>map_m = 0x1000, size_m = 16, descriptor_size = 0\<rparr>
   \<and> IterateMemoryDescriptors \<lparr>map_m = 0x1000, size_m = 16, descriptor_size = 0\<rparr> record_visit []
     = None
   \<and> IterateMemoryDescriptors \<lparr>map_m = 0x1000, size_m = 0, descriptor_size = 0\<rparr> record_visit [7]
     = Some [7]"
proof -
  let ?m = "\<lparr>map_m = 0x1000, size_m = 100, descriptor_size = 48\<rparr> :: MemoryMap"
  let ?z = "\<lparr>map_m = 0x1000, size_m = 16, descriptor_size = 0\<rparr> :: MemoryMap"
  let ?e = "\<lparr>map_m = 0x1000, size_m = 0, descriptor_size = 0\<rparr> :: MemoryMap"
  have f: "map_in_address_space ?m"
    by (simp add: map_in_address_space_def descriptor_count_def)
  have fz: "map_in_address_space ?z"
    by (simp add: map_in_address_space_def descriptor_count_def)
  have ds: "descriptors_of ?m = [0x1000, 0x1030, 0x1060]"
    by (simp add: descriptors_of_def descriptor_count_def upt_rec)
  have pa: "0 < descriptor_size ?m \<and> map_in_address_space ?m"
    using f by simp
  have pz: "descriptor_size ?z = 0 \<and> size_m ?z \<noteq> 0 \<and> map_in_address_space ?z"
    using fz by simp
  have pe: "size_m ?e = 0" by simp
  from IterateMemoryDescriptors_termination
    [of ?m record_visit "[]", THEN conjunct1, THEN mp, OF pa, THEN conjunct1]
  have a: "IterateMemoryDescriptors ?m record_visit [] = Some [0x1000, 0x1030, 0x1060]"
    by (simp add: ds record_visit_def)
  from IterateMemoryDescriptors_termination
    [of ?z record_visit "[]", THEN conjunct2, THEN conjunct2, THEN conjunct1, THEN mp, OF pz]
  have b: "IterateMemoryDescriptors ?z record_visit [] = None" .
  from IterateMemoryDescriptors_termination
    [of ?e record_visit "[7]", THEN conjunct2, THEN conjunct2, THEN conjunct2, THEN conjunct1,
      THEN mp, OF pe]
  have c: "IterateMemoryDescriptors ?e record_visit [7] = Some [7]" .
  from f fz a b c show ?thesis by simp
qed

text \<open>
  A buffer at \<open>0x1000\<close> of \<open>0xFFFFFFFFFFFFEFFF\<close> bytes with the positive stride \<open>2^63\<close>: the
  cursor alternates between \<open>0x1000\<close> and \<open>0x8000000000001000\<close>, both below the end bound
  \<open>0xFFFFFFFFFFFFFFFF\<close>, and the loop never returns. An empty map with stride zero: the
  loop returns without a call.
\<close>

theorem IterateMemoryDescriptors_termination_counterexample:
  "0 < descriptor_size
         \<lparr>map_m = 0x1000, size_m = 0xFFFFFFFFFFFFEFFF, descriptor_size = 0x8000000000000000\<rparr>
   \<and> IterateMemoryDescriptors
         \<lparr>map_m = 0x1000, size_m = 0xFFFFFFFFFFFFEFFF, descriptor_size = 0x8000000000000000\<rparr>
         record_visit []
       = None
   \<and> descriptor_size \<lparr>map_m = 0x1000, size_m = 0, descriptor_size = 0\<rparr> = 0
   \<and> IterateMemoryDescriptors \<lparr>map_m = 0x1000, size_m = 0, descriptor_size = 0\<rparr> record_visit []
       = Some []"
proof -
  have "IterateMemoryDescriptors \<lparr>map_m = 0x1000, size_m = 0, descriptor_size = 0\<rparr> record_visit []
       = Some []"
    by code_simp
  then show ?thesis by (simp add: half_space_diverges)
qed

section \<open>Address-space construction\<close>

lemma trace_emit [simp]: "trace (emit ev s) = trace s @ [ev]"
  and memory_emit [simp]: "memory (emit ev s) = memory s"
  and leaf_emit [simp]: "leaf (emit ev s) = leaf s"
  by (simp_all add: emit_def)

lemma emit_as_update: "emit ev s = s\<lparr>trace := trace s @ [ev]\<rparr>"
  by (simp add: emit_def)

lemma fold_map_runtime_descriptor:
  "fold (map_runtime_descriptor L) ds s =
     s\<lparr>trace := trace s @ map map_event (runtime_descriptors L ds)\<rparr>"
  by (induction ds arbitrary: s)
     (simp_all add: map_runtime_descriptor_def map_event_def emit_def Let_def
        runtime_descriptors_def)

lemma build_address_space_run:
  "build_address_space P L loader_block s0 =
     map_option
       (\<lambda>visited. s0\<lparr>trace := trace s0 @ construction_events P loader_block
                          @ map map_event (runtime_descriptors L visited)
                          @ [Ev_writecr3_root]\<rparr>)
       (IterateMemoryDescriptors (memory_map loader_block) record_visit [])"
proof -
  have it: "IterateMemoryDescriptors (memory_map loader_block) (map_runtime_descriptor L) s =
      map_option (\<lambda>visited. fold (map_runtime_descriptor L) visited s)
        (IterateMemoryDescriptors (memory_map loader_block) record_visit [])" for s
    by (rule IterateMemoryDescriptors_fold)
  show ?thesis
  proof (cases "IterateMemoryDescriptors (memory_map loader_block) record_visit []")
    case None
    then show ?thesis by (simp add: build_address_space_def Let_def it)
  next
    case (Some visited)
    then show ?thesis
      by (simp add: build_address_space_def Let_def it fold_map_runtime_descriptor
          construction_events_def emit_def)
  qed
qed

text \<open>
  Claim C5. In the pass over the memory map (lines 99-103), \<open>MapPages\<close> is called once for
  each visited descriptor whose attribute has the runtime bit, with the descriptor's
  virtual start, physical start and page count, in the order of the iteration, and for
  no other descriptor; the region type plays no part. Nothing else changes. This holds
  of every run of the pass, for the descriptors that \<open>IterateMemoryDescriptors\<close> visits
  (the pass returns exactly when the iteration does). For a buffer with a positive
  stride that lies inside the 64-bit address space the pass returns, and the descriptors
  visited are those at \<open>map + k * stride\<close> below \<open>map + size\<close>.
\<close>

theorem runtime_descriptors_mapped:
  "IterateMemoryDescriptors m (map_runtime_descriptor L) s =
     map_option
       (\<lambda>visited. s\<lparr>trace := trace s @
          map (\<lambda>d. Ev_MapPages (virtual_start d) (physical_start d) (number_of_pages d))
            (filter (\<lambda>d. attribute d AND memory_runtime \<noteq> 0)
               (map (load_memory_descriptor L) visited))\<rparr>)
       (IterateMemoryDescriptors m record_visit [])
   \<and> (0 < descriptor_size m \<and> map_in_address_space m \<longrightarrow>
        IterateMemoryDescriptors m (map_runtime_descriptor L) s =
          Some (s\<lparr>trace := trace s @
            map (\<lambda>d. Ev_MapPages (virtual_start d) (physical_start d) (number_of_pages d))
              (filter (\<lambda>d. attribute d AND memory_runtime \<noteq> 0)
                 (map (load_memory_descriptor L) (descriptors_of m)))\<rparr>))"
proof -
  have ev: "map_event = (\<lambda>d. Ev_MapPages (virtual_start d) (physical_start d) (number_of_pages d))"
    by (rule ext) (simp add: map_event_def)
  have "IterateMemoryDescriptors m (map_runtime_descriptor L) s =
      map_option (\<lambda>visited. fold (map_runtime_descriptor L) visited s)
        (IterateMemoryDescriptors m record_visit [])"
    by (rule IterateMemoryDescriptors_fold)
  then have a: "IterateMemoryDescriptors m (map_runtime_descriptor L) s =
     map_option
       (\<lambda>visited. s\<lparr>trace := trace s @
          map (\<lambda>d. Ev_MapPages (virtual_start d) (physical_start d) (number_of_pages d))
            (filter (\<lambda>d. attribute d AND memory_runtime \<noteq> 0)
               (map (load_memory_descriptor L) visited))\<rparr>)
       (IterateMemoryDescriptors m record_visit [])"
    by (simp add: fold_map_runtime_descriptor runtime_descriptors_def ev)
  have b: "IterateMemoryDescriptors m (map_runtime_descriptor L) s =
          Some (s\<lparr>trace := trace s @
            map (\<lambda>d. Ev_MapPages (virtual_start d) (physical_start d) (number_of_pages d))
              (filter (\<lambda>d. attribute d AND memory_runtime \<noteq> 0)
                 (map (load_memory_descriptor L) (descriptors_of m)))\<rparr>)"
    if "0 < descriptor_size m \<and> map_in_address_space m"
    using that
    by (simp add: IterateMemoryDescriptors_visits fold_map_runtime_descriptor
        runtime_descriptors_def ev)
  from a b show ?thesis by blast
qed

theorem runtime_descriptors_mapped_witness:
  "0 < descriptor_size example_map \<and> map_in_address_space example_map
   \<and> IterateMemoryDescriptors example_map record_visit [] = Some [0x1000, 0x1030]
   \<and> map (load_memory_descriptor example_loads) [0x1000, 0x1030]
       = [example_runtime, example_conventional]
   \<and> map_option trace
        (IterateMemoryDescriptors example_map (map_runtime_descriptor example_loads)
           example_machine)
       = Some [Ev_MapPages 0x7F000000 0x7F000000 4]"
proof -
  have h: "0 < descriptor_size example_map \<and> map_in_address_space example_map"
    by (simp add: example_map_def map_in_address_space_def descriptor_count_def)
  have ds: "descriptors_of example_map = [0x1000, 0x1030]"
    by (simp add: descriptors_of_def descriptor_count_def example_map_def upt_rec)
  have v: "IterateMemoryDescriptors example_map record_visit [] = Some [0x1000, 0x1030]"
    using h ds by (simp add: IterateMemoryDescriptors_visits record_visit_def)
  have ld: "map (load_memory_descriptor example_loads) [0x1000, 0x1030]
       = [example_runtime, example_conventional]"
    by (simp add: example_loads_def)
  have fl: "filter (\<lambda>d. attribute d AND memory_runtime \<noteq> 0) [example_runtime, example_conventional]
      = [example_runtime]"
    by (simp add: example_runtime_def example_conventional_def memory_runtime_def)
  note r = runtime_descriptors_mapped
    [of example_map example_loads example_machine, THEN conjunct2, THEN mp, OF h]
  have "map_option trace
        (IterateMemoryDescriptors example_map (map_runtime_descriptor example_loads)
           example_machine)
       = Some [Ev_MapPages 0x7F000000 0x7F000000 4]"
    by (simp only: r ds ld fl) (simp add: example_machine_def example_runtime_def)
  with h v ld show ?thesis by simp
qed

text \<open>
  Claim C9, as amended. \<open>OsInitialize\<close> does not check the stride of the memory map. With
  a stride smaller than the minimum descriptor size it does not refuse: it iterates the
  buffer with that stride and, whenever the iteration returns, it has called \<open>MapPages\<close>
  for the descriptors with the runtime attribute among those it has read, and goes on to
  load the new root. For a positive stride and a buffer inside the 64-bit address space
  the iteration returns and has read the "descriptors" at \<open>map + k * stride\<close>; for a stride
  of zero and a buffer inside the address space that is not empty the run never leaves
  the iteration.
\<close>

theorem build_address_space_any_stride:
  assumes "descriptor_size (memory_map loader_block) < sizeof_memory_descriptor"
  shows "build_address_space P L loader_block s0 =
           map_option
             (\<lambda>visited. s0\<lparr>trace := trace s0 @ construction_events P loader_block
                                @ map map_event (runtime_descriptors L visited)
                                @ [Ev_writecr3_root]\<rparr>)
             (IterateMemoryDescriptors (memory_map loader_block) record_visit [])
       \<and> (0 < descriptor_size (memory_map loader_block)
            \<and> map_in_address_space (memory_map loader_block) \<longrightarrow>
            IterateMemoryDescriptors (memory_map loader_block) record_visit []
              = Some (descriptors_of (memory_map loader_block)))
       \<and> (descriptor_size (memory_map loader_block) = 0
            \<and> size_m (memory_map loader_block) \<noteq> 0
            \<and> map_in_address_space (memory_map loader_block) \<longrightarrow>
            build_address_space P L loader_block s0 = None)"
proof (intro conjI impI)
  show "build_address_space P L loader_block s0 =
           map_option
             (\<lambda>visited. s0\<lparr>trace := trace s0 @ construction_events P loader_block
                                @ map map_event (runtime_descriptors L visited)
                                @ [Ev_writecr3_root]\<rparr>)
             (IterateMemoryDescriptors (memory_map loader_block) record_visit [])"
    by (rule build_address_space_run)
next
  assume "0 < descriptor_size (memory_map loader_block)
            \<and> map_in_address_space (memory_map loader_block)"
  then show "IterateMemoryDescriptors (memory_map loader_block) record_visit []
              = Some (descriptors_of (memory_map loader_block))"
    by (simp add: IterateMemoryDescriptors_visits fold_record_visit)
next
  assume "descriptor_size (memory_map loader_block) = 0
            \<and> size_m (memory_map loader_block) \<noteq> 0
            \<and> map_in_address_space (memory_map loader_block)"
  then have "IterateMemoryDescriptors (memory_map loader_block) record_visit [] = None"
    by (simp add: IterateMemoryDescriptors_zero_stride buffer_not_empty)
  then show "build_address_space P L loader_block s0 = None"
    by (simp add: build_address_space_run)
qed

theorem build_address_space_any_stride_witness:
  "descriptor_size (memory_map (example_loader_block
      \<lparr>memory_map := \<lparr>map_m = 0x1000, size_m = 16, descriptor_size = 8\<rparr>\<rparr>))
     < sizeof_memory_descriptor
   \<and> map_in_address_space \<lparr>map_m = 0x1000, size_m = 16, descriptor_size = 8\<rparr>
   \<and> map_option trace
       (build_address_space example_platform example_loads
          (example_loader_block\<lparr>memory_map := \<lparr>map_m = 0x1000, size_m = 16, descriptor_size = 8\<rparr>\<rparr>)
          example_machine)
     = Some (construction_events example_platform example_loader_block
         @ [Ev_MapPages 0x7F000000 0x7F000000 4,
            Ev_MapPages 4 0x7F000000 0x800000000000000F,
            Ev_writecr3_root])
   \<and> map_in_address_space \<lparr>map_m = 0x1000, size_m = 16, descriptor_size = 0\<rparr>
   \<and> build_address_space example_platform example_loads
          (example_loader_block\<lparr>memory_map := \<lparr>map_m = 0x1000, size_m = 16, descriptor_size = 0\<rparr>\<rparr>)
          example_machine
     = None"
proof -
  let ?m = "\<lparr>map_m = 0x1000, size_m = 16, descriptor_size = 8\<rparr> :: MemoryMap"
  let ?z = "\<lparr>map_m = 0x1000, size_m = 16, descriptor_size = 0\<rparr> :: MemoryMap"
  let ?lb = "example_loader_block\<lparr>memory_map := ?m\<rparr>"
  let ?lz = "example_loader_block\<lparr>memory_map := ?z\<rparr>"
  have h: "descriptor_size (memory_map ?lb) < sizeof_memory_descriptor"
    by (simp add: sizeof_memory_descriptor_def)
  have hz: "descriptor_size (memory_map ?lz) < sizeof_memory_descriptor"
    by (simp add: sizeof_memory_descriptor_def)
  have f: "map_in_address_space ?m"
    by (simp add: map_in_address_space_def descriptor_count_def)
  have fz: "map_in_address_space ?z"
    by (simp add: map_in_address_space_def descriptor_count_def)
  have ds: "descriptors_of ?m = [0x1000, 0x1008]"
    by (simp add: descriptors_of_def descriptor_count_def upt_rec)
  have rt: "map map_event (runtime_descriptors example_loads [0x1000, 0x1008])
      = [Ev_MapPages 0x7F000000 0x7F000000 4, Ev_MapPages 4 0x7F000000 0x800000000000000F]"
    by (simp add: runtime_descriptors_def example_loads_def example_runtime_def
        example_stray_def memory_runtime_def map_event_def)
  have ce: "construction_events example_platform ?lb
      = construction_events example_platform example_loader_block"
    by (simp add: construction_events_def)
  note t = build_address_space_any_stride
    [OF h, of example_platform example_loads example_machine]
  note tz = build_address_space_any_stride
    [OF hz, of example_platform example_loads example_machine]
  have p: "0 < descriptor_size (memory_map ?lb) \<and> map_in_address_space (memory_map ?lb)"
    using f by simp
  have pz: "descriptor_size (memory_map ?lz) = 0 \<and> size_m (memory_map ?lz) \<noteq> 0
      \<and> map_in_address_space (memory_map ?lz)"
    using fz by simp
  have v: "IterateMemoryDescriptors (memory_map ?lb) record_visit []
      = Some (descriptors_of (memory_map ?lb))"
    by (rule t [THEN conjunct2, THEN conjunct1, THEN mp, OF p])
  have a: "map_option trace (build_address_space example_platform example_loads ?lb example_machine)
     = Some (construction_events example_platform example_loader_block
         @ [Ev_MapPages 0x7F000000 0x7F000000 4,
            Ev_MapPages 4 0x7F000000 0x800000000000000F,
            Ev_writecr3_root])"
    by (simp only: t [THEN conjunct1] v) (simp add: ds rt ce example_machine_def)
  have b: "build_address_space example_platform example_loads ?lz example_machine = None"
    by (rule tz [THEN conjunct2, THEN conjunct2, THEN mp, OF pz])
  from h f fz a b show ?thesis by simp
qed

text \<open>
  A map with a stride of 8 bytes, below the 40 bytes of a descriptor: the run does not
  stop. It reads "descriptors" at \<open>0x1000\<close> and \<open>0x1008\<close>, calls \<open>MapPages\<close> for both and
  loads the new root.
\<close>

theorem build_address_space_small_stride_counterexample:
  "descriptor_size \<lparr>map_m = 0x1000, size_m = 16, descriptor_size = 8\<rparr> < sizeof_memory_descriptor
   \<and> map_option trace
       (build_address_space example_platform example_loads
          (example_loader_block\<lparr>memory_map := \<lparr>map_m = 0x1000, size_m = 16, descriptor_size = 8\<rparr>\<rparr>)
          example_machine)
     = Some
        [Ev_gfx_Initialize \<lparr>frame_buffer = 0xC0000000, frame_buffer_size = 0x300000\<rparr>,
         Ev_serial_Initialize,
         Ev_ParseMadt 0x7FE00000,
         Ev_PagePool 0xFFFFFFFF90000000 0x400000 0x40,
         Ev_AllocatePhysical_root,
         Ev_MapPages 0xFFFFFFFF80000000 0x200000 5,
         Ev_MapPages 0xFFFFFFFF90000000 0x400000 0x40,
         Ev_MapPagesInRegion \<lparr>base = 0xFFFFFFFFA0000000, PageCount = 0x3000\<rparr> Slot_frame_buffer 0x3000,
         Ev_MapPagesInRegion \<lparr>base = 0xFFFFFFFFB0000000, PageCount = 0x10\<rparr> Slot_hpet 1,
         Ev_MapPagesInRegion \<lparr>base = 0xFFFFFFFFB0000000, PageCount = 0x10\<rparr> Slot_apic_io 1,
         Ev_MapPagesInRegion \<lparr>base = 0xFFFFFFFFB0000000, PageCount = 0x10\<rparr> Slot_apic_local 1,
         Ev_MapPages 0x7F000000 0x7F000000 4,
         Ev_MapPages 4 0x7F000000 0x800000000000000F,
         Ev_writecr3_root]"
proof -
  have "map_option trace
       (build_address_space example_platform example_loads
          (example_loader_block\<lparr>memory_map := \<lparr>map_m = 0x1000, size_m = 16, descriptor_size = 8\<rparr>\<rparr>)
          example_machine)
     = Some
        [Ev_gfx_Initialize \<lparr>frame_buffer = 0xC0000000, frame_buffer_size = 0x300000\<rparr>,
         Ev_serial_Initialize,
         Ev_ParseMadt 0x7FE00000,
         Ev_PagePool 0xFFFFFFFF90000000 0x400000 0x40,
         Ev_AllocatePhysical_root,
         Ev_MapPages 0xFFFFFFFF80000000 0x200000 5,
         Ev_MapPages 0xFFFFFFFF90000000 0x400000 0x40,
         Ev_MapPagesInRegion \<lparr>base = 0xFFFFFFFFA0000000, PageCount = 0x3000\<rparr> Slot_frame_buffer 0x3000,
         Ev_MapPagesInRegion \<lparr>base = 0xFFFFFFFFB0000000, PageCount = 0x10\<rparr> Slot_hpet 1,
         Ev_MapPagesInRegion \<lparr>base = 0xFFFFFFFFB0000000, PageCount = 0x10\<rparr> Slot_apic_io 1,
         Ev_MapPagesInRegion \<lparr>base = 0xFFFFFFFFB0000000, PageCount = 0x10\<rparr> Slot_apic_local 1,
         Ev_MapPages 0x7F000000 0x7F000000 4,
         Ev_MapPages 4 0x7F000000 0x800000000000000F,
         Ev_writecr3_root]"
    by code_simp
  then show ?thesis by (simp add: sizeof_memory_descriptor_def)
qed

section \<open>Image hardening\<close>

subsection \<open>The page loop\<close>

lemma state_of_simps [simp]: "state_of (Inr s) = s" "state_of (Inl (f, s)) = s"
  by (simp_all add: state_of_def)

lemma GetPresentPte_Inr:
  "GetPresentPte s va = Inr p \<longleftrightarrow>
     p = va div page_size \<and> (\<exists>e. leaf s (va div page_size) = Some e \<and> present e)"
  by (auto simp: GetPresentPte_def split: option.splits)

lemma GetPresentPte_emit [simp]: "GetPresentPte (emit ev s) va = GetPresentPte s va"
  by (simp add: GetPresentPte_def)

lemma store_writable_Some:
  "leaf s p = Some e \<Longrightarrow>
     store_writable p b s =
       s\<lparr>leaf := (leaf s)(p \<mapsto> e\<lparr>writable := b\<rparr>), trace := trace s @ [Ev_store_writable p b]\<rparr>"
  by (simp add: store_writable_def emit_def)

lemma write_protect_pages_visited:
  "pages_visited page end_v ps \<Longrightarrow> write_protect_pages page end_v s = Some (protect_list ps s)"
proof (induction ps arbitrary: page s)
  case Nil
  then show ?case by (subst write_protect_pages.simps) simp
next
  case (Cons p ps)
  then have lt: "page < end_v" and p: "p = page"
    and rest: "pages_visited (page + page_size) end_v ps"
    by simp_all
  show ?case
    using lt Cons.IH [OF rest] unfolding p
    by (subst write_protect_pages.simps) (simp split: sum.splits)
qed

lemma write_protect_pages_returns:
  assumes "write_protect_pages page end_v s = Some r"
  shows "\<exists>ps. protect_list ps s = r \<and> (\<forall>s'. r = Inr s' \<longrightarrow> pages_visited page end_v ps)"
  using assms
proof (induction rule: write_protect_pages.raw_induct[rotated 1, consumes 1])
  case (1 f page end_v s r)
  show ?case
  proof (cases "page < end_v")
    case False
    with 1(2) have "r = Inr s" by simp
    with False have "protect_list [] s = r \<and> (\<forall>s'. r = Inr s' \<longrightarrow> pages_visited page end_v [])"
      by simp
    then show ?thesis by blast
  next
    case True
    show ?thesis
    proof (cases "GetPresentPte (emit (Ev_GetPresentPte page) s) page")
      case (Inl e)
      with True 1(2) have "r = Inl (e, emit (Ev_GetPresentPte page) s)" by simp
      with Inl have "protect_list [page] s = r
          \<and> (\<forall>s'. r = Inr s' \<longrightarrow> pages_visited page end_v [page])"
        by simp
      then show ?thesis by blast
    next
      case (Inr pte)
      let ?s = "emit (Ev_TlbFlushAddress page)
                  (store_writable pte False (emit (Ev_GetPresentPte page) s))"
      from True Inr 1(2) have "f (page + page_size) end_v ?s = Some r" by simp
      from 1(1) [OF this] obtain ps where
        ps: "protect_list ps ?s = r" "\<forall>s'. r = Inr s' \<longrightarrow> pages_visited (page + page_size) end_v ps"
        by blast
      from ps Inr True have "protect_list (page # ps) s = r
          \<and> (\<forall>s'. r = Inr s' \<longrightarrow> pages_visited page end_v (page # ps))"
        by simp
      then show ?thesis by blast
    qed
  qed
qed

lemma protect_list_memory: "memory (state_of (protect_list ps s)) = memory s"
proof (induction ps arbitrary: s)
  case Nil
  show ?case by simp
next
  case (Cons page ps)
  show ?case
  proof (cases "GetPresentPte s page")
    case (Inl f)
    then show ?thesis by simp
  next
    case (Inr p)
    then obtain e where "leaf s p = Some e" by (auto simp: GetPresentPte_Inr)
    with Inr Cons.IH show ?thesis
      by (simp add: store_writable_def)
  qed
qed

lemma writable_cleared_refl: "writable_cleared f f"
  by (simp add: writable_cleared_def)

lemma writable_cleared_trans:
  assumes "writable_cleared f g" and "writable_cleared g h"
  shows "writable_cleared f h"
  unfolding writable_cleared_def
proof
  fix p
  from assms(1) have fg: "g p = f p \<or> (\<exists>e. f p = Some e \<and> present e \<and> g p = Some (e\<lparr>writable := False\<rparr>))"
    by (simp add: writable_cleared_def)
  from assms(2) have gh: "h p = g p \<or> (\<exists>e. g p = Some e \<and> present e \<and> h p = Some (e\<lparr>writable := False\<rparr>))"
    by (simp add: writable_cleared_def)
  from fg show "h p = f p \<or> (\<exists>e. f p = Some e \<and> present e \<and> h p = Some (e\<lparr>writable := False\<rparr>))"
  proof (elim disjE exE conjE)
    assume "g p = f p"
    with gh show ?thesis by simp
  next
    fix e assume e: "f p = Some e" "present e" "g p = Some (e\<lparr>writable := False\<rparr>)"
    from gh e(3) have "h p = Some (e\<lparr>writable := False\<rparr>)" by auto
    with e show ?thesis by simp
  qed
qed

lemma writable_cleared_store:
  assumes "leaf s p = Some e" and "present e"
  shows "writable_cleared (leaf s) (leaf (store_writable p False s))"
  using assms by (simp add: store_writable_Some writable_cleared_def)

lemma protect_list_leaf: "writable_cleared (leaf s) (leaf (state_of (protect_list ps s)))"
proof (induction ps arbitrary: s)
  case Nil
  show ?case by (simp add: writable_cleared_refl)
next
  case (Cons page ps)
  show ?case
  proof (cases "GetPresentPte s page")
    case (Inl f)
    then show ?thesis by (simp add: writable_cleared_refl)
  next
    case (Inr p)
    then obtain e where e: "leaf s p = Some e" "present e" by (auto simp: GetPresentPte_Inr)
    let ?s = "emit (Ev_TlbFlushAddress page)
                  (store_writable p False (emit (Ev_GetPresentPte page) s))"
    from e have "writable_cleared (leaf s) (leaf ?s)"
      using writable_cleared_store [of "emit (Ev_GetPresentPte page) s" p e] by simp
    moreover have "writable_cleared (leaf ?s) (leaf (state_of (protect_list ps ?s)))"
      by (rule Cons.IH)
    ultimately show ?thesis using Inr by (simp add: writable_cleared_trans)
  qed
qed

subsection \<open>Traces\<close>

lemma flush_next_append: "flush_next p tr \<Longrightarrow> flush_next p (tr @ tr')"
  by (induction p tr rule: flush_next.induct) simp_all

lemma flushed_each_append:
  "flushed_each tr \<Longrightarrow> flushed_each tr' \<Longrightarrow> flushed_each (tr @ tr')"
  by (induction tr rule: flushed_each.induct) (simp_all add: flush_next_append)

lemma flushed_each_page_events: "flushed_each (page_events page)"
  by (simp add: page_events_def)

lemma flushed_each_concat_page_events: "flushed_each (concat (map page_events ps))"
  by (induction ps) (simp_all add: flushed_each_append flushed_each_page_events)

lemma hardening_event_page_events: "list_all hardening_event (page_events page)"
  by (simp add: page_events_def)

lemma protect_list_Inr_trace:
  "protect_list ps s = Inr s' \<Longrightarrow> trace s' = trace s @ concat (map page_events ps)"
proof (induction ps arbitrary: s)
  case Nil
  then show ?case by simp
next
  case (Cons page ps)
  show ?case
  proof (cases "GetPresentPte s page")
    case (Inl f)
    with Cons.prems show ?thesis by simp
  next
    case (Inr p)
    then obtain e where e: "leaf s p = Some e" and p: "p = page div page_size"
      by (auto simp: GetPresentPte_Inr)
    let ?s = "emit (Ev_TlbFlushAddress page)
                  (store_writable p False (emit (Ev_GetPresentPte page) s))"
    from Cons.prems Inr have "protect_list ps ?s = Inr s'" by simp
    from Cons.IH [OF this] e p show ?thesis
      by (simp add: store_writable_def page_events_def)
  qed
qed

lemma protect_list_trace:
  "\<exists>tr. trace (state_of (protect_list ps s)) = trace s @ tr
        \<and> flushed_each tr \<and> list_all hardening_event tr"
proof (induction ps arbitrary: s)
  case Nil
  show ?case by simp
next
  case (Cons page ps)
  show ?case
  proof (cases "GetPresentPte s page")
    case (Inl f)
    then show ?thesis by simp
  next
    case (Inr p)
    then obtain e where e: "leaf s p = Some e" and p: "p = page div page_size"
      by (auto simp: GetPresentPte_Inr)
    let ?s = "emit (Ev_TlbFlushAddress page)
                  (store_writable p False (emit (Ev_GetPresentPte page) s))"
    from Cons.IH [of ?s] obtain tr where
      tr: "trace (state_of (protect_list ps ?s)) = trace ?s @ tr" "flushed_each tr"
        "list_all hardening_event tr"
      by blast
    have s: "trace ?s = trace s @ page_events page"
      using e p by (simp add: store_writable_def page_events_def)
    have "trace (state_of (protect_list (page # ps) s)) = trace s @ (page_events page @ tr)"
      using Inr tr(1) s by simp
    moreover have "flushed_each (page_events page @ tr)"
      using tr(2) by (simp add: flushed_each_append flushed_each_page_events)
    moreover have "list_all hardening_event (page_events page @ tr)"
      using tr(3) by (simp add: hardening_event_page_events)
    ultimately show ?thesis by blast
  qed
qed

subsection \<open>What a run of the hardening pass can change\<close>

lemma hardened_from_refl: "hardened_from s s"
  by (simp add: hardened_from_def writable_cleared_refl)

lemma hardened_from_trans:
  assumes "hardened_from s t" and "hardened_from t u"
  shows "hardened_from s u"
proof -
  from assms obtain tr tr' where
    tr: "trace t = trace s @ tr" "flushed_each tr" "list_all hardening_event tr"
    and tr': "trace u = trace t @ tr'" "flushed_each tr'" "list_all hardening_event tr'"
    by (auto simp: hardened_from_def)
  have "trace u = trace s @ (tr @ tr')" using tr(1) tr'(1) by simp
  moreover have "flushed_each (tr @ tr')" using tr(2) tr'(2) by (rule flushed_each_append)
  moreover have "list_all hardening_event (tr @ tr')" using tr(3) tr'(3) by simp
  ultimately have "\<exists>x. trace u = trace s @ x \<and> flushed_each x \<and> list_all hardening_event x"
    by blast
  moreover have "writable_cleared (leaf s) (leaf u)"
    using assms by (auto simp: hardened_from_def intro: writable_cleared_trans)
  moreover have "\<forall>a. memory u a = memory s a \<or> memory u a = 0"
  proof
    fix a
    from assms have "memory t a = memory s a \<or> memory t a = 0"
      and "memory u a = memory t a \<or> memory u a = 0"
      by (simp_all add: hardened_from_def)
    then show "memory u a = memory s a \<or> memory u a = 0" by auto
  qed
  ultimately show ?thesis by (simp add: hardened_from_def)
qed

lemma hardened_from_Print: "hardened_from s (emit (Ev_Print m) s)"
proof -
  have "\<exists>tr. trace (emit (Ev_Print m) s) = trace s @ tr \<and> flushed_each tr
      \<and> list_all hardening_event tr"
    by (intro exI [of _ "[Ev_Print m]"]) simp
  then show ?thesis by (simp add: hardened_from_def writable_cleared_refl)
qed

lemma hardened_from_protect_list: "hardened_from s (state_of (protect_list ps s))"
  using protect_list_trace [of ps s] protect_list_leaf [of s ps] protect_list_memory [of ps s]
  by (simp add: hardened_from_def)

lemma hardened_from_memzero: "hardened_from s (memzero start n s)"
proof -
  have "flushed_each [Ev_memzero start n]" by simp
  then have "\<exists>tr. trace (memzero start n s) = trace s @ tr \<and> flushed_each tr
      \<and> list_all hardening_event tr"
    by (intro exI [of _ "[Ev_memzero start n]"]) (simp add: memzero_def)
  then show ?thesis by (simp add: hardened_from_def memzero_def writable_cleared_refl)
qed

lemma harden_section_hardened_from:
  assumes "harden_section P section s = Some r"
  shows "hardened_from s (state_of r)"
proof -
  let ?start = "base (kva_kernel P) + ucast (VirtualAddress section)"
  consider (disc) "Characteristics section AND IMAGE_SCN_MEM_DISCARDABLE \<noteq> 0"
    | (ro) "Characteristics section AND IMAGE_SCN_MEM_DISCARDABLE = 0"
        "Characteristics section AND IMAGE_SCN_MEM_WRITE = 0"
    | (rw) "Characteristics section AND IMAGE_SCN_MEM_DISCARDABLE = 0"
        "Characteristics section AND IMAGE_SCN_MEM_WRITE \<noteq> 0"
    by blast
  then show ?thesis
  proof cases
    case disc
    let ?s = "emit (Ev_Print (Msg_zeroing ?start (VirtualSize section))) s"
    from disc assms have r: "r = Inr (memzero ?start (VirtualSize section) ?s)"
      by (simp add: harden_section_def Let_def)
    have "hardened_from s ?s" by (rule hardened_from_Print)
    moreover have "hardened_from ?s (memzero ?start (VirtualSize section) ?s)"
      by (rule hardened_from_memzero)
    ultimately show ?thesis unfolding r by (simp add: hardened_from_trans)
  next
    case ro
    let ?s = "emit (Ev_Print (Msg_write_protecting ?start (?start + ucast (VirtualSize section)))) s"
    from ro assms have "write_protect_pages ?start (?start + ucast (VirtualSize section)) ?s = Some r"
      by (simp add: harden_section_def Let_def)
    from write_protect_pages_returns [OF this] obtain ps where "protect_list ps ?s = r"
      by blast
    then have "hardened_from ?s (state_of r)"
      using hardened_from_protect_list [of ?s ps] by simp
    moreover have "hardened_from s ?s" by (rule hardened_from_Print)
    ultimately show ?thesis by (blast intro: hardened_from_trans)
  next
    case rw
    with assms have "r = Inr s" by (simp add: harden_section_def)
    then show ?thesis by (simp add: hardened_from_refl)
  qed
qed

declare harden_sections.simps [simp del]

lemma harden_sections_hardened_from:
  "harden_sections P L kernel_nt i sec s = Some r \<Longrightarrow> hardened_from s (state_of r)"
proof (induction P L kernel_nt i sec s rule: harden_sections.induct)
  case (1 P L kernel_nt i sec s)
  show ?case
  proof (cases "i < NumberOfSections (FileHeader (load_nt_headers L (memory s) kernel_nt))")
    case False
    with "1.prems" have "r = Inr s" by (subst (asm) harden_sections.simps) simp
    then show ?thesis by (simp add: hardened_from_refl)
  next
    case True
    show ?thesis
    proof (cases "harden_section P (load_section_header L (memory s) sec) s")
      case None
      with True "1.prems" show ?thesis by (subst (asm) harden_sections.simps) simp
    next
      case (Some x)
      from harden_section_hardened_from [OF Some] have x: "hardened_from s (state_of x)" .
      show ?thesis
      proof (cases x)
        case (Inl h)
        with True Some "1.prems" have "r = x" by (subst (asm) harden_sections.simps) simp
        with x show ?thesis by simp
      next
        case (Inr s')
        with True Some "1.prems" have
          "harden_sections P L kernel_nt (i + 1) (sec + sizeof_IMAGE_SECTION_HEADER) s' = Some r"
          by (subst (asm) harden_sections.simps) simp
        from "1.IH" [OF True Some Inr this] x Inr show ?thesis
          by (auto intro: hardened_from_trans)
      qed
    qed
  qed
qed

lemma harden_image_hardened_from:
  "harden_image P L s = Some r \<Longrightarrow> hardened_from s (state_of r)"
  by (simp add: harden_image_def Let_def harden_sections_hardened_from)

subsection \<open>Claims about the order of steps and the permission edit\<close>

lemma initialize_devices_trace:
  "initialize_devices loader_block s = s\<lparr>trace := trace s @ device_events loader_block\<rparr>"
  by (simp add: initialize_devices_def device_events_def emit_def Let_def)

lemma list_all_not_member: "list_all hardening_event tr \<Longrightarrow> \<not> hardening_event ev \<Longrightarrow> ev \<notin> set tr"
  by (auto simp: list_all_iff)

text \<open>
  Claim C1. In every run of \<open>OsInitialize\<close> that comes to an end (by reaching \<open>Idle\<close> or by a
  fatal halt in the hardening pass) the trace is: the steps of lines 64-95, among them
  \<open>MapPages\<close> for the kernel image (\<open>kva::kernel.base\<close>, \<open>kernel.physical_base\<close>,
  \<open>kernel_pages\<close>) and \<open>MapPages\<close> for the page-table pool (\<open>kva::kernel_pt.base\<close>,
  \<open>pt_physical\<close>, \<open>pt_pages\<close>); the calls of \<open>MapPages\<close> for the runtime descriptors among
  those that the iteration over the memory map visits; then
  the one write of \<open>cr3\<close>; then device initialisation; then the steps of the hardening
  pass; and, when the pass has completed, \<open>unmask_interrupts\<close> followed by \<open>Idle\<close> as the
  last two steps. \<open>cr3\<close> is not written before the two ranges are mapped, and interrupts
  are not unmasked before the hardening pass has completed.
\<close>

theorem OsInitialize_order:
  assumes "OsInitialize P L loader_block s0 = Some r"
  shows "\<exists>visited hard.
     IterateMemoryDescriptors (memory_map loader_block) record_visit [] = Some visited
     \<and> trace (state_of r) =
       trace s0 @ construction_events P loader_block
         @ map map_event (runtime_descriptors L visited)
         @ [Ev_writecr3_root]
         @ device_events loader_block
         @ hard
         @ (case r of Inl h \<Rightarrow> [] | Inr s \<Rightarrow> [Ev_unmask_interrupts, Ev_Idle])
     \<and> list_all hardening_event hard
     \<and> Ev_MapPages (base (kva_kernel P)) (physical_base (kernel loader_block))
          (SizeToPages P (size_k (kernel loader_block))) \<in> set (construction_events P loader_block)
     \<and> Ev_MapPages (base (kva_kernel_pt P)) (page_tables_pool loader_block)
          (page_tables_pool_count loader_block) \<in> set (construction_events P loader_block)
     \<and> Ev_writecr3_root \<notin> set (construction_events P loader_block
          @ map map_event (runtime_descriptors L visited))
     \<and> Ev_unmask_interrupts \<notin> set (construction_events P loader_block
          @ map map_event (runtime_descriptors L visited)
          @ [Ev_writecr3_root] @ device_events loader_block @ hard)"
proof -
  let ?m = "memory_map loader_block"
  from assms obtain visited where
    visited: "IterateMemoryDescriptors ?m record_visit [] = Some visited"
    by (cases "IterateMemoryDescriptors ?m record_visit []")
       (simp_all add: OsInitialize_def build_address_space_run)
  let ?pre = "construction_events P loader_block @ map map_event (runtime_descriptors L visited)"
  let ?s1 = "s0\<lparr>trace := trace s0 @ ?pre @ [Ev_writecr3_root]\<rparr>"
  have b: "build_address_space P L loader_block s0 = Some ?s1"
    by (simp add: build_address_space_run visited)
  let ?s2 = "initialize_devices loader_block ?s1"
  have t2: "trace ?s2 = trace s0 @ ?pre @ [Ev_writecr3_root] @ device_events loader_block"
    by (simp add: initialize_devices_trace)
  from assms b obtain r' where r': "harden_image P L ?s2 = Some r'"
    and r: "r = (case r' of Inl h \<Rightarrow> Inl h
                 | Inr s' \<Rightarrow> Inr (emit Ev_Idle (emit Ev_unmask_interrupts s')))"
    by (auto simp: OsInitialize_def split: option.splits sum.splits)
  from harden_image_hardened_from [OF r'] obtain hard where
    hard: "trace (state_of r') = trace ?s2 @ hard" "list_all hardening_event hard"
    by (auto simp: hardened_from_def)
  have tr: "trace (state_of r) =
       trace s0 @ ?pre @ [Ev_writecr3_root] @ device_events loader_block @ hard
         @ (case r of Inl h \<Rightarrow> [] | Inr s \<Rightarrow> [Ev_unmask_interrupts, Ev_Idle])"
  proof (cases r')
    case (Inl h)
    with r hard(1) t2 show ?thesis by (cases h) simp
  next
    case (Inr s')
    with r hard(1) t2 show ?thesis by simp
  qed
  have m1: "Ev_MapPages (base (kva_kernel P)) (physical_base (kernel loader_block))
          (SizeToPages P (size_k (kernel loader_block))) \<in> set (construction_events P loader_block)"
    and m2: "Ev_MapPages (base (kva_kernel_pt P)) (page_tables_pool loader_block)
          (page_tables_pool_count loader_block) \<in> set (construction_events P loader_block)"
    by (simp_all add: construction_events_def)
  have c: "Ev_writecr3_root \<notin> set ?pre"
    by (auto simp: construction_events_def map_event_def)
  have "Ev_unmask_interrupts \<notin> set hard"
    using hard(2) by (rule list_all_not_member) simp
  then have u: "Ev_unmask_interrupts \<notin> set (?pre @ [Ev_writecr3_root]
      @ device_events loader_block @ hard)"
    by (auto simp: construction_events_def map_event_def device_events_def)
  from visited tr hard(2) m1 m2 c u show ?thesis
    by (intro exI [of _ visited] exI [of _ hard]) simp
qed

theorem OsInitialize_order_witness:
  "map_option (trace \<circ> state_of)
     (OsInitialize example_platform example_loads example_loader_block example_machine)
   = Some
      [Ev_gfx_Initialize \<lparr>frame_buffer = 0xC0000000, frame_buffer_size = 0x300000\<rparr>,
       Ev_serial_Initialize,
       Ev_ParseMadt 0x7FE00000,
       Ev_PagePool 0xFFFFFFFF90000000 0x400000 0x40,
       Ev_AllocatePhysical_root,
       Ev_MapPages 0xFFFFFFFF80000000 0x200000 5,
       Ev_MapPages 0xFFFFFFFF90000000 0x400000 0x40,
       Ev_MapPagesInRegion \<lparr>base = 0xFFFFFFFFA0000000, PageCount = 0x3000\<rparr> Slot_frame_buffer 0x3000,
       Ev_MapPagesInRegion \<lparr>base = 0xFFFFFFFFB0000000, PageCount = 0x10\<rparr> Slot_hpet 1,
       Ev_MapPagesInRegion \<lparr>base = 0xFFFFFFFFB0000000, PageCount = 0x10\<rparr> Slot_apic_io 1,
       Ev_MapPagesInRegion \<lparr>base = 0xFFFFFFFFB0000000, PageCount = 0x10\<rparr> Slot_apic_local 1,
       Ev_MapPages 0x7F000000 0x7F000000 4,
       Ev_writecr3_root,
       Ev_SetFrameBufferAddress, Ev_using_apic False, Ev_x64_Initialize, Ev_timer_Initialize,
       Ev_ps2_Initialize,
       Ev_Print (Msg_zeroing 0xFFFFFFFF80002000 0x2000),
       Ev_memzero 0xFFFFFFFF80002000 0x2000,
       Ev_Print (Msg_write_protecting 0xFFFFFFFF80001000 0xFFFFFFFF80002000),
       Ev_GetPresentPte 0xFFFFFFFF80001000,
       Ev_store_writable 0xFFFFFFFF80001 False,
       Ev_TlbFlushAddress 0xFFFFFFFF80001000,
       Ev_unmask_interrupts, Ev_Idle]
   \<and> (\<exists>r visited hard.
        OsInitialize example_platform example_loads example_loader_block example_machine = Some r
        \<and> IterateMemoryDescriptors (memory_map example_loader_block) record_visit [] = Some visited
        \<and> trace (state_of r) =
           trace example_machine @ construction_events example_platform example_loader_block
           @ map map_event (runtime_descriptors example_loads visited)
           @ [Ev_writecr3_root]
           @ device_events example_loader_block
           @ hard
           @ (case r of Inl h \<Rightarrow> [] | Inr s \<Rightarrow> [Ev_unmask_interrupts, Ev_Idle])
        \<and> list_all hardening_event hard)"
proof -
  have ev: "map_option (trace \<circ> state_of)
     (OsInitialize example_platform example_loads example_loader_block example_machine)
   = Some
      [Ev_gfx_Initialize \<lparr>frame_buffer = 0xC0000000, frame_buffer_size = 0x300000\<rparr>,
       Ev_serial_Initialize,
       Ev_ParseMadt 0x7FE00000,
       Ev_PagePool 0xFFFFFFFF90000000 0x400000 0x40,
       Ev_AllocatePhysical_root,
       Ev_MapPages 0xFFFFFFFF80000000 0x200000 5,
       Ev_MapPages 0xFFFFFFFF90000000 0x400000 0x40,
       Ev_MapPagesInRegion \<lparr>base = 0xFFFFFFFFA0000000, PageCount = 0x3000\<rparr> Slot_frame_buffer 0x3000,
       Ev_MapPagesInRegion \<lparr>base = 0xFFFFFFFFB0000000, PageCount = 0x10\<rparr> Slot_hpet 1,
       Ev_MapPagesInRegion \<lparr>base = 0xFFFFFFFFB0000000, PageCount = 0x10\<rparr> Slot_apic_io 1,
       Ev_MapPagesInRegion \<lparr>base = 0xFFFFFFFFB0000000, PageCount = 0x10\<rparr> Slot_apic_local 1,
       Ev_MapPages 0x7F000000 0x7F000000 4,
       Ev_writecr3_root,
       Ev_SetFrameBufferAddress, Ev_using_apic False, Ev_x64_Initialize, Ev_timer_Initialize,
       Ev_ps2_Initialize,
       Ev_Print (Msg_zeroing 0xFFFFFFFF80002000 0x2000),
       Ev_memzero 0xFFFFFFFF80002000 0x2000,
       Ev_Print (Msg_write_protecting 0xFFFFFFFF80001000 0xFFFFFFFF80002000),
       Ev_GetPresentPte 0xFFFFFFFF80001000,
       Ev_store_writable 0xFFFFFFFF80001 False,
       Ev_TlbFlushAddress 0xFFFFFFFF80001000,
       Ev_unmask_interrupts, Ev_Idle]"
    by code_simp
  then obtain r where
    r: "OsInitialize example_platform example_loads example_loader_block example_machine = Some r"
    by auto
  from OsInitialize_order [OF r] r ev show ?thesis by blast
qed

text \<open>
  Claim C6. The loop of lines 163-168 takes, for each page it visits and in this order,
  the steps \<open>GetPresentPte\<close>, store to \<open>writable\<close>, \<open>TlbFlushAddress\<close> of that page, and then
  turns to the next page. In the trace of the whole hardening pass every store to the
  writable bit of an entry is followed at once by the invalidation of that entry's page:
  no store is left to a later flush, whether the pass completes or halts.
\<close>

theorem write_protect_flushes_each_page:
  "(write_protect_pages page end_v s = Some (Inr s') \<longrightarrow>
      (\<exists>ps. pages_visited page end_v ps \<and> trace s' = trace s @ concat (map page_events ps)))
   \<and> (harden_image P L s = Some r \<longrightarrow>
      (\<exists>tr. trace (state_of r) = trace s @ tr \<and> flushed_each tr))"
proof (intro conjI impI)
  assume "write_protect_pages page end_v s = Some (Inr s')"
  from write_protect_pages_returns [OF this] obtain ps where
    "protect_list ps s = Inr s'" "pages_visited page end_v ps"
    by blast
  then show "\<exists>ps. pages_visited page end_v ps \<and> trace s' = trace s @ concat (map page_events ps)"
    using protect_list_Inr_trace by blast
next
  assume "harden_image P L s = Some r"
  from harden_image_hardened_from [OF this]
  show "\<exists>tr. trace (state_of r) = trace s @ tr \<and> flushed_each tr"
    by (auto simp: hardened_from_def)
qed

theorem write_protect_flushes_each_page_witness:
  "(\<exists>s' ps. write_protect_pages 0xFFFFFFFF80001000 0xFFFFFFFF80003000 example_machine = Some (Inr s')
       \<and> pages_visited 0xFFFFFFFF80001000 0xFFFFFFFF80003000 ps
       \<and> trace s' = trace example_machine @ concat (map page_events ps)
       \<and> trace s' =
           [Ev_GetPresentPte 0xFFFFFFFF80001000, Ev_store_writable 0xFFFFFFFF80001 False,
            Ev_TlbFlushAddress 0xFFFFFFFF80001000,
            Ev_GetPresentPte 0xFFFFFFFF80002000, Ev_store_writable 0xFFFFFFFF80002 False,
            Ev_TlbFlushAddress 0xFFFFFFFF80002000])
   \<and> (\<exists>r tr. harden_image example_platform example_loads example_machine = Some r
       \<and> trace (state_of r) = trace example_machine @ tr \<and> flushed_each tr
       \<and> trace (state_of r) =
           [Ev_Print (Msg_zeroing 0xFFFFFFFF80002000 0x2000),
            Ev_memzero 0xFFFFFFFF80002000 0x2000,
            Ev_Print (Msg_write_protecting 0xFFFFFFFF80001000 0xFFFFFFFF80002000),
            Ev_GetPresentPte 0xFFFFFFFF80001000,
            Ev_store_writable 0xFFFFFFFF80001 False,
            Ev_TlbFlushAddress 0xFFFFFFFF80001000])"
proof -
  have "(case write_protect_pages 0xFFFFFFFF80001000 0xFFFFFFFF80003000 example_machine of
           Some (Inr s') \<Rightarrow> trace s' =
             [Ev_GetPresentPte 0xFFFFFFFF80001000, Ev_store_writable 0xFFFFFFFF80001 False,
              Ev_TlbFlushAddress 0xFFFFFFFF80001000,
              Ev_GetPresentPte 0xFFFFFFFF80002000, Ev_store_writable 0xFFFFFFFF80002 False,
              Ev_TlbFlushAddress 0xFFFFFFFF80002000]
         | _ \<Rightarrow> False)"
    by code_simp
  then obtain s' where
    s': "write_protect_pages 0xFFFFFFFF80001000 0xFFFFFFFF80003000 example_machine = Some (Inr s')"
    and t: "trace s' =
             [Ev_GetPresentPte 0xFFFFFFFF80001000, Ev_store_writable 0xFFFFFFFF80001 False,
              Ev_TlbFlushAddress 0xFFFFFFFF80001000,
              Ev_GetPresentPte 0xFFFFFFFF80002000, Ev_store_writable 0xFFFFFFFF80002 False,
              Ev_TlbFlushAddress 0xFFFFFFFF80002000]"
    by (auto split: option.splits sum.splits)
  have ev: "map_option (trace \<circ> state_of)
      (harden_image example_platform example_loads example_machine) =
         Some [Ev_Print (Msg_zeroing 0xFFFFFFFF80002000 0x2000),
            Ev_memzero 0xFFFFFFFF80002000 0x2000,
            Ev_Print (Msg_write_protecting 0xFFFFFFFF80001000 0xFFFFFFFF80002000),
            Ev_GetPresentPte 0xFFFFFFFF80001000,
            Ev_store_writable 0xFFFFFFFF80001 False,
            Ev_TlbFlushAddress 0xFFFFFFFF80001000]"
    by code_simp
  then obtain r where
    r: "harden_image example_platform example_loads example_machine = Some r"
    by auto
  note thm1 = write_protect_flushes_each_page
    [of "0xFFFFFFFF80001000" "0xFFFFFFFF80003000" example_machine s'
        example_platform example_loads r]
  from thm1 s' t have a: "\<exists>s' ps.
       write_protect_pages 0xFFFFFFFF80001000 0xFFFFFFFF80003000 example_machine = Some (Inr s')
       \<and> pages_visited 0xFFFFFFFF80001000 0xFFFFFFFF80003000 ps
       \<and> trace s' = trace example_machine @ concat (map page_events ps)
       \<and> trace s' =
           [Ev_GetPresentPte 0xFFFFFFFF80001000, Ev_store_writable 0xFFFFFFFF80001 False,
            Ev_TlbFlushAddress 0xFFFFFFFF80001000,
            Ev_GetPresentPte 0xFFFFFFFF80002000, Ev_store_writable 0xFFFFFFFF80002 False,
            Ev_TlbFlushAddress 0xFFFFFFFF80002000]"
    by blast
  from thm1 r ev have b: "\<exists>r tr. harden_image example_platform example_loads example_machine = Some r
       \<and> trace (state_of r) = trace example_machine @ tr \<and> flushed_each tr
       \<and> trace (state_of r) =
           [Ev_Print (Msg_zeroing 0xFFFFFFFF80002000 0x2000),
            Ev_memzero 0xFFFFFFFF80002000 0x2000,
            Ev_Print (Msg_write_protecting 0xFFFFFFFF80001000 0xFFFFFFFF80002000),
            Ev_GetPresentPte 0xFFFFFFFF80001000,
            Ev_store_writable 0xFFFFFFFF80001 False,
            Ev_TlbFlushAddress 0xFFFFFFFF80001000]"
    by auto
  from a b show ?thesis by blast
qed

text \<open>
  Claim C7. The store of line 166 replaces the entry that \<open>GetPresentPte\<close> returned, a
  present entry, by the same entry with the writable bit cleared, and changes no other
  entry. So after the hardening pass every leaf entry is either what it was or what it
  was with the writable bit cleared: in the second case the entry was present and is
  present, and its physical target and its other bits are unchanged.
\<close>

theorem permission_edit_clears_only_writable:
  "(GetPresentPte s page = Inr p \<longrightarrow>
      (\<exists>e. leaf s p = Some e \<and> present e
         \<and> leaf (store_writable p False s) = (leaf s)(p \<mapsto> e\<lparr>writable := False\<rparr>)))
   \<and> (harden_image P L s = Some r \<longrightarrow>
      (\<forall>q. leaf (state_of r) q = leaf s q
         \<or> (\<exists>e e'. leaf s q = Some e \<and> leaf (state_of r) q = Some e'
               \<and> e' = e\<lparr>writable := False\<rparr>
               \<and> present e \<and> present e' \<and> \<not> writable e'
               \<and> physical_target e' = physical_target e \<and> other_bits e' = other_bits e)))"
proof (intro conjI impI allI)
  assume "GetPresentPte s page = Inr p"
  then obtain e where e: "leaf s p = Some e" "present e"
    by (auto simp: GetPresentPte_Inr)
  then have "leaf (store_writable p False s) = (leaf s)(p \<mapsto> e\<lparr>writable := False\<rparr>)"
    by (simp add: store_writable_Some)
  with e show "\<exists>e. leaf s p = Some e \<and> present e
         \<and> leaf (store_writable p False s) = (leaf s)(p \<mapsto> e\<lparr>writable := False\<rparr>)"
    by blast
next
  fix q
  assume "harden_image P L s = Some r"
  from harden_image_hardened_from [OF this]
  have "writable_cleared (leaf s) (leaf (state_of r))"
    by (simp add: hardened_from_def)
  then have "leaf (state_of r) q = leaf s q
      \<or> (\<exists>e. leaf s q = Some e \<and> present e \<and> leaf (state_of r) q = Some (e\<lparr>writable := False\<rparr>))"
    by (simp add: writable_cleared_def)
  then show "leaf (state_of r) q = leaf s q
         \<or> (\<exists>e e'. leaf s q = Some e \<and> leaf (state_of r) q = Some e'
               \<and> e' = e\<lparr>writable := False\<rparr>
               \<and> present e \<and> present e' \<and> \<not> writable e'
               \<and> physical_target e' = physical_target e \<and> other_bits e' = other_bits e)"
    by auto
qed

theorem permission_edit_clears_only_writable_witness:
  "leaf example_machine 0xFFFFFFFF80001 =
     Some \<lparr>present = True, writable = True, physical_target = 0x201000, other_bits = 0\<rparr>
   \<and> (\<exists>r. harden_image example_platform example_loads example_machine = Some r
        \<and> leaf (state_of r) 0xFFFFFFFF80001 =
            Some \<lparr>present = True, writable = False, physical_target = 0x201000, other_bits = 0\<rparr>
        \<and> (\<forall>q. leaf (state_of r) q = leaf example_machine q
             \<or> (\<exists>e e'. leaf example_machine q = Some e \<and> leaf (state_of r) q = Some e'
                   \<and> e' = e\<lparr>writable := False\<rparr>
                   \<and> present e \<and> present e' \<and> \<not> writable e'
                   \<and> physical_target e' = physical_target e \<and> other_bits e' = other_bits e)))
   \<and> (\<exists>p e. GetPresentPte example_machine 0xFFFFFFFF80001000 = Inr p
        \<and> leaf example_machine p = Some e \<and> present e
        \<and> leaf (store_writable p False example_machine)
            = (leaf example_machine)(p \<mapsto> e\<lparr>writable := False\<rparr>))"
proof -
  have l0: "leaf example_machine 0xFFFFFFFF80001 =
     Some \<lparr>present = True, writable = True, physical_target = 0x201000, other_bits = 0\<rparr>"
    by (simp add: example_machine_def)
  have ev: "map_option (\<lambda>r. leaf (state_of r) 0xFFFFFFFF80001)
      (harden_image example_platform example_loads example_machine) =
      Some (Some \<lparr>present = True, writable = False, physical_target = 0x201000, other_bits = 0\<rparr>)"
    by code_simp
  then obtain r where
    r: "harden_image example_platform example_loads example_machine = Some r"
    by auto
  have g: "GetPresentPte example_machine 0xFFFFFFFF80001000 = Inr 0xFFFFFFFF80001"
    by (simp add: GetPresentPte_def example_machine_def page_size_def)
  note thm1 = permission_edit_clears_only_writable
    [of example_machine "0xFFFFFFFF80001000" "0xFFFFFFFF80001"
        example_platform example_loads r]
  from thm1 r ev have a: "\<exists>r. harden_image example_platform example_loads example_machine = Some r
        \<and> leaf (state_of r) 0xFFFFFFFF80001 =
            Some \<lparr>present = True, writable = False, physical_target = 0x201000, other_bits = 0\<rparr>
        \<and> (\<forall>q. leaf (state_of r) q = leaf example_machine q
             \<or> (\<exists>e e'. leaf example_machine q = Some e \<and> leaf (state_of r) q = Some e'
                   \<and> e' = e\<lparr>writable := False\<rparr>
                   \<and> present e \<and> present e' \<and> \<not> writable e'
                   \<and> physical_target e' = physical_target e \<and> other_bits e' = other_bits e))"
    by auto
  from thm1 g have b: "\<exists>p e. GetPresentPte example_machine 0xFFFFFFFF80001000 = Inr p
        \<and> leaf example_machine p = Some e \<and> present e
        \<and> leaf (store_writable p False example_machine)
            = (leaf example_machine)(p \<mapsto> e\<lparr>writable := False\<rparr>)"
    by blast
  from l0 a b show ?thesis by blast
qed

subsection \<open>The pages of a section\<close>

lemma unat_page_size [simp]: "unat page_size = 4096"
  by (simp add: page_size_def)

lemma next_page_unat:
  fixes page end_v :: u64
  assumes "unat end_v + 4096 \<le> 2 ^ 64" and "page < end_v"
  shows "unat (page + page_size) = unat page + 4096"
proof -
  from assms(2) have lt: "unat page < unat end_v" by (simp add: word_less_nat_alt)
  with assms(1) have "unat page + unat page_size < 2 ^ LENGTH(64)" by simp
  then have "unat (page + page_size) = unat page + unat page_size"
    by (rule unat_add_lem [THEN iffD1])
  then show ?thesis by simp
qed

lemma page_list_step:
  fixes page :: u64
  shows "map (\<lambda>k. page + of_nat k * page_size) [0..<Suc c]
        = page # map (\<lambda>k. (page + page_size) + of_nat k * page_size) [0..<c]"
proof -
  have "page + of_nat (Suc k) * page_size = page + page_size + of_nat k * page_size" for k
    by (simp add: ring_distribs)
  then show ?thesis by (simp only: map_upt_Suc) simp
qed

lemma div_add_stride: "0 < d \<Longrightarrow> (x + d) div d = Suc (x div d)" for x d :: nat
  by (simp add: div_add_self2)

lemma ceil_div_step:
  fixes d x e :: nat
  assumes "0 < d" and "x < e"
  shows "(e - x + d - 1) div d = Suc ((e - (x + d) + d - 1) div d)"
proof -
  have "e - x + d - 1 = (e - x - 1) + d" using assms by simp
  moreover have "((e - x - 1) + d) div d = Suc ((e - x - 1) div d)"
    using assms(1) by (rule div_add_stride)
  ultimately have l: "(e - x + d - 1) div d = Suc ((e - x - 1) div d)"
    by (simp only:)
  have "(e - (x + d) + d - 1) div d = (e - x - 1) div d"
  proof (cases "x + d \<le> e")
    case True
    then have "e - (x + d) + d - 1 = e - x - 1" by simp
    then show ?thesis by simp
  next
    case False
    then have a: "e - (x + d) + d - 1 = d - 1" by simp
    have "e - x - 1 < d" using False assms by simp
    then have "(e - x - 1) div d = 0" by simp
    moreover have "(d - 1) div d = 0" using assms by simp
    ultimately show ?thesis using a by simp
  qed
  with l show ?thesis by simp
qed

lemma page_count_step:
  fixes x e :: nat
  assumes "x < e"
  shows "(e - x + 4095) div 4096 = Suc ((e - (x + 4096) + 4095) div 4096)"
proof -
  have a: "e - x + 4096 - 1 = e - x + 4095" by simp
  have b: "e - (x + 4096) + 4096 - 1 = e - (x + 4096) + 4095" by simp
  have "(e - x + 4096 - 1) div 4096 = Suc ((e - (x + 4096) + 4096 - 1) div 4096)"
    by (rule ceil_div_step) (simp_all add: assms)
  then show ?thesis unfolding a b .
qed

lemma pages_visited_range:
  assumes "unat end_v + 4096 \<le> 2 ^ 64"
  shows "pages_visited page end_v
     (map (\<lambda>k. page + of_nat k * page_size) [0..<(unat end_v - unat page + 4095) div 4096])"
proof (induction "unat end_v - unat page" arbitrary: page rule: less_induct)
  case less
  show ?case
  proof (cases "page < end_v")
    case False
    then have "unat end_v \<le> unat page" by (simp add: word_less_nat_alt)
    then have "(unat end_v - unat page + 4095) div 4096 = 0" by simp
    then have "map (\<lambda>k. page + of_nat k * page_size)
        [0..<(unat end_v - unat page + 4095) div 4096] = []"
      by (simp only: upt_0 list.map)
    with False show ?thesis by simp
  next
    case True
    then have lt: "unat page < unat end_v" by (simp add: word_less_nat_alt)
    have next_page: "unat (page + page_size) = unat page + 4096"
      using assms True by (rule next_page_unat)
    have cnt: "(unat end_v - unat page + 4095) div 4096
        = Suc ((unat end_v - (unat page + 4096) + 4095) div 4096)"
      using lt by (rule page_count_step)
    have "unat end_v - unat (page + page_size) < unat end_v - unat page"
      using lt next_page by simp
    from less.hyps [OF this]
    have rest: "pages_visited (page + page_size) end_v
        (map (\<lambda>k. (page + page_size) + of_nat k * page_size)
           [0..<(unat end_v - (unat page + 4096) + 4095) div 4096])"
      by (simp only: next_page)
    show ?thesis
      unfolding cnt page_list_step pages_visited.simps
      using True rest by blast
  qed
qed

lemma pages_visited_section_pages:
  fixes start :: u64 and n :: u32
  assumes "unat start + unat n + unat page_size \<le> 2 ^ 64"
  shows "pages_visited start (start + ucast n) (section_pages start n)"
proof -
  have "unat n < 2 ^ 32" using unsigned_less [of n] by simp
  then have "unat n < (2 :: nat) ^ 64" by (rule less_le_trans) simp
  then have un: "unat (ucast n :: u64) = unat n"
    by (simp add: unsigned_ucast_eq take_bit_nat_eq_self)
  from assms have "unat start + unat (ucast n :: u64) < 2 ^ LENGTH(64)" by (simp add: un)
  then have "unat (start + ucast n) = unat start + unat (ucast n :: u64)"
    by (rule unat_add_lem [THEN iffD1])
  then have e: "unat (start + ucast n) = unat start + unat n" by (simp only: un)
  with assms have "unat (start + ucast n) + 4096 \<le> 2 ^ 64" by simp
  from pages_visited_range [OF this, of start] show ?thesis
    by (simp add: e section_pages_def)
qed


lemma protect_list_present:
  assumes "\<forall>page \<in> set ps. \<exists>e. leaf s (page div page_size) = Some e \<and> present e"
  shows "protect_list ps s =
     Inr (s\<lparr>leaf := (\<lambda>q. if q \<in> (\<lambda>page. page div page_size) ` set ps
                         then map_option (\<lambda>e. e\<lparr>writable := False\<rparr>) (leaf s q)
                         else leaf s q),
            trace := trace s @ concat (map page_events ps)\<rparr>)"
  using assms
proof (induction ps arbitrary: s)
  case Nil
  show ?case by simp
next
  case (Cons page ps)
  let ?p = "page div page_size"
  from Cons.prems obtain e where e: "leaf s ?p = Some e" "present e" by auto
  then have g: "GetPresentPte s page = Inr ?p" by (simp add: GetPresentPte_Inr)
  let ?s = "emit (Ev_TlbFlushAddress page)
                  (store_writable ?p False (emit (Ev_GetPresentPte page) s))"
  have s: "?s = s\<lparr>leaf := (leaf s)(?p \<mapsto> e\<lparr>writable := False\<rparr>),
                  trace := trace s @ page_events page\<rparr>"
    using e by (simp add: store_writable_def emit_def page_events_def)
  have pres: "\<forall>q \<in> set ps. \<exists>e'. leaf ?s (q div page_size) = Some e' \<and> present e'"
    using Cons.prems e by (auto simp: s)
  have lf: "(\<lambda>q. if q \<in> (\<lambda>page. page div page_size) ` set ps
                 then map_option (\<lambda>e. e\<lparr>writable := False\<rparr>) (leaf ?s q)
                 else leaf ?s q)
      = (\<lambda>q. if q \<in> (\<lambda>page. page div page_size) ` set (page # ps)
                 then map_option (\<lambda>e. e\<lparr>writable := False\<rparr>) (leaf s q)
                 else leaf s q)"
    using e by (auto simp: s fun_eq_iff)
  have "protect_list (page # ps) s = protect_list ps ?s"
    using g by simp
  also have "\<dots> = Inr (?s\<lparr>leaf := (\<lambda>q. if q \<in> (\<lambda>page. page div page_size) ` set ps
                         then map_option (\<lambda>e. e\<lparr>writable := False\<rparr>) (leaf ?s q)
                         else leaf ?s q),
            trace := trace ?s @ concat (map page_events ps)\<rparr>)"
    by (rule Cons.IH [OF pres])
  also have "\<dots> = Inr (s\<lparr>leaf := (\<lambda>q. if q \<in> (\<lambda>page. page div page_size) ` set (page # ps)
                         then map_option (\<lambda>e. e\<lparr>writable := False\<rparr>) (leaf s q)
                         else leaf s q),
            trace := trace s @ concat (map page_events (page # ps))\<rparr>)"
    unfolding lf by (simp add: s)
  finally show ?case .
qed




subsection \<open>The three kinds of section\<close>

lemma harden_section_discardable:
  assumes "Characteristics section AND IMAGE_SCN_MEM_DISCARDABLE \<noteq> 0"
  shows "harden_section P section s =
     Some (Inr (memzero (base (kva_kernel P) + ucast (VirtualAddress section)) (VirtualSize section)
       (emit (Ev_Print (Msg_zeroing (base (kva_kernel P) + ucast (VirtualAddress section))
          (VirtualSize section))) s)))"
  using assms by (simp add: harden_section_def Let_def)

lemma harden_section_read_only:
  assumes "Characteristics section AND IMAGE_SCN_MEM_DISCARDABLE = 0"
    and "Characteristics section AND IMAGE_SCN_MEM_WRITE = 0"
  shows "harden_section P section s =
     write_protect_pages (base (kva_kernel P) + ucast (VirtualAddress section))
       (base (kva_kernel P) + ucast (VirtualAddress section) + ucast (VirtualSize section))
       (emit (Ev_Print (Msg_write_protecting (base (kva_kernel P) + ucast (VirtualAddress section))
          (base (kva_kernel P) + ucast (VirtualAddress section) + ucast (VirtualSize section)))) s)"
  using assms by (simp add: harden_section_def Let_def)

lemma harden_section_writable:
  assumes "Characteristics section AND IMAGE_SCN_MEM_DISCARDABLE = 0"
    and "Characteristics section AND IMAGE_SCN_MEM_WRITE \<noteq> 0"
  shows "harden_section P section s = Some (Inr s)"
  using assms by (simp add: harden_section_def)

lemma memory_memzero:
  "memory (memzero start n s) = (\<lambda>a. if a - start < ucast n then 0 else memory s a)"
  and leaf_memzero: "leaf (memzero start n s) = leaf s"
  by (simp_all add: memzero_def)





subsection \<open>The loop body applied to a list of section headers\<close>




subsection \<open>The section table is read from memory in every round\<close>

lemma harden_section_memory_outside:
  assumes "harden_section P sec s = Some r" and "sec \<in> set sections"
    and "a \<notin> discardable_bytes P sections"
  shows "memory (state_of r) a = memory s a"
proof -
  let ?start = "base (kva_kernel P) + ucast (VirtualAddress sec)"
  consider (disc) "Characteristics sec AND IMAGE_SCN_MEM_DISCARDABLE \<noteq> 0"
    | (ro) "Characteristics sec AND IMAGE_SCN_MEM_DISCARDABLE = 0"
        "Characteristics sec AND IMAGE_SCN_MEM_WRITE = 0"
    | (rw) "Characteristics sec AND IMAGE_SCN_MEM_DISCARDABLE = 0"
        "Characteristics sec AND IMAGE_SCN_MEM_WRITE \<noteq> 0"
    by blast
  then show ?thesis
  proof cases
    case disc
    with assms(2,3) have "\<not> a - ?start < ucast (VirtualSize sec)"
      by (auto simp: discardable_bytes_def)
    with disc assms(1) show ?thesis
      by (auto simp: harden_section_discardable memory_memzero)
  next
    case ro
    let ?s = "emit (Ev_Print (Msg_write_protecting ?start (?start + ucast (VirtualSize sec)))) s"
    from ro assms(1) have "write_protect_pages ?start (?start + ucast (VirtualSize sec)) ?s = Some r"
      by (simp add: harden_section_read_only)
    from write_protect_pages_returns [OF this] obtain ps where "protect_list ps ?s = r"
      by blast
    then show ?thesis using protect_list_memory [of ps ?s] by simp
  next
    case rw
    with assms(1) show ?thesis by (auto simp: harden_section_writable)
  qed
qed

lemma length_kernel_section_table:
  "length (kernel_section_table P L mem) =
     unat (NumberOfSections (FileHeader (load_nt_headers L mem
       (ImageNtHeaders L mem (base (kva_kernel P))))))"
  by (simp add: kernel_section_table_def Let_def)

lemma nth_kernel_section_table:
  "j < length (kernel_section_table P L mem) \<Longrightarrow>
     kernel_section_table P L mem ! j =
       load_section_header L mem
         (IMAGE_FIRST_SECTION L mem (ImageNtHeaders L mem (base (kva_kernel P)))
            + of_nat j * sizeof_IMAGE_SECTION_HEADER)"
  by (simp add: kernel_section_table_def Let_def)

lemma headers_keptD:
  assumes "headers_kept P L mem"
    and "\<forall>a. a \<notin> discardable_bytes P (kernel_section_table P L mem) \<longrightarrow> mem' a = mem a"
  shows "load_dos_header L mem' (base (kva_kernel P)) = load_dos_header L mem (base (kva_kernel P))"
    and "load_nt_headers L mem'
              (base (kva_kernel P) + scast (e_lfanew (load_dos_header L mem (base (kva_kernel P)))))
            = load_nt_headers L mem
              (base (kva_kernel P) + scast (e_lfanew (load_dos_header L mem (base (kva_kernel P)))))"
    and "load_nt_headers L mem' (ImageNtHeaders L mem (base (kva_kernel P)))
            = load_nt_headers L mem (ImageNtHeaders L mem (base (kva_kernel P)))"
    and "j < length (kernel_section_table P L mem) \<Longrightarrow>
           load_section_header L mem'
                (IMAGE_FIRST_SECTION L mem (ImageNtHeaders L mem (base (kva_kernel P)))
                   + of_nat j * sizeof_IMAGE_SECTION_HEADER)
           = kernel_section_table P L mem ! j"
proof -
  note k = assms(1) [unfolded headers_kept_def, rule_format, OF assms(2) [rule_format]]
  from k show "load_dos_header L mem' (base (kva_kernel P))
      = load_dos_header L mem (base (kva_kernel P))"
    by blast
  from k show "load_nt_headers L mem'
              (base (kva_kernel P) + scast (e_lfanew (load_dos_header L mem (base (kva_kernel P)))))
            = load_nt_headers L mem
              (base (kva_kernel P) + scast (e_lfanew (load_dos_header L mem (base (kva_kernel P)))))"
    by blast
  from k show "load_nt_headers L mem' (ImageNtHeaders L mem (base (kva_kernel P)))
            = load_nt_headers L mem (ImageNtHeaders L mem (base (kva_kernel P)))"
    by blast
  assume j: "j < length (kernel_section_table P L mem)"
  then have "j < unat (NumberOfSections (FileHeader (load_nt_headers L mem
       (ImageNtHeaders L mem (base (kva_kernel P))))))"
    by (simp add: length_kernel_section_table)
  with k have "load_section_header L mem'
                (IMAGE_FIRST_SECTION L mem (ImageNtHeaders L mem (base (kva_kernel P)))
                   + of_nat j * sizeof_IMAGE_SECTION_HEADER)
           = load_section_header L mem
                (IMAGE_FIRST_SECTION L mem (ImageNtHeaders L mem (base (kva_kernel P)))
                   + of_nat j * sizeof_IMAGE_SECTION_HEADER)"
    by blast
  with j show "load_section_header L mem'
                (IMAGE_FIRST_SECTION L mem (ImageNtHeaders L mem (base (kva_kernel P)))
                   + of_nat j * sizeof_IMAGE_SECTION_HEADER)
           = kernel_section_table P L mem ! j"
    by (simp add: nth_kernel_section_table)
qed

lemma section_index_less:
  fixes n :: u16
  assumes "j \<le> unat n"
  shows "(of_nat j < n) = (j < unat n)"
proof -
  have "unat n < 2 ^ 16" using unsigned_less [of n] by simp
  with assms have "j < 2 ^ LENGTH(16)" by simp
  then have "unat (of_nat j :: u16) = j" by (simp add: unat_of_nat)
  then show ?thesis by (simp add: word_less_nat_alt)
qed

lemma harden_sections_table:
  assumes kept: "headers_kept P L mem"
    and agree: "\<forall>a. a \<notin> discardable_bytes P (kernel_section_table P L mem) \<longrightarrow> memory s a = mem a"
    and j: "j \<le> length (kernel_section_table P L mem)"
  shows "harden_sections P L (ImageNtHeaders L mem (base (kva_kernel P))) (of_nat j)
           (IMAGE_FIRST_SECTION L mem (ImageNtHeaders L mem (base (kva_kernel P)))
              + of_nat j * sizeof_IMAGE_SECTION_HEADER) s
         = harden_list P (drop j (kernel_section_table P L mem)) s"
  using agree j
proof (induction "length (kernel_section_table P L mem) - j" arbitrary: j s rule: less_induct)
  case less
  let ?T = "kernel_section_table P L mem"
  let ?nt = "ImageNtHeaders L mem (base (kva_kernel P))"
  let ?first = "IMAGE_FIRST_SECTION L mem ?nt"
  let ?n = "NumberOfSections (FileHeader (load_nt_headers L mem ?nt))"
  have len: "length ?T = unat ?n" by (rule length_kernel_section_table)
  have nt: "load_nt_headers L (memory s) ?nt = load_nt_headers L mem ?nt"
    using kept less.prems(1) by (rule headers_keptD(3))
  have cond: "(of_nat j < ?n) = (j < length ?T)"
    using less.prems(2) by (simp add: len section_index_less)
  show ?case
  proof (cases "j < length ?T")
    case False
    with less.prems(2) have "drop j ?T = []" by simp
    with False cond nt show ?thesis
      by (subst harden_sections.simps) simp
  next
    case True
    have sec: "load_section_header L (memory s) (?first + of_nat j * sizeof_IMAGE_SECTION_HEADER)
        = ?T ! j"
      using kept less.prems(1) True by (rule headers_keptD(4))
    have dr: "drop j ?T = ?T ! j # drop (Suc j) ?T"
      using True by (simp add: Cons_nth_drop_Suc)
    have step: "harden_sections P L ?nt (of_nat j)
           (?first + of_nat j * sizeof_IMAGE_SECTION_HEADER) s
       = (case harden_section P (?T ! j) s of
              None \<Rightarrow> None
            | Some (Inl h) \<Rightarrow> Some (Inl h)
            | Some (Inr s') \<Rightarrow>
                harden_sections P L ?nt (of_nat (Suc j))
                  (?first + of_nat (Suc j) * sizeof_IMAGE_SECTION_HEADER) s')"
    proof -
      have i: "(of_nat j :: u16) + 1 = of_nat (Suc j)" by simp
      have p: "?first + of_nat j * sizeof_IMAGE_SECTION_HEADER + sizeof_IMAGE_SECTION_HEADER
          = ?first + of_nat (Suc j) * sizeof_IMAGE_SECTION_HEADER"
        by (simp add: ring_distribs)
      from True cond have c: "of_nat j < NumberOfSections (FileHeader (load_nt_headers L (memory s) ?nt))"
        by (simp add: nt)
      show ?thesis
        by (subst harden_sections.simps) (simp only: c if_True sec i p)
    qed
    show ?thesis
    proof (cases "harden_section P (?T ! j) s")
      case None
      then show ?thesis by (simp add: step dr)
    next
      case (Some x)
      show ?thesis
      proof (cases x)
        case (Inl h)
        with Some show ?thesis by (simp add: step dr)
      next
        case (Inr s')
        have "\<forall>a. a \<notin> discardable_bytes P ?T \<longrightarrow> memory s' a = mem a"
        proof (intro allI impI)
          fix a assume a: "a \<notin> discardable_bytes P ?T"
          have "?T ! j \<in> set ?T" using True by simp
          from harden_section_memory_outside [OF Some this a] Inr
          have "memory s' a = memory s a" by simp
          with less.prems(1) a show "memory s' a = mem a" by simp
        qed
        moreover have "length ?T - Suc j < length ?T - j" using True by simp
        moreover have "Suc j \<le> length ?T" using True by simp
        ultimately have "harden_sections P L ?nt (of_nat (Suc j))
                  (?first + of_nat (Suc j) * sizeof_IMAGE_SECTION_HEADER) s'
            = harden_list P (drop (Suc j) ?T) s'"
          using less.hyps by blast
        with Some Inr show ?thesis by (simp add: step dr)
      qed
    qed
  qed
qed

lemma harden_image_table:
  assumes kept: "headers_kept P L mem"
    and agree: "\<forall>a. a \<notin> discardable_bytes P (kernel_section_table P L mem) \<longrightarrow> memory s a = mem a"
  shows "harden_image P L s = harden_list P (kernel_section_table P L mem) s"
proof -
  let ?b = "base (kva_kernel P)"
  have dos: "load_dos_header L (memory s) ?b = load_dos_header L mem ?b"
    using kept agree by (rule headers_keptD(1))
  have nt1: "load_nt_headers L (memory s) (?b + scast (e_lfanew (load_dos_header L mem ?b)))
      = load_nt_headers L mem (?b + scast (e_lfanew (load_dos_header L mem ?b)))"
    using kept agree by (rule headers_keptD(2))
  have nt: "ImageNtHeaders L (memory s) ?b = ImageNtHeaders L mem ?b"
    by (simp add: ImageNtHeaders_def Let_def dos nt1)
  have "load_nt_headers L (memory s) (ImageNtHeaders L mem ?b)
      = load_nt_headers L mem (ImageNtHeaders L mem ?b)"
    using kept agree by (rule headers_keptD(3))
  then have first: "IMAGE_FIRST_SECTION L (memory s) (ImageNtHeaders L mem ?b)
      = IMAGE_FIRST_SECTION L mem (ImageNtHeaders L mem ?b)"
    by (simp add: IMAGE_FIRST_SECTION_def)
  from harden_sections_table [OF kept agree, of 0] show ?thesis
    by (simp add: harden_image_def Let_def nt first)
qed

subsection \<open>Claims about the effect of the hardening pass\<close>


lemma unat_ucast_u32:
  fixes n :: u32
  shows "unat (ucast n :: u64) = unat n"
proof -
  have "unat n < 2 ^ 32" using unsigned_less [of n] by simp
  then have "unat n < (2 :: nat) ^ 64" by (rule less_le_trans) simp
  then show ?thesis
    by (simp add: unsigned_ucast_eq take_bit_nat_eq_self)
qed

lemma div_aligned_add:
  fixes m off :: nat
  assumes "m mod 4096 = 0"
  shows "(m + off) div 4096 = m div 4096 + off div 4096"
proof -
  from assms obtain q where q: "m = 4096 * q" by (auto simp: mod_eq_0_iff_dvd)
  then show ?thesis by simp
qed

lemma section_pages_cover:
  fixes start a :: u64 and n :: u32
  assumes fits: "unat start + unat n \<le> 2 ^ 64"
    and aligned: "unat start mod 4096 = 0"
    and a: "a - start < ucast n"
  shows "a div page_size \<in> (\<lambda>page. page div page_size) ` set (section_pages start n)"
proof -
  let ?off = "unat (a - start)"
  let ?k = "?off div 4096"
  from a have off: "?off < unat n"
    by (simp add: word_less_nat_alt unat_ucast_u32)
  have k: "?k < (unat n + 4095) div 4096"
  proof -
    have "?k * 4096 \<le> ?off" by simp
    with off have "?k * 4096 < unat n" by simp
    then have "?k * 4096 + 4096 \<le> unat n + 4095" by simp
    then have "(?k + 1) * 4096 \<le> unat n + 4095" by simp
    then have "?k + 1 \<le> (unat n + 4095) div 4096"
      by (simp add: less_eq_div_iff_mult_less_eq)
    then show ?thesis by simp
  qed
  have "unat start + ?off < 2 ^ LENGTH(64)" using fits off by simp
  then have "unat (start + (a - start)) = unat start + ?off"
    by (rule unat_add_lem [THEN iffD1])
  then have ua: "unat a = unat start + ?off" by simp
  have "?k * 4096 \<le> ?off" by simp
  with fits off have klt: "?k * 4096 < 2 ^ 64" by simp
  have "unat (of_nat ?k * page_size :: u64) = ?k * 4096"
  proof -
    have "?k < 2 ^ 64" using klt by simp
    then have uk: "unat (of_nat ?k :: u64) = ?k" by (simp add: unat_of_nat)
    have "unat (of_nat ?k :: u64) * unat page_size < 2 ^ LENGTH(64)"
      using klt by (simp only: uk unat_page_size) simp
    then have "unat (of_nat ?k * page_size) = unat (of_nat ?k :: u64) * unat page_size"
      by (rule unat_mult_lem [THEN iffD1])
    then show ?thesis by (simp only: uk unat_page_size)
  qed
  moreover from \<open>?k * 4096 \<le> ?off\<close> fits off
  have "unat start + ?k * 4096 < 2 ^ LENGTH(64)" by simp
  ultimately have up: "unat (start + of_nat ?k * page_size) = unat start + ?k * 4096"
    by (simp add: unat_add_lem [THEN iffD1])
  have "unat (a div page_size) = (unat start + ?off) div 4096"
    by (simp add: unat_div ua)
  also have "\<dots> = unat start div 4096 + ?k"
    using aligned by (rule div_aligned_add)
  also have "\<dots> = (unat start + ?k * 4096) div 4096"
    using aligned by (simp add: div_aligned_add)
  also have "\<dots> = unat ((start + of_nat ?k * page_size) div page_size)"
    by (simp add: unat_div up)
  finally have "a div page_size = (start + of_nat ?k * page_size) div page_size"
    by (simp add: word_unat_eq_iff)
  moreover have "start + of_nat ?k * page_size \<in> set (section_pages start n)"
    using k by (simp add: section_pages_def)
  ultimately show ?thesis by blast
qed

lemma section_pages_inside:
  fixes start :: u64 and n :: u32
  assumes "page \<in> set (section_pages start n)"
  shows "page - start < ucast n"
proof -
  from assms obtain k where k: "k < (unat n + 4095) div 4096"
    and page: "page = start + of_nat k * page_size"
    by (auto simp: section_pages_def)
  from k have "Suc k \<le> (unat n + 4095) div 4096" by simp
  then have "Suc k * 4096 \<le> (unat n + 4095) div 4096 * 4096"
    by (rule mult_le_mono1)
  also have "\<dots> \<le> unat n + 4095" by (rule div_times_less_eq_dividend)
  finally have lt: "k * 4096 < unat n" by simp
  have "unat n < 2 ^ 32" using unsigned_less [of n] by simp
  with lt have small: "k * 4096 < 2 ^ 64" by simp
  have "unat (of_nat k * page_size :: u64) = (k * 4096) mod 2 ^ 64"
    by (simp add: unat_word_ariths unat_of_nat mod_simps)
  with small have "unat (of_nat k * page_size :: u64) = k * 4096" by simp
  with lt show ?thesis
    by (simp add: page word_less_nat_alt unat_ucast_u32)
qed

lemma harden_section_protects:
  assumes "Characteristics sec AND IMAGE_SCN_MEM_DISCARDABLE = 0"
    and "Characteristics sec AND IMAGE_SCN_MEM_WRITE = 0"
    and "unat (base (kva_kernel P) + ucast (VirtualAddress sec)) + unat (VirtualSize sec)
           + unat page_size \<le> 2 ^ 64"
    and "\<forall>page \<in> set (section_pages (base (kva_kernel P) + ucast (VirtualAddress sec))
                          (VirtualSize sec)).
           \<exists>e. leaf s (page div page_size) = Some e \<and> present e"
  shows "\<exists>s'. harden_section P sec s = Some (Inr s')
           \<and> memory s' = memory s
           \<and> leaf s' =
               (\<lambda>q. if q \<in> (\<lambda>page. page div page_size) `
                            set (section_pages (base (kva_kernel P) + ucast (VirtualAddress sec))
                                   (VirtualSize sec))
                     then map_option (\<lambda>e. e\<lparr>writable := False\<rparr>) (leaf s q)
                     else leaf s q)"
proof -
  let ?start = "base (kva_kernel P) + ucast (VirtualAddress sec)"
  let ?ps = "section_pages ?start (VirtualSize sec)"
  let ?s = "emit (Ev_Print (Msg_write_protecting ?start (?start + ucast (VirtualSize sec)))) s"
  have v: "pages_visited ?start (?start + ucast (VirtualSize sec)) ?ps"
    using assms(3) by (rule pages_visited_section_pages)
  from assms(4) have "\<forall>page \<in> set ?ps. \<exists>e. leaf ?s (page div page_size) = Some e \<and> present e"
    by simp
  from protect_list_present [OF this] write_protect_pages_visited [OF v, of ?s] assms(1,2)
  show ?thesis
    by (simp add: harden_section_read_only cong: if_cong)
qed

lemma harden_section_protects_extent:
  assumes disc: "Characteristics sec AND IMAGE_SCN_MEM_DISCARDABLE = 0"
    and wr: "Characteristics sec AND IMAGE_SCN_MEM_WRITE = 0"
    and fits: "unat (base (kva_kernel P) + ucast (VirtualAddress sec)) + unat (VirtualSize sec)
           + unat page_size \<le> 2 ^ 64"
    and aligned: "unat (base (kva_kernel P) + ucast (VirtualAddress sec)) mod unat page_size = 0"
    and mapped: "\<forall>a. a - (base (kva_kernel P) + ucast (VirtualAddress sec))
                     < ucast (VirtualSize sec) \<longrightarrow>
                   (\<exists>e. leaf s (a div page_size) = Some e \<and> present e)"
  shows "\<exists>s'. harden_section P sec s = Some (Inr s')
           \<and> memory s' = memory s
           \<and> (\<forall>a. a - (base (kva_kernel P) + ucast (VirtualAddress sec))
                     < ucast (VirtualSize sec) \<longrightarrow>
                 (\<exists>e. leaf s (a div page_size) = Some e \<and> present e
                      \<and> leaf s' (a div page_size) = Some (e\<lparr>writable := False\<rparr>)))"
proof -
  let ?start = "base (kva_kernel P) + ucast (VirtualAddress sec)"
  let ?ps = "section_pages ?start (VirtualSize sec)"
  have "\<forall>page \<in> set ?ps. \<exists>e. leaf s (page div page_size) = Some e \<and> present e"
    using mapped section_pages_inside by blast
  from harden_section_protects [OF disc wr fits this] obtain s' where
    s': "harden_section P sec s = Some (Inr s')" "memory s' = memory s"
      "leaf s' = (\<lambda>q. if q \<in> (\<lambda>page. page div page_size) ` set ?ps
                     then map_option (\<lambda>e. e\<lparr>writable := False\<rparr>) (leaf s q)
                     else leaf s q)"
    by blast
  have "\<exists>e. leaf s (a div page_size) = Some e \<and> present e
           \<and> leaf s' (a div page_size) = Some (e\<lparr>writable := False\<rparr>)"
    if a: "a - ?start < ucast (VirtualSize sec)" for a
  proof -
    from fits have "unat ?start + unat (VirtualSize sec) \<le> 2 ^ 64" by simp
    moreover from aligned have "unat ?start mod 4096 = 0" by simp
    ultimately have "a div page_size \<in> (\<lambda>page. page div page_size) ` set ?ps"
      using a by (rule section_pages_cover)
    moreover from mapped a obtain e where "leaf s (a div page_size) = Some e" "present e"
      by blast
    ultimately show ?thesis by (simp add: s'(3))
  qed
  with s'(1,2) show ?thesis by blast
qed

lemma pe_example_nt:
  "ImageNtHeaders example_pe_loads example_bytes (base (kva_kernel example_platform))
     = 0xFFFFFFFF80000080"
  by code_simp

lemma pe_example_lfanew:
  "base (kva_kernel example_platform)
     + scast (e_lfanew (load_dos_header example_pe_loads example_bytes (base (kva_kernel example_platform))))
     = 0xFFFFFFFF80000080"
  by code_simp

lemma pe_example_first:
  "IMAGE_FIRST_SECTION example_pe_loads example_bytes 0xFFFFFFFF80000080 = 0xFFFFFFFF80000188"
  by code_simp

lemma pe_example_count:
  "NumberOfSections (FileHeader (load_nt_headers example_pe_loads example_bytes 0xFFFFFFFF80000080)) = 3"
  by code_simp

lemma pe_example_table:
  "kernel_section_table example_platform example_pe_loads example_bytes
     = [example_INIT, example_text, example_data]"
  by code_simp

lemma example_discardable_bytes:
  "discardable_bytes example_platform [example_INIT, example_text, example_data]
     = {a. a - 0xFFFFFFFF80002000 < 0x2000}"
  by (simp add: discardable_bytes_def example_INIT_def example_text_def example_data_def
      example_platform_def IMAGE_SCN_MEM_DISCARDABLE_def)

lemma pe_example_headers_kept:
  "headers_kept example_platform example_pe_loads example_bytes"
  unfolding headers_kept_def pe_example_table example_discardable_bytes pe_example_nt
    pe_example_lfanew pe_example_first pe_example_count
proof (intro allI impI)
  fix mem'
  assume "\<forall>a. a \<notin> {a. a - 0xFFFFFFFF80002000 < 0x2000} \<longrightarrow> mem' a = example_bytes a"
  then have eq: "mem' a = example_bytes a" if "\<not> a - 0xFFFFFFFF80002000 < 0x2000" for a
    using that by simp
  have dos: "load_dos_header example_pe_loads mem' (base (kva_kernel example_platform))
      = load_dos_header example_pe_loads example_bytes (base (kva_kernel example_platform))"
    by (simp add: example_pe_loads_def pe_loads_def load_u32_def load_u16_def example_platform_def eq)
  have nt: "load_nt_headers example_pe_loads mem' 0xFFFFFFFF80000080
      = load_nt_headers example_pe_loads example_bytes 0xFFFFFFFF80000080"
    by (simp add: example_pe_loads_def pe_loads_def load_u32_def load_u16_def eq)
  have sec: "load_section_header example_pe_loads mem'
        (0xFFFFFFFF80000188 + of_nat j * sizeof_IMAGE_SECTION_HEADER)
      = load_section_header example_pe_loads example_bytes
        (0xFFFFFFFF80000188 + of_nat j * sizeof_IMAGE_SECTION_HEADER)"
    if "j < unat (3 :: u16)" for j
  proof -
    from that have "j = 0 \<or> j = 1 \<or> j = 2" by auto
    then show ?thesis
      by (elim disjE)
         (simp_all add: example_pe_loads_def pe_loads_def load_u32_def load_u16_def sizeof_IMAGE_SECTION_HEADER_def
            eq upt_rec [of _ 8])
  qed
  from dos nt sec
  show "load_dos_header example_pe_loads mem' (base (kva_kernel example_platform))
      = load_dos_header example_pe_loads example_bytes (base (kva_kernel example_platform))
    \<and> load_nt_headers example_pe_loads mem' 0xFFFFFFFF80000080
      = load_nt_headers example_pe_loads example_bytes 0xFFFFFFFF80000080
    \<and> load_nt_headers example_pe_loads mem' 0xFFFFFFFF80000080
      = load_nt_headers example_pe_loads example_bytes 0xFFFFFFFF80000080
    \<and> (\<forall>j < unat (3 :: u16).
         load_section_header example_pe_loads mem'
           (0xFFFFFFFF80000188 + of_nat j * sizeof_IMAGE_SECTION_HEADER)
         = load_section_header example_pe_loads example_bytes
           (0xFFFFFFFF80000188 + of_nat j * sizeof_IMAGE_SECTION_HEADER))"
    by blast
qed

lemma example_text_pages:
  "section_pages (base (kva_kernel example_platform) + ucast (VirtualAddress example_text))
     (VirtualSize example_text) = [0xFFFFFFFF80001000]"
  by code_simp

text \<open>
  Claim C2, as amended. The hardening pass applies the loop body to the section headers
  of the table one after the other, in table order, when the headers themselves do not
  lie in a discardable section, so that zero-filling does not change the table under the
  loop. For one section header and any state, the loop body does the following.
  \<^item> If the section is marked discardable: the bytes of its virtual extent, \<open>VirtualSize\<close>
    bytes from \<open>kva::kernel.base + VirtualAddress\<close>, become zero; no other byte and no
    leaf entry changes.
  \<^item> Else, if it is not marked writable (and its extent, with a page of slack, lies
    within the 64-bit address space): for every address \<open>start + k * page_size\<close> below the
    end of the extent, the present leaf entry is fetched and its writable bit cleared;
    no other entry and no byte changes.
  \<^item> Else (writable and not discardable): the state is left as it is.
  When the extent starts at a multiple of the page size, the pages \<open>start + k * page_size\<close>
  are all the pages of the extent: every byte of the extent lies in one of them, and so
  the entry of every page of the extent, if all of them are present, has lost its
  writable bit.
  (The claim as stated fails for a section that starts off a page boundary, whose last
  page the loop of lines 163-168 does not reach; for an image whose headers lie in a
  discardable section, where the loop bound read after the zero-fill ends the pass; and
  for an extent that ends at the top of the address space, where the end of the loop
  wraps around.)
\<close>

theorem harden_image_by_section:
  "(headers_kept P L (memory s) \<longrightarrow>
      harden_image P L s = harden_list P (kernel_section_table P L (memory s)) s)
   \<and> (Characteristics sec AND IMAGE_SCN_MEM_DISCARDABLE \<noteq> 0 \<longrightarrow>
        (\<exists>s'. harden_section P sec s = Some (Inr s')
           \<and> memory s' = (\<lambda>a. if a - (base (kva_kernel P) + ucast (VirtualAddress sec))
                                   < ucast (VirtualSize sec)
                                then 0 else memory s a)
           \<and> leaf s' = leaf s))
   \<and> (Characteristics sec AND IMAGE_SCN_MEM_DISCARDABLE = 0
        \<and> Characteristics sec AND IMAGE_SCN_MEM_WRITE = 0
        \<and> unat (base (kva_kernel P) + ucast (VirtualAddress sec)) + unat (VirtualSize sec)
             + unat page_size \<le> 2 ^ 64
        \<and> (\<forall>page \<in> set (section_pages (base (kva_kernel P) + ucast (VirtualAddress sec))
                            (VirtualSize sec)).
              \<exists>e. leaf s (page div page_size) = Some e \<and> present e) \<longrightarrow>
        (\<exists>s'. harden_section P sec s = Some (Inr s')
           \<and> memory s' = memory s
           \<and> leaf s' =
               (\<lambda>q. if q \<in> (\<lambda>page. page div page_size) `
                            set (section_pages (base (kva_kernel P) + ucast (VirtualAddress sec))
                                   (VirtualSize sec))
                     then map_option (\<lambda>e. e\<lparr>writable := False\<rparr>) (leaf s q)
                     else leaf s q)))
   \<and> (Characteristics sec AND IMAGE_SCN_MEM_DISCARDABLE = 0
        \<and> Characteristics sec AND IMAGE_SCN_MEM_WRITE \<noteq> 0 \<longrightarrow>
        harden_section P sec s = Some (Inr s))
   \<and> (unat (base (kva_kernel P) + ucast (VirtualAddress sec)) + unat (VirtualSize sec) \<le> 2 ^ 64
        \<and> unat (base (kva_kernel P) + ucast (VirtualAddress sec)) mod unat page_size = 0 \<longrightarrow>
        (\<forall>a. a - (base (kva_kernel P) + ucast (VirtualAddress sec)) < ucast (VirtualSize sec) \<longrightarrow>
           a div page_size \<in> (\<lambda>page. page div page_size) `
              set (section_pages (base (kva_kernel P) + ucast (VirtualAddress sec))
                     (VirtualSize sec))))
   \<and> (Characteristics sec AND IMAGE_SCN_MEM_DISCARDABLE = 0
        \<and> Characteristics sec AND IMAGE_SCN_MEM_WRITE = 0
        \<and> unat (base (kva_kernel P) + ucast (VirtualAddress sec)) + unat (VirtualSize sec)
             + unat page_size \<le> 2 ^ 64
        \<and> unat (base (kva_kernel P) + ucast (VirtualAddress sec)) mod unat page_size = 0
        \<and> (\<forall>a. a - (base (kva_kernel P) + ucast (VirtualAddress sec)) < ucast (VirtualSize sec) \<longrightarrow>
              (\<exists>e. leaf s (a div page_size) = Some e \<and> present e)) \<longrightarrow>
        (\<exists>s'. harden_section P sec s = Some (Inr s')
           \<and> memory s' = memory s
           \<and> (\<forall>a. a - (base (kva_kernel P) + ucast (VirtualAddress sec))
                     < ucast (VirtualSize sec) \<longrightarrow>
                 (\<exists>e. leaf s (a div page_size) = Some e \<and> present e
                      \<and> leaf s' (a div page_size) = Some (e\<lparr>writable := False\<rparr>)))))"
proof (intro conjI impI allI)
  assume "headers_kept P L (memory s)"
  then show "harden_image P L s = harden_list P (kernel_section_table P L (memory s)) s"
    by (rule harden_image_table) simp
next
  assume "Characteristics sec AND IMAGE_SCN_MEM_DISCARDABLE \<noteq> 0"
  then show "\<exists>s'. harden_section P sec s = Some (Inr s')
           \<and> memory s' = (\<lambda>a. if a - (base (kva_kernel P) + ucast (VirtualAddress sec))
                                   < ucast (VirtualSize sec)
                                then 0 else memory s a)
           \<and> leaf s' = leaf s"
    by (simp add: harden_section_discardable memory_memzero leaf_memzero cong: if_cong)
next
  let ?start = "base (kva_kernel P) + ucast (VirtualAddress sec)"
  let ?ps = "section_pages ?start (VirtualSize sec)"
  let ?s = "emit (Ev_Print (Msg_write_protecting ?start (?start + ucast (VirtualSize sec)))) s"
  assume h: "Characteristics sec AND IMAGE_SCN_MEM_DISCARDABLE = 0
        \<and> Characteristics sec AND IMAGE_SCN_MEM_WRITE = 0
        \<and> unat ?start + unat (VirtualSize sec) + unat page_size \<le> 2 ^ 64
        \<and> (\<forall>page \<in> set ?ps. \<exists>e. leaf s (page div page_size) = Some e \<and> present e)"
  then have v: "pages_visited ?start (?start + ucast (VirtualSize sec)) ?ps"
    by (intro pages_visited_section_pages) simp
  from h have "\<forall>page \<in> set ?ps. \<exists>e. leaf ?s (page div page_size) = Some e \<and> present e"
    by simp
  from protect_list_present [OF this] write_protect_pages_visited [OF v, of ?s] h
  show "\<exists>s'. harden_section P sec s = Some (Inr s')
           \<and> memory s' = memory s
           \<and> leaf s' =
               (\<lambda>q. if q \<in> (\<lambda>page. page div page_size) ` set ?ps
                     then map_option (\<lambda>e. e\<lparr>writable := False\<rparr>) (leaf s q)
                     else leaf s q)"
    by (simp add: harden_section_read_only cong: if_cong)
next
  assume "Characteristics sec AND IMAGE_SCN_MEM_DISCARDABLE = 0
        \<and> Characteristics sec AND IMAGE_SCN_MEM_WRITE \<noteq> 0"
  then show "harden_section P sec s = Some (Inr s)"
    by (simp add: harden_section_writable)
next
  fix a
  assume "unat (base (kva_kernel P) + ucast (VirtualAddress sec)) + unat (VirtualSize sec) \<le> 2 ^ 64
        \<and> unat (base (kva_kernel P) + ucast (VirtualAddress sec)) mod unat page_size = 0"
    and "a - (base (kva_kernel P) + ucast (VirtualAddress sec)) < ucast (VirtualSize sec)"
  then show "a div page_size \<in> (\<lambda>page. page div page_size) `
              set (section_pages (base (kva_kernel P) + ucast (VirtualAddress sec))
                     (VirtualSize sec))"
    by (intro section_pages_cover) simp_all
next
  assume h: "Characteristics sec AND IMAGE_SCN_MEM_DISCARDABLE = 0
        \<and> Characteristics sec AND IMAGE_SCN_MEM_WRITE = 0
        \<and> unat (base (kva_kernel P) + ucast (VirtualAddress sec)) + unat (VirtualSize sec)
             + unat page_size \<le> 2 ^ 64
        \<and> unat (base (kva_kernel P) + ucast (VirtualAddress sec)) mod unat page_size = 0
        \<and> (\<forall>a. a - (base (kva_kernel P) + ucast (VirtualAddress sec)) < ucast (VirtualSize sec) \<longrightarrow>
              (\<exists>e. leaf s (a div page_size) = Some e \<and> present e))"
  show "\<exists>s'. harden_section P sec s = Some (Inr s')
           \<and> memory s' = memory s
           \<and> (\<forall>a. a - (base (kva_kernel P) + ucast (VirtualAddress sec))
                     < ucast (VirtualSize sec) \<longrightarrow>
                 (\<exists>e. leaf s (a div page_size) = Some e \<and> present e
                      \<and> leaf s' (a div page_size) = Some (e\<lparr>writable := False\<rparr>)))"
  proof (rule harden_section_protects_extent)
    show "Characteristics sec AND IMAGE_SCN_MEM_DISCARDABLE = 0" using h by blast
    show "Characteristics sec AND IMAGE_SCN_MEM_WRITE = 0" using h by blast
    show "unat (base (kva_kernel P) + ucast (VirtualAddress sec)) + unat (VirtualSize sec)
             + unat page_size \<le> 2 ^ 64" using h by blast
    show "unat (base (kva_kernel P) + ucast (VirtualAddress sec)) mod unat page_size = 0"
      using h by blast
    show "\<forall>a. a - (base (kva_kernel P) + ucast (VirtualAddress sec)) < ucast (VirtualSize sec) \<longrightarrow>
              (\<exists>e. leaf s (a div page_size) = Some e \<and> present e)" using h by blast
  qed
qed


theorem harden_image_by_section_witness:
  "harden_image example_platform example_pe_loads example_pe_machine
     = harden_list example_platform [example_INIT, example_text, example_data] example_pe_machine
   \<and> (\<exists>s'. harden_section example_platform example_INIT example_machine = Some (Inr s')
         \<and> memory example_machine 0xFFFFFFFF80002000 = 0xFF
         \<and> memory s' 0xFFFFFFFF80002000 = 0
         \<and> memory s' 0xFFFFFFFF80003FFF = 0
         \<and> memory s' 0xFFFFFFFF80001FFF = 0xFF
         \<and> memory s' 0xFFFFFFFF80004000 = 0xFF
         \<and> leaf s' = leaf example_machine)
   \<and> (\<exists>s'. harden_section example_platform example_text example_machine = Some (Inr s')
         \<and> memory s' = memory example_machine
         \<and> leaf s' 0xFFFFFFFF80001 =
              Some \<lparr>present = True, writable = False, physical_target = 0x201000, other_bits = 0\<rparr>
         \<and> leaf s' 0xFFFFFFFF80002 = leaf example_machine 0xFFFFFFFF80002)
   \<and> harden_section example_platform example_data example_machine = Some (Inr example_machine)
   \<and> (0xFFFFFFFF80001800 :: u64) div page_size \<in> (\<lambda>page. page div page_size) `
         set (section_pages (base (kva_kernel example_platform)
                + ucast (VirtualAddress example_text)) (VirtualSize example_text))
   \<and> (\<exists>s'. harden_section example_platform example_text example_machine = Some (Inr s')
         \<and> map_option writable (leaf example_machine ((0xFFFFFFFF80001800 :: u64) div page_size))
             = Some True
         \<and> map_option writable (leaf s' ((0xFFFFFFFF80001800 :: u64) div page_size))
             = Some False)"
proof -
  note c2 = harden_image_by_section
    [where P = example_platform and L = example_loads and s = example_machine]
  have m: "memory example_pe_machine = example_bytes"
    by (simp add: example_pe_machine_def)
  have a: "harden_image example_platform example_pe_loads example_pe_machine
     = harden_list example_platform [example_INIT, example_text, example_data] example_pe_machine"
    using harden_image_by_section
      [where P = example_platform and L = example_pe_loads and s = example_pe_machine
         and sec = example_INIT]
      pe_example_headers_kept
    by (simp only: m pe_example_table)
  have "Characteristics example_INIT AND IMAGE_SCN_MEM_DISCARDABLE \<noteq> 0"
    by (simp add: example_INIT_def IMAGE_SCN_MEM_DISCARDABLE_def)
  with c2 [where sec = example_INIT] obtain s1 where
    s1: "harden_section example_platform example_INIT example_machine = Some (Inr s1)"
      "memory s1 = (\<lambda>a. if a - (base (kva_kernel example_platform)
                                   + ucast (VirtualAddress example_INIT))
                              < ucast (VirtualSize example_INIT)
                         then 0 else memory example_machine a)"
      "leaf s1 = leaf example_machine"
    by blast
  have b: "\<exists>s'. harden_section example_platform example_INIT example_machine = Some (Inr s')
         \<and> memory example_machine 0xFFFFFFFF80002000 = 0xFF
         \<and> memory s' 0xFFFFFFFF80002000 = 0
         \<and> memory s' 0xFFFFFFFF80003FFF = 0
         \<and> memory s' 0xFFFFFFFF80001FFF = 0xFF
         \<and> memory s' 0xFFFFFFFF80004000 = 0xFF
         \<and> leaf s' = leaf example_machine"
    using s1(1,3)
    by (intro exI [of _ s1])
       (simp add: s1(2) example_platform_def example_INIT_def example_machine_def)
  have h3: "Characteristics example_text AND IMAGE_SCN_MEM_DISCARDABLE = 0
        \<and> Characteristics example_text AND IMAGE_SCN_MEM_WRITE = 0
        \<and> unat (base (kva_kernel example_platform) + ucast (VirtualAddress example_text))
             + unat (VirtualSize example_text) + unat page_size \<le> 2 ^ 64
        \<and> (\<forall>page \<in> set (section_pages (base (kva_kernel example_platform)
                              + ucast (VirtualAddress example_text)) (VirtualSize example_text)).
              \<exists>e. leaf example_machine (page div page_size) = Some e \<and> present e)"
    unfolding example_text_pages
    by (simp add: example_text_def example_platform_def example_machine_def
        IMAGE_SCN_MEM_DISCARDABLE_def IMAGE_SCN_MEM_WRITE_def page_size_def)
  with c2 [where sec = example_text] obtain s2 where
    s2: "harden_section example_platform example_text example_machine = Some (Inr s2)"
      "memory s2 = memory example_machine"
      "leaf s2 = (\<lambda>q. if q \<in> (\<lambda>page. page div page_size) `
                            set (section_pages (base (kva_kernel example_platform)
                                   + ucast (VirtualAddress example_text))
                                   (VirtualSize example_text))
                     then map_option (\<lambda>e. e\<lparr>writable := False\<rparr>) (leaf example_machine q)
                     else leaf example_machine q)"
    by blast
  have c: "\<exists>s'. harden_section example_platform example_text example_machine = Some (Inr s')
         \<and> memory s' = memory example_machine
         \<and> leaf s' 0xFFFFFFFF80001 =
              Some \<lparr>present = True, writable = False, physical_target = 0x201000, other_bits = 0\<rparr>
         \<and> leaf s' 0xFFFFFFFF80002 = leaf example_machine 0xFFFFFFFF80002"
    using s2(1,2)
    by (intro exI [of _ s2])
       (simp add: s2(3) example_text_pages example_machine_def page_size_def)
  have "Characteristics example_data AND IMAGE_SCN_MEM_DISCARDABLE = 0
        \<and> Characteristics example_data AND IMAGE_SCN_MEM_WRITE \<noteq> 0"
    by (simp add: example_data_def IMAGE_SCN_MEM_DISCARDABLE_def IMAGE_SCN_MEM_WRITE_def)
  with c2 [where sec = example_data]
  have d: "harden_section example_platform example_data example_machine = Some (Inr example_machine)"
    by blast
  have al: "unat (base (kva_kernel example_platform) + ucast (VirtualAddress example_text))
          + unat (VirtualSize example_text) \<le> 2 ^ 64
        \<and> unat (base (kva_kernel example_platform) + ucast (VirtualAddress example_text))
            mod unat page_size = 0"
    and inside: "(0xFFFFFFFF80001800 :: u64)
          - (base (kva_kernel example_platform) + ucast (VirtualAddress example_text))
        < ucast (VirtualSize example_text)"
    by (simp_all add: example_text_def example_platform_def page_size_def)
  from c2 [where sec = example_text] al
  have cover: "\<forall>a. a - (base (kva_kernel example_platform) + ucast (VirtualAddress example_text))
          < ucast (VirtualSize example_text) \<longrightarrow>
        a div page_size \<in> (\<lambda>page. page div page_size) `
          set (section_pages (base (kva_kernel example_platform)
                 + ucast (VirtualAddress example_text)) (VirtualSize example_text))"
    by blast
  from cover inside
  have e: "(0xFFFFFFFF80001800 :: u64) div page_size \<in> (\<lambda>page. page div page_size) `
         set (section_pages (base (kva_kernel example_platform)
                + ucast (VirtualAddress example_text)) (VirtualSize example_text))"
    by blast
  have mapped: "\<forall>a. a - (base (kva_kernel example_platform) + ucast (VirtualAddress example_text))
          < ucast (VirtualSize example_text) \<longrightarrow>
        (\<exists>e. leaf example_machine (a div page_size) = Some e \<and> present e)"
  proof (intro allI impI)
    fix a :: u64
    assume "a - (base (kva_kernel example_platform) + ucast (VirtualAddress example_text))
          < ucast (VirtualSize example_text)"
    with cover have "a div page_size \<in> (\<lambda>page. page div page_size) `
          set (section_pages (base (kva_kernel example_platform)
                 + ucast (VirtualAddress example_text)) (VirtualSize example_text))"
      by blast
    then have "a div page_size = 0xFFFFFFFF80001"
      unfolding example_text_pages by (simp add: page_size_def)
    then show "\<exists>e. leaf example_machine (a div page_size) = Some e \<and> present e"
      by (simp add: example_machine_def)
  qed
  have h6: "Characteristics example_text AND IMAGE_SCN_MEM_DISCARDABLE = 0
        \<and> Characteristics example_text AND IMAGE_SCN_MEM_WRITE = 0
        \<and> unat (base (kva_kernel example_platform) + ucast (VirtualAddress example_text))
             + unat (VirtualSize example_text) + unat page_size \<le> 2 ^ 64
        \<and> unat (base (kva_kernel example_platform) + ucast (VirtualAddress example_text))
            mod unat page_size = 0
        \<and> (\<forall>a. a - (base (kva_kernel example_platform) + ucast (VirtualAddress example_text))
                < ucast (VirtualSize example_text) \<longrightarrow>
              (\<exists>e. leaf example_machine (a div page_size) = Some e \<and> present e))"
    using h3 al mapped by blast
  from c2 [where sec = example_text, THEN conjunct2, THEN conjunct2, THEN conjunct2,
      THEN conjunct2, THEN conjunct2, THEN mp, OF h6]
  obtain s3 where
    s3: "harden_section example_platform example_text example_machine = Some (Inr s3)"
      "\<forall>a. a - (base (kva_kernel example_platform) + ucast (VirtualAddress example_text))
              < ucast (VirtualSize example_text) \<longrightarrow>
            (\<exists>e. leaf example_machine (a div page_size) = Some e \<and> present e
                 \<and> leaf s3 (a div page_size) = Some (e\<lparr>writable := False\<rparr>))"
    by blast
  from s3(2) inside obtain e3 where
    e3: "leaf example_machine ((0xFFFFFFFF80001800 :: u64) div page_size) = Some e3"
      "leaf s3 ((0xFFFFFFFF80001800 :: u64) div page_size) = Some (e3\<lparr>writable := False\<rparr>)"
    by blast
  have "map_option writable (leaf example_machine ((0xFFFFFFFF80001800 :: u64) div page_size))
      = Some True"
    by (simp add: example_machine_def page_size_def)
  with s3(1) e3
  have f: "\<exists>s'. harden_section example_platform example_text example_machine = Some (Inr s')
         \<and> map_option writable (leaf example_machine ((0xFFFFFFFF80001800 :: u64) div page_size))
             = Some True
         \<and> map_option writable (leaf s' ((0xFFFFFFFF80001800 :: u64) div page_size))
             = Some False"
    by (intro exI [of _ s3]) simp
  from a b c d e f show ?thesis by blast
qed

text \<open>
  Three images on which the hardening pass completes and leaves a page of a section
  that is neither discardable nor writable with its writable bit set.
  \<^item> \<open>.text\<close> at offset \<open>0x800\<close> with \<open>0x1000\<close> bytes: the loop visits \<open>start\<close> only, since
    \<open>start + page_size\<close> is the end of the extent. The entry of the page at offset 0 loses
    the writable bit; the entry of the page at offset \<open>0x1000\<close>, whose first \<open>0x800\<close> bytes
    belong to the extent, keeps it.
  \<^item> \<open>INIT\<close> over the first page of the image: the first round zero-fills the headers,
    the section count read for the second round is 0, and the pass ends without a round
    for \<open>.text\<close>, the second section of the table.
  \<^item> A section in the last page of the address space: \<open>end\<close> is \<open>start + 0x1000 = 0\<close>, the
    loop makes no round, and no entry is fetched.
\<close>

theorem harden_image_extent_counterexample:
  "kernel_section_table example_platform example_pe_loads example_bytes_unaligned
     = [example_INIT, example_text\<lparr>VirtualAddress := 0x800\<rparr>, example_data]
   \<and> (0xFFFFFFFF80001000 :: u64)
         - (base (kva_kernel example_platform) + ucast (0x800 :: u32))
       < ucast (VirtualSize example_text)
   \<and> (case harden_image example_platform example_pe_loads
              (example_machine\<lparr>memory := example_bytes_unaligned\<rparr>) of
         Some (Inr s') \<Rightarrow>
           map_option writable (leaf s' (0xFFFFFFFF80000800 div page_size)) = Some False
           \<and> map_option writable (leaf s' (0xFFFFFFFF80001000 div page_size)) = Some True
       | _ \<Rightarrow> False)
   \<and> kernel_section_table example_platform example_pe_loads example_bytes_self_wipe
     = [example_INIT\<lparr>VirtualSize := 0x1000, VirtualAddress := 0\<rparr>, example_text, example_data]
   \<and> (case harden_image example_platform example_pe_loads
              (example_machine\<lparr>memory := example_bytes_self_wipe\<rparr>) of
         Some (Inr s') \<Rightarrow>
           trace s' = [Ev_Print (Msg_zeroing 0xFFFFFFFF80000000 0x1000),
                       Ev_memzero 0xFFFFFFFF80000000 0x1000]
           \<and> map_option writable (leaf s' (0xFFFFFFFF80001000 div page_size)) = Some True
       | _ \<Rightarrow> False)
   \<and> Characteristics example_top_section AND IMAGE_SCN_MEM_DISCARDABLE = 0
   \<and> Characteristics example_top_section AND IMAGE_SCN_MEM_WRITE = 0
   \<and> map_option (trace \<circ> state_of)
        (harden_section example_platform example_top_section example_machine)
     = Some [Ev_Print (Msg_write_protecting 0xFFFFFFFFFFFFF000 0)]"
proof -
  have a: "kernel_section_table example_platform example_pe_loads example_bytes_unaligned
     = [example_INIT, example_text\<lparr>VirtualAddress := 0x800\<rparr>, example_data]"
    by code_simp
  have b: "(0xFFFFFFFF80001000 :: u64)
         - (base (kva_kernel example_platform) + ucast (0x800 :: u32))
       < ucast (VirtualSize example_text)"
    by (simp add: example_platform_def example_text_def)
  have c: "(case harden_image example_platform example_pe_loads
              (example_machine\<lparr>memory := example_bytes_unaligned\<rparr>) of
         Some (Inr s') \<Rightarrow>
           map_option writable (leaf s' (0xFFFFFFFF80000800 div page_size)) = Some False
           \<and> map_option writable (leaf s' (0xFFFFFFFF80001000 div page_size)) = Some True
       | _ \<Rightarrow> False)"
    by code_simp
  have d: "kernel_section_table example_platform example_pe_loads example_bytes_self_wipe
     = [example_INIT\<lparr>VirtualSize := 0x1000, VirtualAddress := 0\<rparr>, example_text, example_data]"
    by code_simp
  have e: "(case harden_image example_platform example_pe_loads
              (example_machine\<lparr>memory := example_bytes_self_wipe\<rparr>) of
         Some (Inr s') \<Rightarrow>
           trace s' = [Ev_Print (Msg_zeroing 0xFFFFFFFF80000000 0x1000),
                       Ev_memzero 0xFFFFFFFF80000000 0x1000]
           \<and> map_option writable (leaf s' (0xFFFFFFFF80001000 div page_size)) = Some True
       | _ \<Rightarrow> False)"
    by code_simp
  have f: "Characteristics example_top_section AND IMAGE_SCN_MEM_DISCARDABLE = 0"
    "Characteristics example_top_section AND IMAGE_SCN_MEM_WRITE = 0"
    by (simp_all add: example_top_section_def IMAGE_SCN_MEM_DISCARDABLE_def
        IMAGE_SCN_MEM_WRITE_def)
  have g: "map_option (trace \<circ> state_of)
        (harden_section example_platform example_top_section example_machine)
     = Some [Ev_Print (Msg_write_protecting 0xFFFFFFFFFFFFF000 0)]"
    by code_simp
  from a b c d e f g show ?thesis by blast
qed



subsection \<open>Header validation\<close>

lemma ImageNtHeaders_rejects:
  assumes "e_magic (load_dos_header L mem image_base) \<noteq> IMAGE_DOS_SIGNATURE
     \<or> Signature (load_nt_headers L mem
          (image_base + scast (e_lfanew (load_dos_header L mem image_base)))) \<noteq> IMAGE_NT_SIGNATURE"
  shows "ImageNtHeaders L mem image_base = 0"
  using assms by (auto simp: ImageNtHeaders_def Let_def)

lemma ImageNtHeaders_accepts:
  assumes "ImageNtHeaders L mem image_base \<noteq> 0"
  shows "e_magic (load_dos_header L mem image_base) = IMAGE_DOS_SIGNATURE
     \<and> ImageNtHeaders L mem image_base
         = image_base + scast (e_lfanew (load_dos_header L mem image_base))
     \<and> Signature (load_nt_headers L mem (ImageNtHeaders L mem image_base)) = IMAGE_NT_SIGNATURE"
  using assms by (auto simp: ImageNtHeaders_def Let_def split: if_splits)

text \<open>
  Claim C4: what the code does for an image whose DOS signature is wrong. \<open>ImageNtHeaders\<close>
  returns the null pointer, as the claim expects. \<open>OsInitialize\<close> does not test the
  result (lines 134-137): it reads the section count and the size of the optional header
  through the null pointer and walks whatever section table these loads describe. In the
  example they describe one discardable "section"; the run zero-fills 16 bytes inside
  the \<open>.data\<close> section of the image, hardens no section of the image, and goes on to
  unmask interrupts and to idle. No step of the run is an abort.
\<close>

theorem OsInitialize_bad_magic:
  "e_magic (load_dos_header example_loads_bad_magic (memory example_machine)
       (base (kva_kernel example_platform))) \<noteq> IMAGE_DOS_SIGNATURE
   \<and> ImageNtHeaders example_loads_bad_magic (memory example_machine)
       (base (kva_kernel example_platform)) = 0
   \<and> map_option (trace \<circ> state_of)
       (harden_image example_platform example_loads_bad_magic example_machine)
     = Some [Ev_Print (Msg_zeroing 0xFFFFFFFF80004000 0x10),
             Ev_memzero 0xFFFFFFFF80004000 0x10]
   \<and> map_option (\<lambda>r. (isl r, drop 18 (trace (state_of r))))
       (OsInitialize example_platform example_loads_bad_magic example_loader_block example_machine)
     = Some (False,
         [Ev_Print (Msg_zeroing 0xFFFFFFFF80004000 0x10),
          Ev_memzero 0xFFFFFFFF80004000 0x10,
          Ev_unmask_interrupts, Ev_Idle])"
proof -
  have a: "e_magic (load_dos_header example_loads_bad_magic (memory example_machine)
       (base (kva_kernel example_platform))) \<noteq> IMAGE_DOS_SIGNATURE"
    by (simp add: example_loads_bad_magic_def example_loads_def example_platform_def
        IMAGE_DOS_SIGNATURE_def)
  have b: "ImageNtHeaders example_loads_bad_magic (memory example_machine)
       (base (kva_kernel example_platform)) = 0"
    using a by (simp add: ImageNtHeaders_rejects)
  have c: "map_option (trace \<circ> state_of)
       (harden_image example_platform example_loads_bad_magic example_machine)
     = Some [Ev_Print (Msg_zeroing 0xFFFFFFFF80004000 0x10),
             Ev_memzero 0xFFFFFFFF80004000 0x10]"
    by code_simp
  have d: "map_option (\<lambda>r. (isl r, drop 18 (trace (state_of r))))
       (OsInitialize example_platform example_loads_bad_magic example_loader_block example_machine)
     = Some (False,
         [Ev_Print (Msg_zeroing 0xFFFFFFFF80004000 0x10),
          Ev_memzero 0xFFFFFFFF80004000 0x10,
          Ev_unmask_interrupts, Ev_Idle])"
    by code_simp
  from a b c d show ?thesis by blast
qed

end
